theory Spec2Isabelle
  imports Main "HOL-Library.Word"
begin

unbundle bit_operations_syntax

section \<open>Constants and constant tables of fmopl.c\<close>

text \<open>
  The model follows \<^verbatim>\<open>src/Source/fmopl.c\<close>.  Small quantities that the code keeps
  in bytes or in \<^verbatim>\<open>UINT32\<close> fields and that never leave their range (register values,
  rates, table entries, table indices) are natural numbers; the free running 32-bit
  counters (phase, envelope clock, LFO, noise) are \<open>32 word\<close>, so that their
  wrap-around is the one of the machine; signed sample values are integers.
\<close>

definition MAXOUT :: int where "MAXOUT = 32767"
definition MINOUT :: int where "MINOUT = - 32768"

definition FREQ_SH :: nat where "FREQ_SH = 16"
definition EG_SH :: nat where "EG_SH = 16"
definition LFO_SH :: nat where "LFO_SH = 24"

definition FREQ_MASK :: "32 word" where "FREQ_MASK = push_bit FREQ_SH 1 - 1"

definition ENV_BITS :: nat where "ENV_BITS = 10"
definition MAX_ATT_INDEX :: int where "MAX_ATT_INDEX = 2 ^ (ENV_BITS - 1) - 1"
definition MIN_ATT_INDEX :: int where "MIN_ATT_INDEX = 0"

definition SIN_BITS :: nat where "SIN_BITS = 10"
definition SIN_LEN :: nat where "SIN_LEN = 2 ^ SIN_BITS"
definition SIN_MASK :: nat where "SIN_MASK = SIN_LEN - 1"

definition TL_RES_LEN :: nat where "TL_RES_LEN = 256"
definition TL_TAB_LEN :: nat where "TL_TAB_LEN = 12 * TL_RES_LEN"
definition ENV_QUIET :: nat where "ENV_QUIET = drop_bit 4 TL_TAB_LEN"

definition OPL_TYPE_WAVESEL :: nat where "OPL_TYPE_WAVESEL = 1"
definition OPL_TYPE_YM3812 :: nat where "OPL_TYPE_YM3812 = OPL_TYPE_WAVESEL"

definition RATE_STEPS :: nat where "RATE_STEPS = 8"
definition LFO_AM_TAB_ELEMENTS :: nat where "LFO_AM_TAB_ELEMENTS = 210"

text \<open>Envelope generator phases: \<^verbatim>\<open>EG_ATT 4, EG_DEC 3, EG_SUS 2, EG_REL 1, EG_OFF 0\<close>.\<close>

datatype eg_phase = EG_OFF | EG_REL | EG_SUS | EG_DEC | EG_ATT

fun eg_num :: "eg_phase \<Rightarrow> nat" where
  "eg_num EG_OFF = 0"
| "eg_num EG_REL = 1"
| "eg_num EG_SUS = 2"
| "eg_num EG_DEC = 3"
| "eg_num EG_ATT = 4"

text \<open>Mapping of register number (offset) to slot number; \<open>-1\<close> is "no such slot".\<close>

definition slot_array :: "int list" where
  "slot_array =
    [0, 2, 4, 1, 3, 5, -1, -1,
     6, 8, 10, 7, 9, 11, -1, -1,
     12, 14, 16, 13, 15, 17, -1, -1,
     -1, -1, -1, -1, -1, -1, -1, -1]"

text \<open>
  Key scale level table.  The source writes every entry as \<^verbatim>\<open>x / DV\<close> with
  \<^verbatim>\<open>DV = 0.1875f / 2.0f\<close>, converted to \<^verbatim>\<open>uint8_t\<close>; every \<^verbatim>\<open>x\<close> is a multiple of
  \<open>0.375\<close>, so the quotient is the exact integer \<open>32 * x / 3\<close> listed here.
\<close>

definition ksl_tab :: "nat list" where
  "ksl_tab =
    [0, 0, 0, 0, 0, 0, 0, 0, 0, 0, 0, 0, 0, 0, 0, 0,
     0, 0, 0, 0, 0, 0, 0, 0, 0, 8, 12, 16, 20, 24, 28, 32,
     0, 0, 0, 0, 0, 12, 20, 28, 32, 40, 44, 48, 52, 56, 60, 64,
     0, 0, 0, 20, 32, 44, 52, 60, 64, 72, 76, 80, 84, 88, 92, 96,
     0, 0, 32, 52, 64, 76, 84, 92, 96, 104, 108, 112, 116, 120, 124, 128,
     0, 32, 64, 84, 96, 108, 116, 124, 128, 136, 140, 144, 148, 152, 156, 160,
     0, 64, 96, 116, 128, 140, 148, 156, 160, 168, 172, 176, 180, 184, 188, 192,
     0, 96, 128, 148, 160, 172, 180, 188, 192, 200, 204, 208, 212, 216, 220, 224]"

text \<open>
  Sustain level table: \<^verbatim>\<open>SC(db) = (UINT32)(db * (1.0f / ENV_STEP))\<close> with
  \<^verbatim>\<open>ENV_STEP = 128.0f / ENV_LEN = 0.125\<close>, that is \<open>8 * db\<close>.
\<close>

definition sl_tab :: "nat list" where
  "sl_tab = [0, 8, 16, 24, 32, 40, 48, 56, 64, 72, 80, 88, 96, 104, 112, 248]"

definition eg_inc :: "nat list" where
  "eg_inc =
    [0, 1, 0, 1, 0, 1, 0, 1,
     0, 1, 0, 1, 1, 1, 0, 1,
     0, 1, 1, 1, 0, 1, 1, 1,
     0, 1, 1, 1, 1, 1, 1, 1,
     1, 1, 1, 1, 1, 1, 1, 1,
     1, 1, 1, 2, 1, 1, 1, 2,
     1, 2, 1, 2, 1, 2, 1, 2,
     1, 2, 2, 2, 1, 2, 2, 2,
     2, 2, 2, 2, 2, 2, 2, 2,
     2, 2, 2, 4, 2, 2, 2, 4,
     2, 4, 2, 4, 2, 4, 2, 4,
     2, 4, 4, 4, 2, 4, 4, 4,
     4, 4, 4, 4, 4, 4, 4, 4,
     8, 8, 8, 8, 8, 8, 8, 8,
     0, 0, 0, 0, 0, 0, 0, 0]"

text \<open>\<^verbatim>\<open>eg_rate_select\<close>, with \<^verbatim>\<open>O(a) = a * RATE_STEPS\<close> multiplied out.\<close>

definition eg_rate_select :: "nat list" where
  "eg_rate_select =
    [112, 112, 112, 112, 112, 112, 112, 112, 112, 112, 112, 112, 112, 112, 112, 112,
     0, 8, 16, 24, 0, 8, 16, 24, 0, 8, 16, 24, 0, 8, 16, 24,
     0, 8, 16, 24, 0, 8, 16, 24, 0, 8, 16, 24, 0, 8, 16, 24,
     0, 8, 16, 24, 0, 8, 16, 24, 0, 8, 16, 24, 0, 8, 16, 24,
     0, 8, 16, 24, 32, 40, 48, 56, 64, 72, 80, 88, 96, 96, 96, 96,
     96, 96, 96, 96, 96, 96, 96, 96, 96, 96, 96, 96, 96, 96, 96, 96]"

definition eg_rate_shift :: "nat list" where
  "eg_rate_shift =
    [0, 0, 0, 0, 0, 0, 0, 0, 0, 0, 0, 0, 0, 0, 0, 0,
     12, 12, 12, 12, 11, 11, 11, 11, 10, 10, 10, 10, 9, 9, 9, 9,
     8, 8, 8, 8, 7, 7, 7, 7, 6, 6, 6, 6, 5, 5, 5, 5,
     4, 4, 4, 4, 3, 3, 3, 3, 2, 2, 2, 2, 1, 1, 1, 1,
     0, 0, 0, 0, 0, 0, 0, 0, 0, 0, 0, 0, 0, 0, 0, 0,
     0, 0, 0, 0, 0, 0, 0, 0, 0, 0, 0, 0, 0, 0, 0, 0]"

definition mul_tab8 :: "nat list" where
  "mul_tab8 = [1, 2, 4, 6, 8, 10, 12, 14, 16, 18, 20, 20, 24, 24, 30, 30]"

definition lfo_am_table :: "nat list" where
  "lfo_am_table =
    [0, 0, 0, 0, 0, 0, 0, 1, 1, 1, 1, 2, 2, 2, 2, 3, 3, 3, 3, 4, 4,
     4, 4, 5, 5, 5, 5, 6, 6, 6, 6, 7, 7, 7, 7, 8, 8, 8, 8, 9, 9, 9,
     9, 10, 10, 10, 10, 11, 11, 11, 11, 12, 12, 12, 12, 13, 13, 13, 13, 14, 14, 14, 14,
     15, 15, 15, 15, 16, 16, 16, 16, 17, 17, 17, 17, 18, 18, 18, 18, 19, 19, 19, 19, 20,
     20, 20, 20, 21, 21, 21, 21, 22, 22, 22, 22, 23, 23, 23, 23, 24, 24, 24, 24, 25, 25,
     25, 25, 26, 26, 26, 25, 25, 25, 25, 24, 24, 24, 24, 23, 23, 23, 23, 22, 22, 22, 22,
     21, 21, 21, 21, 20, 20, 20, 20, 19, 19, 19, 19, 18, 18, 18, 18, 17, 17, 17, 17, 16,
     16, 16, 16, 15, 15, 15, 15, 14, 14, 14, 14, 13, 13, 13, 13, 12, 12, 12, 12, 11, 11,
     11, 11, 10, 10, 10, 10, 9, 9, 9, 9, 8, 8, 8, 8, 7, 7, 7, 7, 6, 6, 6,
     6, 5, 5, 5, 5, 4, 4, 4, 4, 3, 3, 3, 3, 2, 2, 2, 2, 1, 1, 1, 1]"

definition lfo_pm_table :: "int list" where
  "lfo_pm_table =
    [0, 0, 0, 0, 0, 0, 0, 0, 0, 0, 0, 0, 0, 0, 0, 0,
     0, 0, 0, 0, 0, 0, 0, 0, 1, 0, 0, 0, -1, 0, 0, 0,
     1, 0, 0, 0, -1, 0, 0, 0, 2, 1, 0, -1, -2, -1, 0, 1,
     1, 0, 0, 0, -1, 0, 0, 0, 3, 1, 0, -1, -3, -1, 0, 1,
     2, 1, 0, -1, -2, -1, 0, 1, 4, 2, 0, -2, -4, -2, 0, 2,
     2, 1, 0, -1, -2, -1, 0, 1, 5, 2, 0, -2, -5, -2, 0, 2,
     3, 1, 0, -1, -3, -1, 0, 1, 6, 3, 0, -3, -6, -3, 0, 3,
     3, 1, 0, -1, -3, -1, 0, 1, 7, 3, 0, -3, -7, -3, 0, 3]"

section \<open>Chip state\<close>

text \<open>
  Modelled from the spec: the header \<^verbatim>\<open>fmopl.h\<close> that declares \<^verbatim>\<open>OPL_SLOT\<close>, \<^verbatim>\<open>OPL_CH\<close>,
  \<^verbatim>\<open>FM_OPL\<close> and \<^verbatim>\<open>OPLSAMPLE\<close> is not among the sources.  The fields below are the
  ones \<^verbatim>\<open>fmopl.c\<close> reads and writes, under the names it uses; the spec's data model
  (section 3) lists the same attributes.  \<^verbatim>\<open>connect1\<close>, a pointer to either
  \<^verbatim>\<open>output[0]\<close> or \<^verbatim>\<open>phase_modulation\<close>, is the two-valued tag the spec describes.
\<close>

datatype connect_target = To_output | To_phase_modulation

record OPL_SLOT =
  ar :: nat
  dr :: nat
  rr :: nat
  KSR :: nat
  ksl :: nat
  ksr :: nat
  mul :: nat
  Cnt :: "32 word"
  Incr :: "32 word"
  FB :: nat
  connect1 :: connect_target
  op1_out0 :: int
  op1_out1 :: int
  CON :: nat
  eg_type :: nat
  state :: eg_phase
  TL :: nat
  TLL :: nat
  volume :: int
  sl :: nat
  eg_sh_ar :: nat
  eg_sel_ar :: nat
  eg_sh_dr :: nat
  eg_sel_dr :: nat
  eg_sh_rr :: nat
  eg_sel_rr :: nat
  key :: "32 word"
  AMmask :: "32 word"
  vib :: nat
  wavetable :: nat

text \<open>A channel: \<^verbatim>\<open>SLOT[SLOT1]\<close> and \<^verbatim>\<open>SLOT[SLOT2]\<close> are the two record fields.\<close>

record OPL_CH =
  SLOT1 :: OPL_SLOT
  SLOT2 :: OPL_SLOT
  block_fnum :: nat
  fc :: "32 word"
  ksl_base :: nat
  kcode :: nat

text \<open>
  The chip, followed by the file-scope variables of \<^verbatim>\<open>fmopl.c\<close> that the synthesis
  functions share (\<^verbatim>\<open>phase_modulation\<close>, \<^verbatim>\<open>output[0]\<close>, \<^verbatim>\<open>lastChOutput\<close>, \<^verbatim>\<open>outputCh\<close>,
  \<^verbatim>\<open>LFO_AM\<close>, \<^verbatim>\<open>LFO_PM\<close>): the reference implementation has one chip, so one record
  holds both.  \<^verbatim>\<open>fn_tab\<close>, \<^verbatim>\<open>lfo_am_inc\<close>, \<^verbatim>\<open>lfo_pm_inc\<close>, \<^verbatim>\<open>noise_f\<close> and
  \<^verbatim>\<open>eg_timer_add\<close> are computed in floating point by \<^verbatim>\<open>OPL_initalize\<close>; here they
  are whatever the record holds.
\<close>

record FM_OPL =
  P_CH :: "OPL_CH list"
  eg_cnt :: "32 word"
  eg_timer :: "32 word"
  eg_timer_add :: "32 word"
  eg_timer_overflow :: "32 word"
  rhythm :: nat
  fn_tab :: "32 word list"
  lfo_am_depth :: nat
  lfo_pm_depth_range :: nat
  lfo_am_cnt :: "32 word"
  lfo_am_inc :: "32 word"
  lfo_pm_cnt :: "32 word"
  lfo_pm_inc :: "32 word"
  noise_rng :: "32 word"
  noise_p :: "32 word"
  noise_f :: "32 word"
  wavesel :: nat
  chip_type :: nat
  address :: nat
  status :: "8 word"
  statusmask :: "8 word"
  mode :: nat
  phase_modulation :: int
  output0 :: int
  lastChOutput :: int
  outputCh :: "int list"
  LFO_AM :: "32 word"
  LFO_PM :: nat

text \<open>
  The two waveform tables are filled by \<^verbatim>\<open>init_tables\<close> from \<^verbatim>\<open>powf\<close>, \<^verbatim>\<open>sinf\<close> and
  \<^verbatim>\<open>logf\<close>; the model takes them as a parameter: \<open>sin_tab\<close> has \<^verbatim>\<open>SIN_LEN\<close> entries,
  \<open>tl_tab\<close> has \<^verbatim>\<open>TL_RES_LEN\<close> entries.
\<close>

record tables =
  sin_tab :: "nat list"
  tl_tab :: "int list"

text \<open>\<^verbatim>\<open>CH->SLOT[i]\<close> read and written through the index, as the code does.\<close>

definition SLOT :: "OPL_CH \<Rightarrow> nat \<Rightarrow> OPL_SLOT" where
  "SLOT CH i = (if i = 0 then SLOT1 CH else SLOT2 CH)"

definition SLOT_set :: "nat \<Rightarrow> OPL_SLOT \<Rightarrow> OPL_CH \<Rightarrow> OPL_CH" where
  "SLOT_set i S CH = (if i = 0 then CH\<lparr>SLOT1 := S\<rparr> else CH\<lparr>SLOT2 := S\<rparr>)"

text \<open>
  \<^verbatim>\<open>&OPL->P_CH[c].SLOT[i]\<close> updated in place: \<open>f\<close> receives the channel (for the
  fields \<^verbatim>\<open>CH->fc\<close>, \<^verbatim>\<open>CH->kcode\<close>, \<^verbatim>\<open>CH->ksl_base\<close> it reads) and the slot, and
  returns the new slot.  Every index the code uses is below 9, the size of \<^verbatim>\<open>P_CH\<close>.
\<close>

definition with_slot :: "nat \<Rightarrow> nat \<Rightarrow> (OPL_CH \<Rightarrow> OPL_SLOT \<Rightarrow> OPL_SLOT) \<Rightarrow> FM_OPL \<Rightarrow> FM_OPL" where
  "with_slot c i f OPL =
     (let CH = P_CH OPL ! c
      in OPL\<lparr>P_CH := (P_CH OPL)[c := SLOT_set i (f CH (SLOT CH i)) CH]\<rparr>)"

section \<open>Register decoder\<close>

definition FM_KEYON :: "OPL_SLOT \<Rightarrow> 32 word \<Rightarrow> OPL_SLOT" where
  "FM_KEYON S key_set =
     (let S1 = (if key S = 0 then S\<lparr>Cnt := 0, state := EG_ATT\<rparr> else S)
      in S1\<lparr>key := key S1 OR key_set\<rparr>)"

definition FM_KEYOFF :: "OPL_SLOT \<Rightarrow> 32 word \<Rightarrow> OPL_SLOT" where
  "FM_KEYOFF S key_clr =
     (if key S \<noteq> 0 then
        (let S1 = S\<lparr>key := key S AND key_clr\<rparr>
         in if key S1 = 0 then
              (if eg_num (state S1) > eg_num EG_REL then S1\<lparr>state := EG_REL\<rparr> else S1)
            else S1)
      else S)"

text \<open>The envelope rates of a slot, recomputed from \<^verbatim>\<open>ar\<close>, \<^verbatim>\<open>dr\<close>, \<^verbatim>\<open>rr\<close> and \<^verbatim>\<open>ksr\<close>.\<close>

definition set_eg_ar :: "OPL_SLOT \<Rightarrow> OPL_SLOT" where
  "set_eg_ar S =
     (if ar S + ksr S < 16 + 62
      then S\<lparr>eg_sh_ar := eg_rate_shift ! (ar S + ksr S),
              eg_sel_ar := eg_rate_select ! (ar S + ksr S)\<rparr>
      else S\<lparr>eg_sh_ar := 0, eg_sel_ar := 13 * RATE_STEPS\<rparr>)"

definition set_eg_dr :: "OPL_SLOT \<Rightarrow> OPL_SLOT" where
  "set_eg_dr S =
     S\<lparr>eg_sh_dr := eg_rate_shift ! (dr S + ksr S),
        eg_sel_dr := eg_rate_select ! (dr S + ksr S)\<rparr>"

definition set_eg_rr :: "OPL_SLOT \<Rightarrow> OPL_SLOT" where
  "set_eg_rr S =
     S\<lparr>eg_sh_rr := eg_rate_shift ! (rr S + ksr S),
        eg_sel_rr := eg_rate_select ! (rr S + ksr S)\<rparr>"

definition CALC_FCSLOT :: "OPL_CH \<Rightarrow> OPL_SLOT \<Rightarrow> OPL_SLOT" where
  "CALC_FCSLOT CH S =
     (let S1 = S\<lparr>Incr := fc CH * of_nat (mul S)\<rparr>;
          k = drop_bit (KSR S1) (kcode CH)
      in if ksr S1 \<noteq> k
         then set_eg_rr (set_eg_dr (set_eg_ar (S1\<lparr>ksr := k\<rparr>)))
         else S1)"

definition set_mul :: "FM_OPL \<Rightarrow> nat \<Rightarrow> nat \<Rightarrow> FM_OPL" where
  "set_mul OPL slot v =
     with_slot (slot div 2) (slot AND 1)
       (\<lambda>CH S. CALC_FCSLOT CH
          (S\<lparr>mul := mul_tab8 ! (v AND 0x0f),
             KSR := (if v AND 0x10 \<noteq> 0 then 0 else 2),
             eg_type := v AND 0x20,
             vib := v AND 0x40,
             AMmask := (if v AND 0x80 \<noteq> 0 then NOT 0 else 0)\<rparr>)) OPL"

definition set_ksl_tl :: "FM_OPL \<Rightarrow> nat \<Rightarrow> nat \<Rightarrow> FM_OPL" where
  "set_ksl_tl OPL slot v =
     with_slot (slot div 2) (slot AND 1)
       (\<lambda>CH S.
          let k = drop_bit 6 v;
              S1 = S\<lparr>ksl := (if k \<noteq> 0 then 3 - k else 31),
                      TL := push_bit (ENV_BITS - 1 - 7) (v AND 0x3f)\<rparr>
          in S1\<lparr>TLL := TL S1 + drop_bit (ksl S1) (ksl_base CH)\<rparr>) OPL"

definition set_ar_dr :: "FM_OPL \<Rightarrow> nat \<Rightarrow> nat \<Rightarrow> FM_OPL" where
  "set_ar_dr OPL slot v =
     with_slot (slot div 2) (slot AND 1)
       (\<lambda>CH S.
          let S1 = set_eg_ar
                (S\<lparr>ar := (if drop_bit 4 v \<noteq> 0 then 16 + push_bit 2 (drop_bit 4 v) else 0)\<rparr>)
          in set_eg_dr
               (S1\<lparr>dr := (if v AND 0x0f \<noteq> 0 then 16 + push_bit 2 (v AND 0x0f) else 0)\<rparr>)) OPL"

definition set_sl_rr :: "FM_OPL \<Rightarrow> nat \<Rightarrow> nat \<Rightarrow> FM_OPL" where
  "set_sl_rr OPL slot v =
     with_slot (slot div 2) (slot AND 1)
       (\<lambda>CH S.
          set_eg_rr
            (S\<lparr>sl := push_bit 1 (sl_tab ! drop_bit 4 v),
               rr := (if v AND 0x0f \<noteq> 0 then 16 + push_bit 2 (v AND 0x0f) else 0)\<rparr>)) OPL"

text \<open>Key on or off of one slot for one key source (\<^verbatim>\<open>FM_KEYON(.., k)\<close> / \<^verbatim>\<open>FM_KEYOFF(.., ~k)\<close>).\<close>

definition key_slot :: "bool \<Rightarrow> 32 word \<Rightarrow> nat \<Rightarrow> nat \<Rightarrow> FM_OPL \<Rightarrow> FM_OPL" where
  "key_slot on k c i OPL =
     with_slot c i (\<lambda>CH S. if on then FM_KEYON S k else FM_KEYOFF S (NOT k)) OPL"

text \<open>Register \<^verbatim>\<open>0xbd\<close>: AM depth, vibrato depth, rhythm enable and the five rhythm keys.\<close>

definition write_bd :: "FM_OPL \<Rightarrow> nat \<Rightarrow> FM_OPL" where
  "write_bd OPL v =
     (let O1 = OPL\<lparr>lfo_am_depth := v AND 0x80,
                    lfo_pm_depth_range := (if v AND 0x40 \<noteq> 0 then 8 else 0),
                    rhythm := v AND 0x3f\<rparr>
      in if rhythm O1 AND 0x20 \<noteq> 0 then
           (let O2 = key_slot (v AND 0x10 \<noteq> 0) 2 6 1 (key_slot (v AND 0x10 \<noteq> 0) 2 6 0 O1);
                O3 = key_slot (v AND 0x01 \<noteq> 0) 2 7 0 O2;
                O4 = key_slot (v AND 0x08 \<noteq> 0) 2 7 1 O3;
                O5 = key_slot (v AND 0x04 \<noteq> 0) 2 8 0 O4
            in key_slot (v AND 0x02 \<noteq> 0) 2 8 1 O5)
         else
           key_slot False 2 8 1 (key_slot False 2 8 0 (key_slot False 2 7 1
             (key_slot False 2 7 0 (key_slot False 2 6 1 (key_slot False 2 6 0 O1))))))"

text \<open>
  The "update" block of registers \<^verbatim>\<open>0xa0-0xa8\<close> and \<^verbatim>\<open>0xb0-0xb8\<close>, run when the
  block/fnum of the channel changes.  \<^verbatim>\<open>CH->fc\<close> is read from \<^verbatim>\<open>OPL->fn_tab\<close> (the
  code compiled without \<^verbatim>\<open>EVAL_FN_TAB\<close>).
\<close>

definition update_block_fnum :: "FM_OPL \<Rightarrow> OPL_CH \<Rightarrow> nat \<Rightarrow> OPL_CH" where
  "update_block_fnum OPL CH bf =
     (let block = drop_bit 10 bf;
          C1 = CH\<lparr>block_fnum := bf,
                   ksl_base := ksl_tab ! drop_bit 6 bf,
                   fc := drop_bit (7 - block) (fn_tab OPL ! (bf AND 0x03ff))\<rparr>;
          C2 = C1\<lparr>kcode := drop_bit 9 (block_fnum C1 AND 0x1c00)\<rparr>;
          C3 = (if mode OPL AND 0x40 \<noteq> 0
                then C2\<lparr>kcode := kcode C2 OR drop_bit 8 (block_fnum C2 AND 0x100)\<rparr>
                else C2\<lparr>kcode := kcode C2 OR drop_bit 9 (block_fnum C2 AND 0x200)\<rparr>);
          C4 = C3\<lparr>SLOT1 := (SLOT1 C3)\<lparr>TLL := TL (SLOT1 C3) + drop_bit (ksl (SLOT1 C3)) (ksl_base C3)\<rparr>\<rparr>;
          C5 = C4\<lparr>SLOT2 := (SLOT2 C4)\<lparr>TLL := TL (SLOT2 C4) + drop_bit (ksl (SLOT2 C4)) (ksl_base C4)\<rparr>\<rparr>;
          C6 = C5\<lparr>SLOT1 := CALC_FCSLOT C5 (SLOT1 C5)\<rparr>
      in C6\<lparr>SLOT2 := CALC_FCSLOT C6 (SLOT2 C6)\<rparr>)"

text \<open>Registers \<^verbatim>\<open>0xa0-0xa8\<close> (fnum low) and \<^verbatim>\<open>0xb0-0xb8\<close> (key on, block, fnum high).\<close>

definition write_fnum :: "FM_OPL \<Rightarrow> nat \<Rightarrow> nat \<Rightarrow> FM_OPL" where
  "write_fnum OPL r v =
     (let c = r AND 0x0f; CH = P_CH OPL ! c
      in if r AND 0x10 = 0 then
           (let bf = (block_fnum CH AND 0x1f00) OR v
            in if block_fnum CH \<noteq> bf
               then OPL\<lparr>P_CH := (P_CH OPL)[c := update_block_fnum OPL CH bf]\<rparr>
               else OPL)
         else
           (let bf = push_bit 8 (v AND 0x1f) OR (block_fnum CH AND 0xff);
                O1 = key_slot (v AND 0x20 \<noteq> 0) 1 c 1 (key_slot (v AND 0x20 \<noteq> 0) 1 c 0 OPL);
                CH1 = P_CH O1 ! c
            in if block_fnum CH1 \<noteq> bf
               then O1\<lparr>P_CH := (P_CH O1)[c := update_block_fnum O1 CH1 bf]\<rparr>
               else O1))"

text \<open>Registers \<^verbatim>\<open>0xc0-0xc8\<close>: feedback and connection of operator 1.\<close>

definition write_fb_con :: "FM_OPL \<Rightarrow> nat \<Rightarrow> nat \<Rightarrow> FM_OPL" where
  "write_fb_con OPL r v =
     with_slot (r AND 0x0f) 0
       (\<lambda>CH S.
          let S1 = S\<lparr>FB := (if drop_bit 1 v AND 7 \<noteq> 0 then (drop_bit 1 v AND 7) + 7 else 0),
                      CON := v AND 1\<rparr>
          in S1\<lparr>connect1 := (if CON S1 \<noteq> 0 then To_output else To_phase_modulation)\<rparr>) OPL"

text \<open>
  \<^verbatim>\<open>OPLWriteReg\<close>.  The bus is adjusted to 8 bits first; the timer registers
  \<^verbatim>\<open>0x02-0x04\<close> are compiled out in the source (\<^verbatim>\<open>#if 0\<close>) and fall to \<^verbatim>\<open>default\<close>.
\<close>

definition OPLWriteReg :: "FM_OPL \<Rightarrow> int \<Rightarrow> int \<Rightarrow> FM_OPL" where
  "OPLWriteReg OPL r0 v0 =
     (let r = nat (r0 AND 0xff); v = nat (v0 AND 0xff) in
      if r AND 0xe0 = 0x00 then
        (if r AND 0x1f = 0x01 then
           (if chip_type OPL AND OPL_TYPE_WAVESEL \<noteq> 0 then OPL\<lparr>wavesel := v AND 0x20\<rparr> else OPL)
         else if r AND 0x1f = 0x08 then OPL\<lparr>mode := v\<rparr>
         else OPL)
      else if r AND 0xe0 = 0x20 then
        (let slot = slot_array ! (r AND 0x1f)
         in if slot < 0 then OPL else set_mul OPL (nat slot) v)
      else if r AND 0xe0 = 0x40 then
        (let slot = slot_array ! (r AND 0x1f)
         in if slot < 0 then OPL else set_ksl_tl OPL (nat slot) v)
      else if r AND 0xe0 = 0x60 then
        (let slot = slot_array ! (r AND 0x1f)
         in if slot < 0 then OPL else set_ar_dr OPL (nat slot) v)
      else if r AND 0xe0 = 0x80 then
        (let slot = slot_array ! (r AND 0x1f)
         in if slot < 0 then OPL else set_sl_rr OPL (nat slot) v)
      else if r AND 0xe0 = 0xa0 then
        (if r = 0xbd then write_bd OPL v
         else if r AND 0x0f > 8 then OPL
         else write_fnum OPL r v)
      else if r AND 0xe0 = 0xc0 then
        (if r AND 0x0f > 8 then OPL else write_fb_con OPL r v)
      else if r AND 0xe0 = 0xe0 then
        (if wavesel OPL \<noteq> 0 then
           (let slot = slot_array ! (r AND 0x1f)
            in if slot < 0 then OPL
               else with_slot (nat slot div 2) (nat slot AND 1)
                      (\<lambda>CH S. S\<lparr>wavetable := v AND 0x03\<rparr>) OPL)
         else OPL)
      else OPL)"

section \<open>Noise generator\<close>

text \<open>One shift of the noise register (the body of the \<^verbatim>\<open>while (i)\<close> loop of \<^verbatim>\<open>advance\<close>).\<close>

definition noise_shift :: "32 word \<Rightarrow> 32 word" where
  "noise_shift rng =
     drop_bit 1 (if rng AND 1 \<noteq> 0 then rng XOR 0x800302 else rng)"

fun noise_shifts :: "nat \<Rightarrow> 32 word \<Rightarrow> 32 word" where
  "noise_shifts 0 rng = rng"
| "noise_shifts (Suc i) rng = noise_shifts i (noise_shift rng)"

section \<open>Envelope, phase and noise clocks\<close>

definition advance_lfo :: "FM_OPL \<Rightarrow> FM_OPL" where
  "advance_lfo OPL =
     (let c1 = lfo_am_cnt OPL + lfo_am_inc OPL;
          c2 = (if c1 \<ge> push_bit LFO_SH (of_nat LFO_AM_TAB_ELEMENTS)
                then c1 - push_bit LFO_SH (of_nat LFO_AM_TAB_ELEMENTS) else c1);
          tmp = lfo_am_table ! unat (drop_bit LFO_SH c2);
          p = lfo_pm_cnt OPL + lfo_pm_inc OPL
      in OPL\<lparr>lfo_am_cnt := c2,
              LFO_AM := (if lfo_am_depth OPL \<noteq> 0 then of_nat tmp else of_nat (drop_bit 2 tmp)),
              lfo_pm_cnt := p,
              LFO_PM := unat (drop_bit LFO_SH p AND 7) OR lfo_pm_depth_range OPL\<rparr>)"

text \<open>\<^verbatim>\<open>!(OPL->eg_cnt & ((1 << sh) - 1))\<close> and \<^verbatim>\<open>eg_inc[sel + ((OPL->eg_cnt >> sh) & 7)]\<close>.\<close>

definition eg_gate :: "32 word \<Rightarrow> nat \<Rightarrow> bool" where
  "eg_gate cnt sh = (cnt AND (push_bit sh 1 - 1) = 0)"

definition eg_step :: "32 word \<Rightarrow> nat \<Rightarrow> nat \<Rightarrow> int" where
  "eg_step cnt sel sh = int (eg_inc ! (sel + unat (drop_bit sh cnt AND 7)))"

text \<open>
  The \<^verbatim>\<open>switch (op->state)\<close> of \<^verbatim>\<open>advance\<close> for one operator.  \<^verbatim>\<open>volume\<close> is a signed
  integer: \<^verbatim>\<open>~volume\<close> is \<open>NOT\<close>, \<^verbatim>\<open>>> 3\<close> the arithmetic shift \<open>drop_bit 3\<close>, and
  \<^verbatim>\<open>(UINT32)(op->volume)\<close> the reading of its 32-bit pattern as unsigned.
\<close>

definition eg_slot :: "32 word \<Rightarrow> OPL_SLOT \<Rightarrow> OPL_SLOT" where
  "eg_slot cnt op =
     (case state op of
        EG_ATT \<Rightarrow>
          if eg_gate cnt (eg_sh_ar op) then
            (let op1 = op\<lparr>volume := volume op +
                         drop_bit 3 (NOT (volume op) * eg_step cnt (eg_sel_ar op) (eg_sh_ar op))\<rparr>
             in if volume op1 \<le> MIN_ATT_INDEX
                then op1\<lparr>volume := MIN_ATT_INDEX, state := EG_DEC\<rparr> else op1)
          else op
      | EG_DEC \<Rightarrow>
          if eg_gate cnt (eg_sh_dr op) then
            (let op1 = op\<lparr>volume := volume op + eg_step cnt (eg_sel_dr op) (eg_sh_dr op)\<rparr>
             in if unat (word_of_int (volume op1) :: 32 word) \<ge> sl op1
                then op1\<lparr>state := EG_SUS\<rparr> else op1)
          else op
      | EG_SUS \<Rightarrow>
          if eg_type op \<noteq> 0 then op
          else if eg_gate cnt (eg_sh_rr op) then
            (let op1 = op\<lparr>volume := volume op + eg_step cnt (eg_sel_rr op) (eg_sh_rr op)\<rparr>
             in if volume op1 \<ge> MAX_ATT_INDEX then op1\<lparr>volume := MAX_ATT_INDEX\<rparr> else op1)
          else op
      | EG_REL \<Rightarrow>
          if eg_gate cnt (eg_sh_rr op) then
            (let op1 = op\<lparr>volume := volume op + eg_step cnt (eg_sel_rr op) (eg_sh_rr op)\<rparr>
             in if volume op1 \<ge> MAX_ATT_INDEX
                then op1\<lparr>volume := MAX_ATT_INDEX, state := EG_OFF\<rparr> else op1)
          else op
      | EG_OFF \<Rightarrow> op)"

text \<open>One pass of the body of \<^verbatim>\<open>while (OPL->eg_timer >= OPL->eg_timer_overflow)\<close>.\<close>

definition eg_tick :: "FM_OPL \<Rightarrow> FM_OPL" where
  "eg_tick OPL =
     (let O1 = OPL\<lparr>eg_timer := eg_timer OPL - eg_timer_overflow OPL, eg_cnt := eg_cnt OPL + 1\<rparr>
      in O1\<lparr>P_CH := map (\<lambda>CH. CH\<lparr>SLOT1 := eg_slot (eg_cnt O1) (SLOT1 CH),
                                    SLOT2 := eg_slot (eg_cnt O1) (SLOT2 CH)\<rparr>) (P_CH O1)\<rparr>)"

text \<open>
  The envelope loop.  With \<^verbatim>\<open>eg_timer_overflow = 0\<close> the C loop never ends: that is
  \<open>None\<close>.  \<^verbatim>\<open>OPL_initalize\<close> sets the field to \<^verbatim>\<open>1 << EG_SH\<close>.
\<close>

function eg_loop :: "FM_OPL \<Rightarrow> FM_OPL option" where
  "eg_loop OPL =
     (if eg_timer_overflow OPL = 0 then None
      else if eg_timer OPL \<ge> eg_timer_overflow OPL then eg_loop (eg_tick OPL)
      else Some OPL)"
  by pat_completeness auto
termination
proof (relation "measure (\<lambda>OPL. unat (eg_timer OPL))")
  show "wf (measure (\<lambda>OPL. unat (eg_timer OPL)))" by simp
next
  fix OPL :: FM_OPL
  assume nz: "eg_timer_overflow OPL \<noteq> 0" and ge: "eg_timer_overflow OPL \<le> eg_timer OPL"
  have "unat (eg_timer OPL - eg_timer_overflow OPL) = unat (eg_timer OPL) - unat (eg_timer_overflow OPL)"
    using ge by (simp add: unat_sub)
  moreover have "0 < unat (eg_timer_overflow OPL)"
    using nz by (simp add: unat_gt_0)
  moreover have "unat (eg_timer_overflow OPL) \<le> unat (eg_timer OPL)"
    using ge by (simp add: word_le_nat_alt)
  ultimately show "(eg_tick OPL, OPL) \<in> measure (\<lambda>OPL. unat (eg_timer OPL))"
    by (simp add: eg_tick_def Let_def)
qed

text \<open>The phase generator of one operator (second loop of \<^verbatim>\<open>advance\<close>).\<close>

definition phase_slot :: "FM_OPL \<Rightarrow> OPL_CH \<Rightarrow> OPL_SLOT \<Rightarrow> OPL_SLOT" where
  "phase_slot OPL CH op =
     (if vib op \<noteq> 0 then
        (let bf = block_fnum CH;
             fnum_lfo = drop_bit 7 (bf AND 0x0380);
             off = lfo_pm_table ! (LFO_PM OPL + 16 * fnum_lfo)
         in if off \<noteq> 0 then
              (let bf1 = nat ((int bf + off) mod 2 ^ 32);
                   block = drop_bit 10 (bf1 AND 0x1c00)
               in op\<lparr>Cnt := Cnt op +
                        drop_bit (7 - block) (fn_tab OPL ! (bf1 AND 0x03ff)) * of_nat (mul op)\<rparr>)
            else op\<lparr>Cnt := Cnt op + Incr op\<rparr>)
      else op\<lparr>Cnt := Cnt op + Incr op\<rparr>)"

definition advance_phase :: "FM_OPL \<Rightarrow> FM_OPL" where
  "advance_phase OPL =
     OPL\<lparr>P_CH := map (\<lambda>CH. CH\<lparr>SLOT1 := phase_slot OPL CH (SLOT1 CH),
                                 SLOT2 := phase_slot OPL CH (SLOT2 CH)\<rparr>) (P_CH OPL)\<rparr>"

definition advance_noise :: "FM_OPL \<Rightarrow> FM_OPL" where
  "advance_noise OPL =
     (let p = noise_p OPL + noise_f OPL;
          i = unat (drop_bit FREQ_SH p)
      in OPL\<lparr>noise_p := p AND FREQ_MASK, noise_rng := noise_shifts i (noise_rng OPL)\<rparr>)"

definition advance :: "FM_OPL \<Rightarrow> FM_OPL option" where
  "advance OPL =
     (case eg_loop (OPL\<lparr>eg_timer := eg_timer OPL + eg_timer_add OPL\<rparr>) of
        None \<Rightarrow> None
      | Some O1 \<Rightarrow> Some (advance_noise (advance_phase O1)))"

text \<open>\<open>n\<close> calls of \<^verbatim>\<open>advance\<close> in a row.\<close>

fun advances :: "nat \<Rightarrow> FM_OPL \<Rightarrow> FM_OPL option" where
  "advances 0 OPL = Some OPL"
| "advances (Suc n) OPL = (case advance OPL of None \<Rightarrow> None | Some O1 \<Rightarrow> advances n O1)"

section \<open>Operator network\<close>

text \<open>
  The part that \<^verbatim>\<open>op_calc\<close> and \<^verbatim>\<open>op_calc1\<close> share word for word: the waveform
  \<^verbatim>\<open>switch\<close> on the sine index \<open>i\<close> and the lookup in \<^verbatim>\<open>tl_tab\<close>.  The callers pass
  \<open>env < ENV_QUIET\<close>, so \<^verbatim>\<open>env << 4\<close> does not wrap.
\<close>

definition wave_out :: "tables \<Rightarrow> nat \<Rightarrow> nat \<Rightarrow> nat \<Rightarrow> int" where
  "wave_out T i env wave_tab =
     (if wave_tab = 1 \<and> i AND 2 ^ (SIN_BITS - 1) \<noteq> 0 then 0
      else if wave_tab = 3 \<and> i AND 2 ^ (SIN_BITS - 2) \<noteq> 0 then 0
      else
        (let p0 = (if wave_tab = 1 then sin_tab T ! i
                   else if wave_tab = 2 then sin_tab T ! (i AND drop_bit 1 SIN_MASK)
                   else if wave_tab = 3 then sin_tab T ! (i AND drop_bit 2 SIN_MASK)
                   else sin_tab T ! i);
             p = p0 + push_bit 4 env
         in if p \<ge> TL_TAB_LEN then 0
            else
              (let sign = p AND 1;
                   p1 = drop_bit 1 p;
                   s = drop_bit 8 p1;
                   q = drop_bit s (tl_tab T ! (p1 AND 255))
               in if sign \<noteq> 0 then - q else q)))"

definition op_calc :: "tables \<Rightarrow> 32 word \<Rightarrow> nat \<Rightarrow> int \<Rightarrow> nat \<Rightarrow> int" where
  "op_calc T phase env pm wave_tab =
     wave_out T
       (unat (signed_drop_bit FREQ_SH ((phase AND NOT FREQ_MASK) + push_bit 16 (word_of_int pm))
              AND of_nat SIN_MASK))
       env wave_tab"

definition op_calc1 :: "tables \<Rightarrow> 32 word \<Rightarrow> nat \<Rightarrow> int \<Rightarrow> nat \<Rightarrow> int" where
  "op_calc1 T phase env pm wave_tab =
     wave_out T
       (unat (signed_drop_bit FREQ_SH ((phase AND NOT FREQ_MASK) + word_of_int pm)
              AND of_nat SIN_MASK))
       env wave_tab"

text \<open>\<^verbatim>\<open>volume_calc(OP)\<close>, an unsigned 32-bit sum.\<close>

definition volume_calc :: "FM_OPL \<Rightarrow> OPL_SLOT \<Rightarrow> nat" where
  "volume_calc OPL OP =
     unat ((of_nat (TLL OP) + word_of_int (volume OP) + (LFO_AM OPL AND AMmask OP)) :: 32 word)"

text \<open>\<^verbatim>\<open>*SLOT->connect1 += x\<close>.\<close>

definition add_connect1 :: "connect_target \<Rightarrow> int \<Rightarrow> FM_OPL \<Rightarrow> FM_OPL" where
  "add_connect1 t x OPL =
     (case t of
        To_output \<Rightarrow> OPL\<lparr>output0 := output0 OPL + x\<rparr>
      | To_phase_modulation \<Rightarrow> OPL\<lparr>phase_modulation := phase_modulation OPL + x\<rparr>)"

text \<open>
  The two halves of \<^verbatim>\<open>OPL_CALC_CH\<close>: the block under \<^verbatim>\<open>/* SLOT 1 */\<close> and the block
  under \<^verbatim>\<open>/* SLOT 2 */\<close>, for the channel \<^verbatim>\<open>&OPL->P_CH[c]\<close>.
\<close>

definition ch_op1 :: "tables \<Rightarrow> nat \<Rightarrow> FM_OPL \<Rightarrow> FM_OPL" where
  "ch_op1 T c OPL =
     (let CH = P_CH OPL ! c;
          S = SLOT1 CH;
          env = volume_calc OPL S;
          out = op1_out0 S + op1_out1 S;
          S1 = S\<lparr>op1_out0 := op1_out1 S\<rparr>;
          O1 = add_connect1 (connect1 S1) (op1_out0 S1) OPL;
          S2 = S1\<lparr>op1_out1 := 0\<rparr>;
          S3 = (if env < ENV_QUIET
                then S2\<lparr>op1_out1 := op_calc1 T (Cnt S2) env
                           (push_bit (FB S2) (if FB S2 = 0 then 0 else out)) (wavetable S2)\<rparr>
                else S2)
      in O1\<lparr>P_CH := (P_CH O1)[c := CH\<lparr>SLOT1 := S3\<rparr>]\<rparr>)"

definition ch_op2 :: "tables \<Rightarrow> nat \<Rightarrow> FM_OPL \<Rightarrow> FM_OPL" where
  "ch_op2 T c OPL =
     (let S = SLOT2 (P_CH OPL ! c);
          env = volume_calc OPL S
      in if env < ENV_QUIET then
           (let l = op_calc T (Cnt S) env (phase_modulation OPL) (wavetable S)
            in OPL\<lparr>lastChOutput := l, output0 := output0 OPL + l\<rparr>)
         else OPL)"

definition OPL_CALC_CH :: "tables \<Rightarrow> nat \<Rightarrow> FM_OPL \<Rightarrow> FM_OPL" where
  "OPL_CALC_CH T c OPL = ch_op2 T c (ch_op1 T c (OPL\<lparr>phase_modulation := 0, lastChOutput := 0\<rparr>))"

text \<open>
  \<^verbatim>\<open>OPL_CALC_RH(&OPL->P_CH[0], noise)\<close>, one definition per voice, in the order of
  the source.  \<^verbatim>\<open>SLOT7_1\<close>, \<^verbatim>\<open>SLOT7_2\<close>, \<^verbatim>\<open>SLOT8_1\<close>, \<^verbatim>\<open>SLOT8_2\<close> point to the slots of
  channels 7 and 8 of the chip.
\<close>

definition SLOT7_1 :: "FM_OPL \<Rightarrow> OPL_SLOT" where "SLOT7_1 OPL = SLOT1 (P_CH OPL ! 7)"
definition SLOT7_2 :: "FM_OPL \<Rightarrow> OPL_SLOT" where "SLOT7_2 OPL = SLOT2 (P_CH OPL ! 7)"
definition SLOT8_1 :: "FM_OPL \<Rightarrow> OPL_SLOT" where "SLOT8_1 OPL = SLOT1 (P_CH OPL ! 8)"
definition SLOT8_2 :: "FM_OPL \<Rightarrow> OPL_SLOT" where "SLOT8_2 OPL = SLOT2 (P_CH OPL ! 8)"

text \<open>\<^verbatim>\<open>((S->Cnt >> FREQ_SH) >> n) & 1\<close>\<close>

definition cnt_bit :: "OPL_SLOT \<Rightarrow> nat \<Rightarrow> bool" where
  "cnt_bit S n = (drop_bit n (drop_bit FREQ_SH (Cnt S)) AND 1 \<noteq> 0)"

text \<open>Bass drum, operator 1 (channel 6, slot 1).\<close>

definition rh_bd1 :: "tables \<Rightarrow> FM_OPL \<Rightarrow> FM_OPL" where
  "rh_bd1 T OPL =
     (let CH = P_CH OPL ! 6;
          S = SLOT1 CH;
          env = volume_calc OPL S;
          out = op1_out0 S + op1_out1 S;
          S1 = S\<lparr>op1_out0 := op1_out1 S\<rparr>;
          O1 = (if CON S1 = 0 then OPL\<lparr>phase_modulation := op1_out0 S1\<rparr> else OPL);
          S2 = S1\<lparr>op1_out1 := 0\<rparr>;
          S3 = (if env < ENV_QUIET
                then S2\<lparr>op1_out1 := op_calc1 T (Cnt S2) env
                           (push_bit (FB S2) (if FB S2 = 0 then 0 else out)) (wavetable S2)\<rparr>
                else S2)
      in O1\<lparr>P_CH := (P_CH O1)[6 := CH\<lparr>SLOT1 := S3\<rparr>]\<rparr>)"

text \<open>Bass drum, operator 2 (channel 6, slot 2).\<close>

definition rh_bd2 :: "tables \<Rightarrow> FM_OPL \<Rightarrow> FM_OPL" where
  "rh_bd2 T OPL =
     (let S = SLOT2 (P_CH OPL ! 6);
          env = volume_calc OPL S
      in if env < ENV_QUIET then
           (let l = op_calc T (Cnt S) env (phase_modulation OPL) (wavetable S) * 2
            in OPL\<lparr>lastChOutput := l, output0 := output0 OPL + l\<rparr>)
         else OPL)"

text \<open>\<^verbatim>\<open>res1 = (bit2 ^ bit7) | bit3\<close> of channel 7 slot 1, \<^verbatim>\<open>res2 = bit3e ^ bit5e\<close> of channel 8 slot 2.\<close>

definition rh_res1 :: "FM_OPL \<Rightarrow> bool" where
  "rh_res1 OPL =
     ((cnt_bit (SLOT7_1 OPL) 2 \<noteq> cnt_bit (SLOT7_1 OPL) 7) \<or> cnt_bit (SLOT7_1 OPL) 3)"

definition rh_res2 :: "FM_OPL \<Rightarrow> bool" where
  "rh_res2 OPL = (cnt_bit (SLOT8_2 OPL) 3 \<noteq> cnt_bit (SLOT8_2 OPL) 5)"

text \<open>High hat: envelope of channel 7 slot 1.\<close>

definition rh_hh :: "tables \<Rightarrow> bool \<Rightarrow> FM_OPL \<Rightarrow> FM_OPL" where
  "rh_hh T noise OPL =
     (let env = volume_calc OPL (SLOT7_1 OPL)
      in if env < ENV_QUIET then
           (let ph0 = (if rh_res1 OPL then 0x200 OR drop_bit 2 0xd0 else 0xd0);
                ph1 = (if rh_res2 OPL then 0x200 OR drop_bit 2 0xd0 else ph0);
                ph2 = (if ph1 AND 0x200 \<noteq> 0
                       then (if noise then 0x200 OR 0xd0 else ph1)
                       else (if noise then drop_bit 2 0xd0 else ph1))
            in OPL\<lparr>output0 := output0 OPL +
                      op_calc T (push_bit FREQ_SH ph2) env 0 (wavetable (SLOT7_1 OPL)) * 2\<rparr>)
         else OPL)"

text \<open>Snare drum: envelope of channel 7 slot 2.\<close>

definition rh_sd :: "tables \<Rightarrow> bool \<Rightarrow> FM_OPL \<Rightarrow> FM_OPL" where
  "rh_sd T noise OPL =
     (let env = volume_calc OPL (SLOT7_2 OPL)
      in if env < ENV_QUIET then
           (let ph0 = (if cnt_bit (SLOT7_1 OPL) 8 then 0x200 else 0x100);
                ph1 = (if noise then ph0 XOR 0x100 else ph0)
            in OPL\<lparr>output0 := output0 OPL +
                      op_calc T (push_bit FREQ_SH ph1) env 0 (wavetable (SLOT7_2 OPL)) * 2\<rparr>)
         else OPL)"

text \<open>Tom tom: envelope and phase of channel 8 slot 1.\<close>

definition rh_tom :: "tables \<Rightarrow> FM_OPL \<Rightarrow> FM_OPL" where
  "rh_tom T OPL =
     (let env = volume_calc OPL (SLOT8_1 OPL)
      in if env < ENV_QUIET then
           OPL\<lparr>output0 := output0 OPL +
                  op_calc T (Cnt (SLOT8_1 OPL)) env 0 (wavetable (SLOT8_1 OPL)) * 2\<rparr>
         else OPL)"

text \<open>Top cymbal: envelope of channel 8 slot 2.\<close>

definition rh_top :: "tables \<Rightarrow> FM_OPL \<Rightarrow> FM_OPL" where
  "rh_top T OPL =
     (let env = volume_calc OPL (SLOT8_2 OPL)
      in if env < ENV_QUIET then
           (let ph0 = (if rh_res1 OPL then 0x300 else 0x100);
                ph1 = (if rh_res2 OPL then 0x300 else ph0)
            in OPL\<lparr>output0 := output0 OPL +
                      op_calc T (push_bit FREQ_SH ph1) env 0 (wavetable (SLOT8_2 OPL)) * 2\<rparr>)
         else OPL)"

definition OPL_CALC_RH :: "tables \<Rightarrow> bool \<Rightarrow> FM_OPL \<Rightarrow> FM_OPL" where
  "OPL_CALC_RH T noise OPL =
     rh_top T (rh_tom T (rh_sd T noise (rh_hh T noise
       (rh_bd2 T (rh_bd1 T (OPL\<lparr>phase_modulation := 0, lastChOutput := 0\<rparr>))))))"

section \<open>Sample loop\<close>

definition limit :: "int \<Rightarrow> int \<Rightarrow> int \<Rightarrow> int" where
  "limit val mx mn = (if val > mx then mx else if val < mn then mn else val)"

text \<open>
  Modelled from the spec: \<^verbatim>\<open>OPLSAMPLE\<close> is declared in the missing header; the spec's
  sample generation interface returns signed 16-bit samples.  Storing the \<^verbatim>\<open>int\<close>
  accumulator into the buffer keeps its low 16 bits, read as two's complement.
\<close>

definition store_sample :: "int \<Rightarrow> int" where
  "store_sample lt = signed_take_bit 15 lt"

text \<open>\<^verbatim>\<open>OPL_CALC_CH(&OPL->P_CH[c]); outputCh[c] = lastChOutput;\<close>\<close>

definition calc_ch :: "tables \<Rightarrow> nat \<Rightarrow> FM_OPL \<Rightarrow> FM_OPL" where
  "calc_ch T c OPL =
     (let O1 = OPL_CALC_CH T c OPL in O1\<lparr>outputCh := (outputCh O1)[c := lastChOutput O1]\<rparr>)"

text \<open>
  The channel part of one pass of the loop of \<^verbatim>\<open>ym3812_update_one\<close>, from
  \<^verbatim>\<open>output[0] = 0\<close> to the last channel; \<open>rh\<close> is the local \<^verbatim>\<open>rhythm\<close>.
\<close>

definition calc_channels :: "tables \<Rightarrow> nat \<Rightarrow> FM_OPL \<Rightarrow> FM_OPL" where
  "calc_channels T rh OPL =
     (let O1 = advance_lfo (OPL\<lparr>output0 := 0\<rparr>);
          O2 = calc_ch T 5 (calc_ch T 4 (calc_ch T 3 (calc_ch T 2 (calc_ch T 1 (calc_ch T 0 O1)))))
      in if rh = 0 then calc_ch T 8 (calc_ch T 7 (calc_ch T 6 O2))
         else
           (let O3 = OPL_CALC_RH T (noise_rng O2 AND 1 \<noteq> 0) O2
            in O3\<lparr>outputCh := (outputCh O3)[8 := lastChOutput O3, 7 := lastChOutput O3,
                                              6 := lastChOutput O3]\<rparr>))"

text \<open>One pass of the loop: the stored sample and the chip after \<^verbatim>\<open>advance\<close>.\<close>

definition one_sample :: "tables \<Rightarrow> nat \<Rightarrow> FM_OPL \<Rightarrow> (int \<times> FM_OPL) option" where
  "one_sample T rh OPL =
     (let O1 = calc_channels T rh OPL;
          lt = drop_bit 0 (output0 O1)
      in case advance O1 of
           None \<Rightarrow> None
         | Some O2 \<Rightarrow> Some (store_sample lt, O2))"

fun sample_loop :: "tables \<Rightarrow> nat \<Rightarrow> nat \<Rightarrow> FM_OPL \<Rightarrow> (int list \<times> FM_OPL) option" where
  "sample_loop T rh 0 OPL = Some ([], OPL)"
| "sample_loop T rh (Suc n) OPL =
     (case one_sample T rh OPL of
        None \<Rightarrow> None
      | Some (x, O1) \<Rightarrow>
          (case sample_loop T rh n O1 of
             None \<Rightarrow> None
           | Some (xs, O2) \<Rightarrow> Some (x # xs, O2)))"

text \<open>
  \<^verbatim>\<open>ym3812_update_one(chip, buffer, length)\<close>: the samples written to \<^verbatim>\<open>buffer\<close> and
  the chip afterwards.  \<^verbatim>\<open>rhythm\<close> is read once, before the loop.
\<close>

definition ym3812_update_one :: "tables \<Rightarrow> FM_OPL \<Rightarrow> nat \<Rightarrow> (int list \<times> FM_OPL) option" where
  "ym3812_update_one T OPL len = sample_loop T (rhythm OPL AND 0x20) len OPL"

section \<open>Reset and creation\<close>

definition OPL_STATUS_RESET :: "FM_OPL \<Rightarrow> 8 word \<Rightarrow> FM_OPL" where
  "OPL_STATUS_RESET OPL flag =
     (let O1 = OPL\<lparr>status := status OPL AND NOT flag\<rparr>
      in if status O1 AND 0x80 \<noteq> 0 \<and> status O1 AND statusmask O1 = 0
         then O1\<lparr>status := status O1 AND 0x7f\<rparr> else O1)"

text \<open>
  \<^verbatim>\<open>for (i = 0xff; i >= 0x20; i--) OPLWriteReg(OPL, i, 0);\<close> is \<open>write_zeros\<close> over the
  registers \<open>reset_regs\<close>, from \<^verbatim>\<open>0xff\<close> down to \<^verbatim>\<open>0x20\<close>.
\<close>

definition reset_regs :: "int list" where
  "reset_regs = rev [0x20 .. 0xff]"

fun write_zeros :: "FM_OPL \<Rightarrow> int list \<Rightarrow> FM_OPL" where
  "write_zeros OPL [] = OPL"
| "write_zeros OPL (i # rs) = write_zeros (OPLWriteReg OPL i 0) rs"

definition reset_slot :: "OPL_SLOT \<Rightarrow> OPL_SLOT" where
  "reset_slot S = S\<lparr>wavetable := 0, state := EG_OFF, volume := MAX_ATT_INDEX, connect1 := To_output\<rparr>"

definition OPLResetChip :: "FM_OPL \<Rightarrow> FM_OPL" where
  "OPLResetChip OPL =
     (let O1 = OPL_STATUS_RESET (OPL\<lparr>eg_timer := 0, eg_cnt := 0, noise_rng := 1, mode := 0\<rparr>) 0x7f;
          O2 = OPLWriteReg (OPLWriteReg (OPLWriteReg (OPLWriteReg O1 0x01 0) 0x02 0) 0x03 0) 0x04 0;
          O3 = write_zeros O2 reset_regs
      in O3\<lparr>P_CH := map (\<lambda>CH. CH\<lparr>SLOT1 := reset_slot (SLOT1 CH), SLOT2 := reset_slot (SLOT2 CH)\<rparr>)
                       (P_CH O3)\<rparr>)"

text \<open>\<^verbatim>\<open>OPL_STATUS_SET\<close>, \<^verbatim>\<open>CSMKeyControll\<close> and \<^verbatim>\<open>OPLTimerOver\<close> (its chip after the call).\<close>

definition OPL_STATUS_SET :: "FM_OPL \<Rightarrow> 8 word \<Rightarrow> FM_OPL" where
  "OPL_STATUS_SET OPL flag =
     (let O1 = OPL\<lparr>status := status OPL OR flag\<rparr>
      in if status O1 AND 0x80 = 0 \<and> status O1 AND statusmask O1 \<noteq> 0
         then O1\<lparr>status := status O1 OR 0x80\<rparr> else O1)"

definition CSMKeyControll :: "nat \<Rightarrow> FM_OPL \<Rightarrow> FM_OPL" where
  "CSMKeyControll c OPL =
     key_slot False 4 c 1 (key_slot False 4 c 0 (key_slot True 4 c 1 (key_slot True 4 c 0 OPL)))"

definition OPLTimerOver :: "FM_OPL \<Rightarrow> nat \<Rightarrow> FM_OPL" where
  "OPLTimerOver OPL c =
     (if c \<noteq> 0 then OPL_STATUS_SET OPL 0x20
      else
        (let O1 = OPL_STATUS_SET OPL 0x40
         in if mode O1 AND 0x80 \<noteq> 0 then fold CSMKeyControll [0 ..< 9] O1 else O1))"

text \<open>
  \<^verbatim>\<open>OPLCreate\<close>: the chip is cleared with \<^verbatim>\<open>memset\<close>, then \<^verbatim>\<open>OPL_initalize\<close> stores the
  increments it derives in floating point from clock and rate (here the parameters
  \<open>fn\<close>, \<open>am\<close>, \<open>pm\<close>, \<open>nf\<close>, \<open>ta\<close>) and \<^verbatim>\<open>eg_timer_overflow = 1 << EG_SH\<close>.  The null
  \<^verbatim>\<open>connect1\<close> that \<^verbatim>\<open>memset\<close> leaves is never read: \<^verbatim>\<open>ym3812_init\<close> resets the chip
  at once, and the reset stores \<^verbatim>\<open>&output[0]\<close> in every slot.
\<close>

definition zero_slot :: OPL_SLOT where
  "zero_slot =
     \<lparr>ar = 0, dr = 0, rr = 0, KSR = 0, ksl = 0, ksr = 0, mul = 0, Cnt = 0, Incr = 0, FB = 0,
      connect1 = To_phase_modulation, op1_out0 = 0, op1_out1 = 0, CON = 0, eg_type = 0,
      state = EG_OFF, TL = 0, TLL = 0, volume = 0, sl = 0,
      eg_sh_ar = 0, eg_sel_ar = 0, eg_sh_dr = 0, eg_sel_dr = 0, eg_sh_rr = 0, eg_sel_rr = 0,
      key = 0, AMmask = 0, vib = 0, wavetable = 0\<rparr>"

definition zero_ch :: OPL_CH where
  "zero_ch = \<lparr>SLOT1 = zero_slot, SLOT2 = zero_slot, block_fnum = 0, fc = 0, ksl_base = 0, kcode = 0\<rparr>"

definition OPLCreate ::
  "32 word list \<Rightarrow> 32 word \<Rightarrow> 32 word \<Rightarrow> 32 word \<Rightarrow> 32 word \<Rightarrow> nat \<Rightarrow> FM_OPL" where
  "OPLCreate fn am pm nf ta ty =
     \<lparr>P_CH = replicate 9 zero_ch, eg_cnt = 0, eg_timer = 0, eg_timer_add = ta,
      eg_timer_overflow = push_bit EG_SH 1, rhythm = 0, fn_tab = fn,
      lfo_am_depth = 0, lfo_pm_depth_range = 0, lfo_am_cnt = 0, lfo_am_inc = am,
      lfo_pm_cnt = 0, lfo_pm_inc = pm, noise_rng = 0, noise_p = 0, noise_f = nf,
      wavesel = 0, chip_type = ty, address = 0, status = 0, statusmask = 0, mode = 0,
      phase_modulation = 0, output0 = 0, lastChOutput = 0, outputCh = replicate 9 0,
      LFO_AM = 0, LFO_PM = 0\<rparr>"

definition ym3812_init ::
  "32 word list \<Rightarrow> 32 word \<Rightarrow> 32 word \<Rightarrow> 32 word \<Rightarrow> 32 word \<Rightarrow> FM_OPL" where
  "ym3812_init fn am pm nf ta = OPLResetChip (OPLCreate fn am pm nf ta OPL_TYPE_YM3812)"

section \<open>Notions used by the properties\<close>

text \<open>The operator \<open>i\<close> (0 or 1) of channel \<open>c\<close>.\<close>

definition the_slot :: "FM_OPL \<Rightarrow> nat \<Rightarrow> nat \<Rightarrow> OPL_SLOT" where
  "the_slot OPL c i = SLOT (P_CH OPL ! c) i"

text \<open>The offsets of an operator block for which \<^verbatim>\<open>slot_array\<close> has no operator.\<close>

definition no_slot :: "nat \<Rightarrow> bool" where
  "no_slot off = (slot_array ! off < 0)"

definition no_slot_offsets :: "nat list" where
  "no_slot_offsets = filter no_slot [0 ..< 32]"

text \<open>
  A chip as \<^verbatim>\<open>OPLCreate\<close> leaves it when the clock is 72 times the sample rate, so that
  \<^verbatim>\<open>freqbase\<close> is 1: \<^verbatim>\<open>fn_tab[i] = i * 64 * 64\<close>, \<^verbatim>\<open>lfo_am_inc = (1 << 24) / 64\<close>,
  \<^verbatim>\<open>lfo_pm_inc = (1 << 24) / 1024\<close>, \<^verbatim>\<open>noise_f = eg_timer_add = 1 << 16\<close>.
\<close>

definition unit_rate_chip :: FM_OPL where
  "unit_rate_chip =
     OPLCreate (map (\<lambda>i. of_nat (i * 4096)) [0 ..< 1024]) 0x40000 0x4000 0x10000 0x10000
       OPL_TYPE_YM3812"

text \<open>The chip that \<^verbatim>\<open>ym3812_init\<close> returns for the same clock and rate.\<close>

definition unit_rate_init :: FM_OPL where
  "unit_rate_init =
     ym3812_init (map (\<lambda>i. of_nat (i * 4096)) [0 ..< 1024]) 0x40000 0x4000 0x10000 0x10000"

text \<open>
  A chip at rest, its registers cleared: every operator is off at the maximal
  attenuation, routed to the output, with the rates that a register value 0 selects.
\<close>

definition rest_slot :: OPL_SLOT where
  "rest_slot =
     zero_slot\<lparr>mul := 1, KSR := 2, ksl := 31, eg_sel_ar := 112, eg_sel_dr := 112,
       eg_sel_rr := 112, volume := MAX_ATT_INDEX, connect1 := To_output\<rparr>"

definition rest_ch :: OPL_CH where
  "rest_ch = zero_ch\<lparr>SLOT1 := rest_slot, SLOT2 := rest_slot\<rparr>"

definition rest_chip :: FM_OPL where
  "rest_chip = unit_rate_chip\<lparr>P_CH := replicate 9 rest_ch, noise_rng := 1\<rparr>"

text \<open>Waveform tables for examples: a flat sine table and a flat level table.\<close>

definition flat_tables :: tables where
  "flat_tables = \<lparr>sin_tab = replicate 1024 0, tl_tab = replicate 256 4084\<rparr>"

text \<open>The noise register is a non-zero 23-bit value.\<close>

definition noise_ok :: "FM_OPL \<Rightarrow> bool" where
  "noise_ok OPL = (noise_rng OPL \<noteq> 0 \<and> drop_bit 23 (noise_rng OPL) = 0)"

text \<open>
  The sample loop as the spec words it: the switch between three melodic channels
  and the rhythm voices is read from the live flag \<^verbatim>\<open>OPL->rhythm\<close> at every sample.
\<close>

fun update_live :: "tables \<Rightarrow> nat \<Rightarrow> FM_OPL \<Rightarrow> (int list \<times> FM_OPL) option" where
  "update_live T 0 OPL = Some ([], OPL)"
| "update_live T (Suc n) OPL =
     (case one_sample T (rhythm OPL AND 0x20) OPL of
        None \<Rightarrow> None
      | Some (x, O1) \<Rightarrow>
          (case update_live T n O1 of
             None \<Rightarrow> None
           | Some (xs, O2) \<Rightarrow> Some (x # xs, O2)))"

text \<open>What one step of the operator network adds to the accumulator \<^verbatim>\<open>output[0]\<close>.\<close>

definition contribution :: "(FM_OPL \<Rightarrow> FM_OPL) \<Rightarrow> FM_OPL \<Rightarrow> int" where
  "contribution f OPL = output0 (f OPL) - output0 OPL"

text \<open>
  A chip whose nine first operators, all routed to the output, gave the sample 4084
  one sample ago, and a chip whose channel 0 gave 100 through its first operator and
  has decayed to the attenuation 192 since.
\<close>

definition loud_chip :: FM_OPL where
  "loud_chip = rest_chip\<lparr>P_CH := replicate 9 (rest_ch\<lparr>SLOT1 := rest_slot\<lparr>op1_out1 := 4084\<rparr>\<rparr>)\<rparr>"

definition fading_chip :: FM_OPL where
  "fading_chip =
     rest_chip\<lparr>P_CH := (replicate 9 rest_ch)
       [0 := rest_ch\<lparr>SLOT1 := rest_slot\<lparr>op1_out1 := 100, volume := 192, state := EG_REL\<rparr>\<rparr>]\<rparr>"

text \<open>
  What the register decoder and the clocks keep true of an operator, of a channel and
  of the chip: the attenuation is in \<open>[0, 511]\<close>, and below 496 while decaying; the
  sustain level and the rate selectors are entries of their tables; the key scale rate
  and the three rates index \<^verbatim>\<open>eg_rate_shift\<close> and \<^verbatim>\<open>eg_rate_select\<close> within bounds.
\<close>

definition slot_inv :: "OPL_SLOT \<Rightarrow> bool" where
  "slot_inv S =
     (0 \<le> volume S \<and> volume S \<le> MAX_ATT_INDEX \<and> (state S = EG_DEC \<longrightarrow> volume S \<le> 495) \<and>
      sl S \<le> 496 \<and> eg_sel_ar S \<le> 112 \<and> eg_sel_dr S \<le> 112 \<and> eg_sel_rr S \<le> 112 \<and>
      ksr S \<le> 15 \<and> ar S \<le> 76 \<and> dr S \<le> 76 \<and> rr S \<le> 76 \<and> TL S \<le> 252 \<and> TLL S \<le> 507)"

definition ch_inv :: "OPL_CH \<Rightarrow> bool" where
  "ch_inv CH = (kcode CH \<le> 15 \<and> ksl_base CH \<le> 255 \<and> slot_inv (SLOT1 CH) \<and> slot_inv (SLOT2 CH))"

definition chip_inv :: "FM_OPL \<Rightarrow> bool" where
  "chip_inv OPL = (length (P_CH OPL) = 9 \<and> list_all ch_inv (P_CH OPL) \<and> LFO_AM OPL \<le> 26)"

text \<open>
  The calls of a host, in the order it makes them: \<^verbatim>\<open>ym3812_write\<close> to the data port
  with the latched address (that is, \<^verbatim>\<open>OPLWriteReg\<close>), \<^verbatim>\<open>ym3812_reset_chip\<close>,
  \<^verbatim>\<open>ym3812_update_one\<close> and \<^verbatim>\<open>ym3812_timer_over\<close>; \<open>host_run\<close> is the chip after them.
\<close>

datatype host_call = Write_reg int int | Reset_chip | Update nat | Timer_over nat

fun host_run :: "tables \<Rightarrow> FM_OPL \<Rightarrow> host_call list \<Rightarrow> FM_OPL option" where
  "host_run T OPL [] = Some OPL"
| "host_run T OPL (Write_reg r v # cs) = host_run T (OPLWriteReg OPL r v) cs"
| "host_run T OPL (Reset_chip # cs) = host_run T (OPLResetChip OPL) cs"
| "host_run T OPL (Update n # cs) =
     (case ym3812_update_one T OPL n of
        None \<Rightarrow> None
      | Some (xs, O1) \<Rightarrow> host_run T O1 cs)"
| "host_run T OPL (Timer_over c # cs) = host_run T (OPLTimerOver OPL c) cs"

text \<open>
  The operator \<open>i\<close> of channel \<open>c\<close> is in the sustain phase with EG-type \<open>e\<close> and, when
  \<open>e\<close> is set (non-percussive), at the attenuation \<open>v\<close>.
\<close>

definition sustained :: "nat \<Rightarrow> nat \<Rightarrow> nat \<Rightarrow> int \<Rightarrow> FM_OPL \<Rightarrow> bool" where
  "sustained c i e v OPL =
     (c < length (P_CH OPL) \<and> state (the_slot OPL c i) = EG_SUS \<and>
      eg_type (the_slot OPL c i) = e \<and> (e \<noteq> 0 \<longrightarrow> volume (the_slot OPL c i) = v))"

text \<open>A chip whose channel 0 holds a note: its second operator sustains, non-percussive.\<close>

definition sustaining_chip :: FM_OPL where
  "sustaining_chip =
     rest_chip\<lparr>P_CH := (replicate 9 rest_ch)
       [0 := rest_ch\<lparr>SLOT2 := rest_slot\<lparr>state := EG_SUS, volume := 64, eg_type := 0x20,
                                         key := 1\<rparr>\<rparr>]\<rparr>"

text \<open>
  What the first operator of a channel computed one sample ago and still has to add to
  the accumulator (\<^verbatim>\<open>op1_out[1]\<close>, when \<^verbatim>\<open>connect1\<close> points to \<^verbatim>\<open>output[0]\<close>), and a chip
  all of whose operators are at or above the quiet threshold by their envelope alone.
\<close>

definition stale :: "OPL_CH \<Rightarrow> int" where
  "stale CH = (if connect1 (SLOT1 CH) = To_output then op1_out1 (SLOT1 CH) else 0)"

definition hushed_ch :: "OPL_CH \<Rightarrow> bool" where
  "hushed_ch CH = (int ENV_QUIET \<le> volume (SLOT1 CH) \<and> int ENV_QUIET \<le> volume (SLOT2 CH))"

definition hushed :: "FM_OPL \<Rightarrow> bool" where
  "hushed OPL = (chip_inv OPL \<and> list_all hushed_ch (P_CH OPL))"

text \<open>
  A chip at rest whose channel 6 played through its first operator one sample ago:
  as a melodic channel it still adds that output, as the bass drum it does not.
\<close>

definition drum_chip :: FM_OPL where
  "drum_chip =
     rest_chip\<lparr>P_CH := (replicate 9 rest_ch)
       [6 := rest_ch\<lparr>SLOT1 := rest_slot\<lparr>op1_out1 := 100\<rparr>\<rparr>]\<rparr>"

text \<open>
  Every operator of the chip is off at the maximal attenuation; and a chip whose
  channel 0 is sounding: its first operator is keyed on at full level and computed the
  output 100 for the sample before.
\<close>

definition all_off :: "FM_OPL \<Rightarrow> bool" where
  "all_off OPL =
     list_all (\<lambda>CH. state (SLOT1 CH) = EG_OFF \<and> volume (SLOT1 CH) = MAX_ATT_INDEX \<and>
                     state (SLOT2 CH) = EG_OFF \<and> volume (SLOT2 CH) = MAX_ATT_INDEX) (P_CH OPL)"

definition played_chip :: FM_OPL where
  "played_chip =
     rest_chip\<lparr>P_CH := (replicate 9 rest_ch)
       [0 := rest_ch\<lparr>SLOT1 := rest_slot\<lparr>state := EG_SUS, volume := 0, key := 1,
                                         op1_out1 := 100\<rparr>\<rparr>]\<rparr>"

text \<open>
  An operator on which the key switch for the key source \<open>k\<close> has nothing left to do:
  keyed on by \<open>k\<close> already, or not keyed by \<open>k\<close>.
\<close>

definition key_settled :: "bool \<Rightarrow> 32 word \<Rightarrow> OPL_SLOT \<Rightarrow> bool" where
  "key_settled on k S = (if on then key S \<noteq> 0 \<and> key S OR k = key S else key S AND k = 0)"

section \<open>Basic facts\<close>

lemma nat_and_le2: "(x::nat) AND m \<le> m"
proof -
  have "int (x AND m) \<le> int m"
    by (simp add: of_nat_and_eq AND_upper2)
  then show ?thesis by simp
qed

lemma nat_and_le1: "(x::nat) AND m \<le> x"
proof -
  have "int (x AND m) \<le> int x"
    by (simp add: of_nat_and_eq AND_upper1)
  then show ?thesis by simp
qed

lemma SLOT_SLOT_set [simp]: "SLOT (SLOT_set i S CH) i = S"
  by (simp add: SLOT_def SLOT_set_def)

lemma SLOT_set_SLOT_set [simp]: "SLOT_set i S (SLOT_set i S' CH) = SLOT_set i S CH"
  by (simp add: SLOT_set_def)

lemma SLOT_set_same [simp]: "SLOT_set i (SLOT CH i) CH = CH"
  by (simp add: SLOT_def SLOT_set_def)

lemma SLOT_set_fields [simp]:
  "block_fnum (SLOT_set i S CH) = block_fnum CH"
  "fc (SLOT_set i S CH) = fc CH"
  "ksl_base (SLOT_set i S CH) = ksl_base CH"
  "kcode (SLOT_set i S CH) = kcode CH"
  by (simp_all add: SLOT_set_def)

lemma with_slot_P_CH:
  "P_CH (with_slot c i f OPL) =
     (P_CH OPL)[c := SLOT_set i (f (P_CH OPL ! c) (SLOT (P_CH OPL ! c) i)) (P_CH OPL ! c)]"
  by (simp add: with_slot_def Let_def)

lemma with_slot_length [simp]: "length (P_CH (with_slot c i f OPL)) = length (P_CH OPL)"
  by (simp add: with_slot_P_CH)

lemma with_slot_fields [simp]:
  "eg_cnt (with_slot c i f OPL) = eg_cnt OPL"
  "eg_timer (with_slot c i f OPL) = eg_timer OPL"
  "eg_timer_add (with_slot c i f OPL) = eg_timer_add OPL"
  "eg_timer_overflow (with_slot c i f OPL) = eg_timer_overflow OPL"
  "rhythm (with_slot c i f OPL) = rhythm OPL"
  "fn_tab (with_slot c i f OPL) = fn_tab OPL"
  "lfo_am_depth (with_slot c i f OPL) = lfo_am_depth OPL"
  "lfo_pm_depth_range (with_slot c i f OPL) = lfo_pm_depth_range OPL"
  "lfo_am_cnt (with_slot c i f OPL) = lfo_am_cnt OPL"
  "lfo_am_inc (with_slot c i f OPL) = lfo_am_inc OPL"
  "lfo_pm_cnt (with_slot c i f OPL) = lfo_pm_cnt OPL"
  "lfo_pm_inc (with_slot c i f OPL) = lfo_pm_inc OPL"
  "noise_rng (with_slot c i f OPL) = noise_rng OPL"
  "noise_p (with_slot c i f OPL) = noise_p OPL"
  "noise_f (with_slot c i f OPL) = noise_f OPL"
  "wavesel (with_slot c i f OPL) = wavesel OPL"
  "chip_type (with_slot c i f OPL) = chip_type OPL"
  "address (with_slot c i f OPL) = address OPL"
  "status (with_slot c i f OPL) = status OPL"
  "statusmask (with_slot c i f OPL) = statusmask OPL"
  "mode (with_slot c i f OPL) = mode OPL"
  "phase_modulation (with_slot c i f OPL) = phase_modulation OPL"
  "output0 (with_slot c i f OPL) = output0 OPL"
  "lastChOutput (with_slot c i f OPL) = lastChOutput OPL"
  "outputCh (with_slot c i f OPL) = outputCh OPL"
  "LFO_AM (with_slot c i f OPL) = LFO_AM OPL"
  "LFO_PM (with_slot c i f OPL) = LFO_PM OPL"
  by (simp_all add: with_slot_def Let_def)

lemma key_slot_fields [simp]:
  "eg_cnt (key_slot b k c i OPL) = eg_cnt OPL"
  "eg_timer (key_slot b k c i OPL) = eg_timer OPL"
  "eg_timer_add (key_slot b k c i OPL) = eg_timer_add OPL"
  "eg_timer_overflow (key_slot b k c i OPL) = eg_timer_overflow OPL"
  "rhythm (key_slot b k c i OPL) = rhythm OPL"
  "fn_tab (key_slot b k c i OPL) = fn_tab OPL"
  "lfo_am_depth (key_slot b k c i OPL) = lfo_am_depth OPL"
  "lfo_pm_depth_range (key_slot b k c i OPL) = lfo_pm_depth_range OPL"
  "lfo_am_cnt (key_slot b k c i OPL) = lfo_am_cnt OPL"
  "lfo_am_inc (key_slot b k c i OPL) = lfo_am_inc OPL"
  "lfo_pm_cnt (key_slot b k c i OPL) = lfo_pm_cnt OPL"
  "lfo_pm_inc (key_slot b k c i OPL) = lfo_pm_inc OPL"
  "noise_rng (key_slot b k c i OPL) = noise_rng OPL"
  "noise_p (key_slot b k c i OPL) = noise_p OPL"
  "noise_f (key_slot b k c i OPL) = noise_f OPL"
  "wavesel (key_slot b k c i OPL) = wavesel OPL"
  "chip_type (key_slot b k c i OPL) = chip_type OPL"
  "address (key_slot b k c i OPL) = address OPL"
  "status (key_slot b k c i OPL) = status OPL"
  "statusmask (key_slot b k c i OPL) = statusmask OPL"
  "mode (key_slot b k c i OPL) = mode OPL"
  "phase_modulation (key_slot b k c i OPL) = phase_modulation OPL"
  "output0 (key_slot b k c i OPL) = output0 OPL"
  "lastChOutput (key_slot b k c i OPL) = lastChOutput OPL"
  "outputCh (key_slot b k c i OPL) = outputCh OPL"
  "LFO_AM (key_slot b k c i OPL) = LFO_AM OPL"
  "LFO_PM (key_slot b k c i OPL) = LFO_PM OPL"
  by (simp_all add: key_slot_def)

lemma key_slot_length [simp]: "length (P_CH (key_slot b k c i OPL)) = length (P_CH OPL)"
  by (simp add: key_slot_def)

lemma set_mul_fields [simp]:
  "eg_cnt (set_mul OPL slot v) = eg_cnt OPL"
  "eg_timer (set_mul OPL slot v) = eg_timer OPL"
  "eg_timer_add (set_mul OPL slot v) = eg_timer_add OPL"
  "eg_timer_overflow (set_mul OPL slot v) = eg_timer_overflow OPL"
  "rhythm (set_mul OPL slot v) = rhythm OPL"
  "fn_tab (set_mul OPL slot v) = fn_tab OPL"
  "lfo_am_depth (set_mul OPL slot v) = lfo_am_depth OPL"
  "lfo_pm_depth_range (set_mul OPL slot v) = lfo_pm_depth_range OPL"
  "lfo_am_cnt (set_mul OPL slot v) = lfo_am_cnt OPL"
  "lfo_am_inc (set_mul OPL slot v) = lfo_am_inc OPL"
  "lfo_pm_cnt (set_mul OPL slot v) = lfo_pm_cnt OPL"
  "lfo_pm_inc (set_mul OPL slot v) = lfo_pm_inc OPL"
  "noise_rng (set_mul OPL slot v) = noise_rng OPL"
  "noise_p (set_mul OPL slot v) = noise_p OPL"
  "noise_f (set_mul OPL slot v) = noise_f OPL"
  "wavesel (set_mul OPL slot v) = wavesel OPL"
  "chip_type (set_mul OPL slot v) = chip_type OPL"
  "address (set_mul OPL slot v) = address OPL"
  "status (set_mul OPL slot v) = status OPL"
  "statusmask (set_mul OPL slot v) = statusmask OPL"
  "mode (set_mul OPL slot v) = mode OPL"
  "phase_modulation (set_mul OPL slot v) = phase_modulation OPL"
  "output0 (set_mul OPL slot v) = output0 OPL"
  "lastChOutput (set_mul OPL slot v) = lastChOutput OPL"
  "outputCh (set_mul OPL slot v) = outputCh OPL"
  "LFO_AM (set_mul OPL slot v) = LFO_AM OPL"
  "LFO_PM (set_mul OPL slot v) = LFO_PM OPL"
  by (simp_all add: set_mul_def)

lemma set_mul_length [simp]: "length (P_CH (set_mul OPL slot v)) = length (P_CH OPL)"
  by (simp add: set_mul_def)

lemma set_ksl_tl_fields [simp]:
  "eg_cnt (set_ksl_tl OPL slot v) = eg_cnt OPL"
  "eg_timer (set_ksl_tl OPL slot v) = eg_timer OPL"
  "eg_timer_add (set_ksl_tl OPL slot v) = eg_timer_add OPL"
  "eg_timer_overflow (set_ksl_tl OPL slot v) = eg_timer_overflow OPL"
  "rhythm (set_ksl_tl OPL slot v) = rhythm OPL"
  "fn_tab (set_ksl_tl OPL slot v) = fn_tab OPL"
  "lfo_am_depth (set_ksl_tl OPL slot v) = lfo_am_depth OPL"
  "lfo_pm_depth_range (set_ksl_tl OPL slot v) = lfo_pm_depth_range OPL"
  "lfo_am_cnt (set_ksl_tl OPL slot v) = lfo_am_cnt OPL"
  "lfo_am_inc (set_ksl_tl OPL slot v) = lfo_am_inc OPL"
  "lfo_pm_cnt (set_ksl_tl OPL slot v) = lfo_pm_cnt OPL"
  "lfo_pm_inc (set_ksl_tl OPL slot v) = lfo_pm_inc OPL"
  "noise_rng (set_ksl_tl OPL slot v) = noise_rng OPL"
  "noise_p (set_ksl_tl OPL slot v) = noise_p OPL"
  "noise_f (set_ksl_tl OPL slot v) = noise_f OPL"
  "wavesel (set_ksl_tl OPL slot v) = wavesel OPL"
  "chip_type (set_ksl_tl OPL slot v) = chip_type OPL"
  "address (set_ksl_tl OPL slot v) = address OPL"
  "status (set_ksl_tl OPL slot v) = status OPL"
  "statusmask (set_ksl_tl OPL slot v) = statusmask OPL"
  "mode (set_ksl_tl OPL slot v) = mode OPL"
  "phase_modulation (set_ksl_tl OPL slot v) = phase_modulation OPL"
  "output0 (set_ksl_tl OPL slot v) = output0 OPL"
  "lastChOutput (set_ksl_tl OPL slot v) = lastChOutput OPL"
  "outputCh (set_ksl_tl OPL slot v) = outputCh OPL"
  "LFO_AM (set_ksl_tl OPL slot v) = LFO_AM OPL"
  "LFO_PM (set_ksl_tl OPL slot v) = LFO_PM OPL"
  by (simp_all add: set_ksl_tl_def)

lemma set_ksl_tl_length [simp]: "length (P_CH (set_ksl_tl OPL slot v)) = length (P_CH OPL)"
  by (simp add: set_ksl_tl_def)

lemma set_ar_dr_fields [simp]:
  "eg_cnt (set_ar_dr OPL slot v) = eg_cnt OPL"
  "eg_timer (set_ar_dr OPL slot v) = eg_timer OPL"
  "eg_timer_add (set_ar_dr OPL slot v) = eg_timer_add OPL"
  "eg_timer_overflow (set_ar_dr OPL slot v) = eg_timer_overflow OPL"
  "rhythm (set_ar_dr OPL slot v) = rhythm OPL"
  "fn_tab (set_ar_dr OPL slot v) = fn_tab OPL"
  "lfo_am_depth (set_ar_dr OPL slot v) = lfo_am_depth OPL"
  "lfo_pm_depth_range (set_ar_dr OPL slot v) = lfo_pm_depth_range OPL"
  "lfo_am_cnt (set_ar_dr OPL slot v) = lfo_am_cnt OPL"
  "lfo_am_inc (set_ar_dr OPL slot v) = lfo_am_inc OPL"
  "lfo_pm_cnt (set_ar_dr OPL slot v) = lfo_pm_cnt OPL"
  "lfo_pm_inc (set_ar_dr OPL slot v) = lfo_pm_inc OPL"
  "noise_rng (set_ar_dr OPL slot v) = noise_rng OPL"
  "noise_p (set_ar_dr OPL slot v) = noise_p OPL"
  "noise_f (set_ar_dr OPL slot v) = noise_f OPL"
  "wavesel (set_ar_dr OPL slot v) = wavesel OPL"
  "chip_type (set_ar_dr OPL slot v) = chip_type OPL"
  "address (set_ar_dr OPL slot v) = address OPL"
  "status (set_ar_dr OPL slot v) = status OPL"
  "statusmask (set_ar_dr OPL slot v) = statusmask OPL"
  "mode (set_ar_dr OPL slot v) = mode OPL"
  "phase_modulation (set_ar_dr OPL slot v) = phase_modulation OPL"
  "output0 (set_ar_dr OPL slot v) = output0 OPL"
  "lastChOutput (set_ar_dr OPL slot v) = lastChOutput OPL"
  "outputCh (set_ar_dr OPL slot v) = outputCh OPL"
  "LFO_AM (set_ar_dr OPL slot v) = LFO_AM OPL"
  "LFO_PM (set_ar_dr OPL slot v) = LFO_PM OPL"
  by (simp_all add: set_ar_dr_def)

lemma set_ar_dr_length [simp]: "length (P_CH (set_ar_dr OPL slot v)) = length (P_CH OPL)"
  by (simp add: set_ar_dr_def)

lemma set_sl_rr_fields [simp]:
  "eg_cnt (set_sl_rr OPL slot v) = eg_cnt OPL"
  "eg_timer (set_sl_rr OPL slot v) = eg_timer OPL"
  "eg_timer_add (set_sl_rr OPL slot v) = eg_timer_add OPL"
  "eg_timer_overflow (set_sl_rr OPL slot v) = eg_timer_overflow OPL"
  "rhythm (set_sl_rr OPL slot v) = rhythm OPL"
  "fn_tab (set_sl_rr OPL slot v) = fn_tab OPL"
  "lfo_am_depth (set_sl_rr OPL slot v) = lfo_am_depth OPL"
  "lfo_pm_depth_range (set_sl_rr OPL slot v) = lfo_pm_depth_range OPL"
  "lfo_am_cnt (set_sl_rr OPL slot v) = lfo_am_cnt OPL"
  "lfo_am_inc (set_sl_rr OPL slot v) = lfo_am_inc OPL"
  "lfo_pm_cnt (set_sl_rr OPL slot v) = lfo_pm_cnt OPL"
  "lfo_pm_inc (set_sl_rr OPL slot v) = lfo_pm_inc OPL"
  "noise_rng (set_sl_rr OPL slot v) = noise_rng OPL"
  "noise_p (set_sl_rr OPL slot v) = noise_p OPL"
  "noise_f (set_sl_rr OPL slot v) = noise_f OPL"
  "wavesel (set_sl_rr OPL slot v) = wavesel OPL"
  "chip_type (set_sl_rr OPL slot v) = chip_type OPL"
  "address (set_sl_rr OPL slot v) = address OPL"
  "status (set_sl_rr OPL slot v) = status OPL"
  "statusmask (set_sl_rr OPL slot v) = statusmask OPL"
  "mode (set_sl_rr OPL slot v) = mode OPL"
  "phase_modulation (set_sl_rr OPL slot v) = phase_modulation OPL"
  "output0 (set_sl_rr OPL slot v) = output0 OPL"
  "lastChOutput (set_sl_rr OPL slot v) = lastChOutput OPL"
  "outputCh (set_sl_rr OPL slot v) = outputCh OPL"
  "LFO_AM (set_sl_rr OPL slot v) = LFO_AM OPL"
  "LFO_PM (set_sl_rr OPL slot v) = LFO_PM OPL"
  by (simp_all add: set_sl_rr_def)

lemma set_sl_rr_length [simp]: "length (P_CH (set_sl_rr OPL slot v)) = length (P_CH OPL)"
  by (simp add: set_sl_rr_def)

lemma write_fb_con_fields [simp]:
  "eg_cnt (write_fb_con OPL r v) = eg_cnt OPL"
  "eg_timer (write_fb_con OPL r v) = eg_timer OPL"
  "eg_timer_add (write_fb_con OPL r v) = eg_timer_add OPL"
  "eg_timer_overflow (write_fb_con OPL r v) = eg_timer_overflow OPL"
  "rhythm (write_fb_con OPL r v) = rhythm OPL"
  "fn_tab (write_fb_con OPL r v) = fn_tab OPL"
  "lfo_am_depth (write_fb_con OPL r v) = lfo_am_depth OPL"
  "lfo_pm_depth_range (write_fb_con OPL r v) = lfo_pm_depth_range OPL"
  "lfo_am_cnt (write_fb_con OPL r v) = lfo_am_cnt OPL"
  "lfo_am_inc (write_fb_con OPL r v) = lfo_am_inc OPL"
  "lfo_pm_cnt (write_fb_con OPL r v) = lfo_pm_cnt OPL"
  "lfo_pm_inc (write_fb_con OPL r v) = lfo_pm_inc OPL"
  "noise_rng (write_fb_con OPL r v) = noise_rng OPL"
  "noise_p (write_fb_con OPL r v) = noise_p OPL"
  "noise_f (write_fb_con OPL r v) = noise_f OPL"
  "wavesel (write_fb_con OPL r v) = wavesel OPL"
  "chip_type (write_fb_con OPL r v) = chip_type OPL"
  "address (write_fb_con OPL r v) = address OPL"
  "status (write_fb_con OPL r v) = status OPL"
  "statusmask (write_fb_con OPL r v) = statusmask OPL"
  "mode (write_fb_con OPL r v) = mode OPL"
  "phase_modulation (write_fb_con OPL r v) = phase_modulation OPL"
  "output0 (write_fb_con OPL r v) = output0 OPL"
  "lastChOutput (write_fb_con OPL r v) = lastChOutput OPL"
  "outputCh (write_fb_con OPL r v) = outputCh OPL"
  "LFO_AM (write_fb_con OPL r v) = LFO_AM OPL"
  "LFO_PM (write_fb_con OPL r v) = LFO_PM OPL"
  by (simp_all add: write_fb_con_def)

lemma write_fb_con_length [simp]: "length (P_CH (write_fb_con OPL r v)) = length (P_CH OPL)"
  by (simp add: write_fb_con_def)

lemma write_bd_fields [simp]:
  "eg_cnt (write_bd OPL v) = eg_cnt OPL"
  "eg_timer (write_bd OPL v) = eg_timer OPL"
  "eg_timer_add (write_bd OPL v) = eg_timer_add OPL"
  "eg_timer_overflow (write_bd OPL v) = eg_timer_overflow OPL"
  "fn_tab (write_bd OPL v) = fn_tab OPL"
  "lfo_am_cnt (write_bd OPL v) = lfo_am_cnt OPL"
  "lfo_am_inc (write_bd OPL v) = lfo_am_inc OPL"
  "lfo_pm_cnt (write_bd OPL v) = lfo_pm_cnt OPL"
  "lfo_pm_inc (write_bd OPL v) = lfo_pm_inc OPL"
  "noise_rng (write_bd OPL v) = noise_rng OPL"
  "noise_p (write_bd OPL v) = noise_p OPL"
  "noise_f (write_bd OPL v) = noise_f OPL"
  "wavesel (write_bd OPL v) = wavesel OPL"
  "chip_type (write_bd OPL v) = chip_type OPL"
  "address (write_bd OPL v) = address OPL"
  "status (write_bd OPL v) = status OPL"
  "statusmask (write_bd OPL v) = statusmask OPL"
  "mode (write_bd OPL v) = mode OPL"
  "phase_modulation (write_bd OPL v) = phase_modulation OPL"
  "output0 (write_bd OPL v) = output0 OPL"
  "lastChOutput (write_bd OPL v) = lastChOutput OPL"
  "outputCh (write_bd OPL v) = outputCh OPL"
  "LFO_AM (write_bd OPL v) = LFO_AM OPL"
  "LFO_PM (write_bd OPL v) = LFO_PM OPL"
  by (simp_all add: write_bd_def Let_def)

lemma write_bd_length [simp]: "length (P_CH (write_bd OPL v)) = length (P_CH OPL)"
  by (simp add: write_bd_def Let_def)

lemma write_fnum_fields [simp]:
  "eg_cnt (write_fnum OPL r v) = eg_cnt OPL"
  "eg_timer (write_fnum OPL r v) = eg_timer OPL"
  "eg_timer_add (write_fnum OPL r v) = eg_timer_add OPL"
  "eg_timer_overflow (write_fnum OPL r v) = eg_timer_overflow OPL"
  "rhythm (write_fnum OPL r v) = rhythm OPL"
  "fn_tab (write_fnum OPL r v) = fn_tab OPL"
  "lfo_am_depth (write_fnum OPL r v) = lfo_am_depth OPL"
  "lfo_pm_depth_range (write_fnum OPL r v) = lfo_pm_depth_range OPL"
  "lfo_am_cnt (write_fnum OPL r v) = lfo_am_cnt OPL"
  "lfo_am_inc (write_fnum OPL r v) = lfo_am_inc OPL"
  "lfo_pm_cnt (write_fnum OPL r v) = lfo_pm_cnt OPL"
  "lfo_pm_inc (write_fnum OPL r v) = lfo_pm_inc OPL"
  "noise_rng (write_fnum OPL r v) = noise_rng OPL"
  "noise_p (write_fnum OPL r v) = noise_p OPL"
  "noise_f (write_fnum OPL r v) = noise_f OPL"
  "wavesel (write_fnum OPL r v) = wavesel OPL"
  "chip_type (write_fnum OPL r v) = chip_type OPL"
  "address (write_fnum OPL r v) = address OPL"
  "status (write_fnum OPL r v) = status OPL"
  "statusmask (write_fnum OPL r v) = statusmask OPL"
  "mode (write_fnum OPL r v) = mode OPL"
  "phase_modulation (write_fnum OPL r v) = phase_modulation OPL"
  "output0 (write_fnum OPL r v) = output0 OPL"
  "lastChOutput (write_fnum OPL r v) = lastChOutput OPL"
  "outputCh (write_fnum OPL r v) = outputCh OPL"
  "LFO_AM (write_fnum OPL r v) = LFO_AM OPL"
  "LFO_PM (write_fnum OPL r v) = LFO_PM OPL"
  by (simp_all add: write_fnum_def Let_def)

lemma write_fnum_length [simp]: "length (P_CH (write_fnum OPL r v)) = length (P_CH OPL)"
  by (simp add: write_fnum_def Let_def)

lemma if_pred: "(c \<Longrightarrow> P x) \<Longrightarrow> (\<not> c \<Longrightarrow> P y) \<Longrightarrow> P (if c then x else y)"
  by simp

text \<open>Every register write is one of the arms of the switch, or nothing.\<close>

lemma byte_bound: "nat (v AND 0xff) < 256"
  using AND_upper2 [of 255 v] by (simp add: nat_less_iff)

lemma OPLWriteReg_arms:
  assumes "P OPL"
    and "\<And>v. P (OPL\<lparr>wavesel := v\<rparr>)"
    and "\<And>v. P (OPL\<lparr>mode := v\<rparr>)"
    and "\<And>s v. v < 256 \<Longrightarrow> P (set_mul OPL s v)"
    and "\<And>s v. v < 256 \<Longrightarrow> P (set_ksl_tl OPL s v)"
    and "\<And>s v. v < 256 \<Longrightarrow> P (set_ar_dr OPL s v)"
    and "\<And>s v. v < 256 \<Longrightarrow> P (set_sl_rr OPL s v)"
    and "\<And>v. v < 256 \<Longrightarrow> P (write_bd OPL v)"
    and "\<And>r v. v < 256 \<Longrightarrow> r AND 0x0f \<le> 8 \<Longrightarrow> P (write_fnum OPL r v)"
    and "\<And>r v. v < 256 \<Longrightarrow> r AND 0x0f \<le> 8 \<Longrightarrow> P (write_fb_con OPL r v)"
    and "\<And>c i v. P (with_slot c i (\<lambda>CH S. S\<lparr>wavetable := v\<rparr>) OPL)"
  shows "P (OPLWriteReg OPL r v)"
  unfolding OPLWriteReg_def Let_def
  by (intro if_pred [of _ P] assms byte_bound; simp)

lemma OPLWriteReg_fields [simp]:
  "eg_cnt (OPLWriteReg OPL r v) = eg_cnt OPL"
  "eg_timer (OPLWriteReg OPL r v) = eg_timer OPL"
  "eg_timer_add (OPLWriteReg OPL r v) = eg_timer_add OPL"
  "eg_timer_overflow (OPLWriteReg OPL r v) = eg_timer_overflow OPL"
  "fn_tab (OPLWriteReg OPL r v) = fn_tab OPL"
  "lfo_am_cnt (OPLWriteReg OPL r v) = lfo_am_cnt OPL"
  "lfo_am_inc (OPLWriteReg OPL r v) = lfo_am_inc OPL"
  "lfo_pm_cnt (OPLWriteReg OPL r v) = lfo_pm_cnt OPL"
  "lfo_pm_inc (OPLWriteReg OPL r v) = lfo_pm_inc OPL"
  "noise_rng (OPLWriteReg OPL r v) = noise_rng OPL"
  "noise_p (OPLWriteReg OPL r v) = noise_p OPL"
  "noise_f (OPLWriteReg OPL r v) = noise_f OPL"
  "chip_type (OPLWriteReg OPL r v) = chip_type OPL"
  "address (OPLWriteReg OPL r v) = address OPL"
  "status (OPLWriteReg OPL r v) = status OPL"
  "statusmask (OPLWriteReg OPL r v) = statusmask OPL"
  "phase_modulation (OPLWriteReg OPL r v) = phase_modulation OPL"
  "output0 (OPLWriteReg OPL r v) = output0 OPL"
  "lastChOutput (OPLWriteReg OPL r v) = lastChOutput OPL"
  "outputCh (OPLWriteReg OPL r v) = outputCh OPL"
  "LFO_AM (OPLWriteReg OPL r v) = LFO_AM OPL"
  "LFO_PM (OPLWriteReg OPL r v) = LFO_PM OPL"
  by (rule OPLWriteReg_arms; simp)+

lemma OPLWriteReg_length [simp]: "length (P_CH (OPLWriteReg OPL r v)) = length (P_CH OPL)"
  by (rule OPLWriteReg_arms; simp)

section \<open>Register decoder: the arms of the switch\<close>

lemma int_range_cases: "a \<le> r \<Longrightarrow> r \<le> b \<Longrightarrow> list_all P [a..b] \<Longrightarrow> P (r::int)"
  by (simp add: list_all_iff)

lemma reg_e0_range:
  assumes "0xe0 \<le> r" "r \<le> 0xff"
  shows "nat (r AND 0xff) AND 0xe0 = 0xe0 \<and> nat (r AND 0xff) AND 0x1f = nat (r AND 0x1f)"
  by (rule int_range_cases [OF assms]) (simp add: upto_rec_numeral)

lemma reg_op_range:
  assumes "0x20 \<le> r" "r \<le> 0x9f"
  shows "nat (r AND 0xff) AND 0xe0 \<in> {0x20, 0x40, 0x60, 0x80} \<and>
         nat (r AND 0xff) AND 0x1f = nat (r AND 0x1f)"
  by (rule int_range_cases [OF assms]) (simp add: upto_rec_numeral)

lemma no_slot_count: "length no_slot_offsets = 14"
  by (simp add: no_slot_offsets_def no_slot_def slot_array_def upt_rec)

text \<open>The arms of \<^verbatim>\<open>OPLWriteReg\<close>, selected by \<^verbatim>\<open>r & 0xe0\<close>.\<close>

lemma OPLWriteReg_00:
  "nat (r AND 0xff) AND 0xe0 = 0x00 \<Longrightarrow>
   OPLWriteReg OPL r v =
     (if nat (r AND 0xff) AND 0x1f = 0x01 then
        (if chip_type OPL AND OPL_TYPE_WAVESEL \<noteq> 0
         then OPL\<lparr>wavesel := nat (v AND 0xff) AND 0x20\<rparr> else OPL)
      else if nat (r AND 0xff) AND 0x1f = 0x08 then OPL\<lparr>mode := nat (v AND 0xff)\<rparr>
      else OPL)"
  by (simp add: OPLWriteReg_def Let_def)

lemma OPLWriteReg_20:
  "nat (r AND 0xff) AND 0xe0 = 0x20 \<Longrightarrow>
   OPLWriteReg OPL r v =
     (if slot_array ! (nat (r AND 0xff) AND 0x1f) < 0 then OPL
      else set_mul OPL (nat (slot_array ! (nat (r AND 0xff) AND 0x1f))) (nat (v AND 0xff)))"
  by (simp add: OPLWriteReg_def Let_def)

lemma OPLWriteReg_40:
  "nat (r AND 0xff) AND 0xe0 = 0x40 \<Longrightarrow>
   OPLWriteReg OPL r v =
     (if slot_array ! (nat (r AND 0xff) AND 0x1f) < 0 then OPL
      else set_ksl_tl OPL (nat (slot_array ! (nat (r AND 0xff) AND 0x1f))) (nat (v AND 0xff)))"
  by (simp add: OPLWriteReg_def Let_def)

lemma OPLWriteReg_60:
  "nat (r AND 0xff) AND 0xe0 = 0x60 \<Longrightarrow>
   OPLWriteReg OPL r v =
     (if slot_array ! (nat (r AND 0xff) AND 0x1f) < 0 then OPL
      else set_ar_dr OPL (nat (slot_array ! (nat (r AND 0xff) AND 0x1f))) (nat (v AND 0xff)))"
  by (simp add: OPLWriteReg_def Let_def)

lemma OPLWriteReg_80:
  "nat (r AND 0xff) AND 0xe0 = 0x80 \<Longrightarrow>
   OPLWriteReg OPL r v =
     (if slot_array ! (nat (r AND 0xff) AND 0x1f) < 0 then OPL
      else set_sl_rr OPL (nat (slot_array ! (nat (r AND 0xff) AND 0x1f))) (nat (v AND 0xff)))"
  by (simp add: OPLWriteReg_def Let_def)

lemma OPLWriteReg_a0:
  "nat (r AND 0xff) AND 0xe0 = 0xa0 \<Longrightarrow>
   OPLWriteReg OPL r v =
     (if nat (r AND 0xff) = 0xbd then write_bd OPL (nat (v AND 0xff))
      else if nat (r AND 0xff) AND 0x0f > 8 then OPL
      else write_fnum OPL (nat (r AND 0xff)) (nat (v AND 0xff)))"
  by (simp add: OPLWriteReg_def Let_def)

lemma OPLWriteReg_c0:
  "nat (r AND 0xff) AND 0xe0 = 0xc0 \<Longrightarrow>
   OPLWriteReg OPL r v =
     (if nat (r AND 0xff) AND 0x0f > 8 then OPL
      else write_fb_con OPL (nat (r AND 0xff)) (nat (v AND 0xff)))"
  by (simp add: OPLWriteReg_def Let_def)

lemma OPLWriteReg_e0:
  "nat (r AND 0xff) AND 0xe0 = 0xe0 \<Longrightarrow>
   OPLWriteReg OPL r v =
     (if wavesel OPL \<noteq> 0 then
        (if slot_array ! (nat (r AND 0xff) AND 0x1f) < 0 then OPL
         else with_slot (nat (slot_array ! (nat (r AND 0xff) AND 0x1f)) div 2)
                (nat (slot_array ! (nat (r AND 0xff) AND 0x1f)) AND 1)
                (\<lambda>CH S. S\<lparr>wavetable := nat (v AND 0xff) AND 0x03\<rparr>) OPL)
      else OPL)"
  by (simp add: OPLWriteReg_def Let_def)

lemma OPLWriteReg_no_slot:
  assumes "nat (r AND 0xff) AND 0xe0 \<in> {0x20, 0x40, 0x60, 0x80, 0xe0}"
    and "slot_array ! (nat (r AND 0xff) AND 0x1f) < 0"
  shows "OPLWriteReg OPL r v = OPL"
proof -
  from assms(1) consider
      "nat (r AND 0xff) AND 0xe0 = 0x20" | "nat (r AND 0xff) AND 0xe0 = 0x40"
    | "nat (r AND 0xff) AND 0xe0 = 0x60" | "nat (r AND 0xff) AND 0xe0 = 0x80"
    | "nat (r AND 0xff) AND 0xe0 = 0xe0"
    by auto
  then show ?thesis
  proof cases
    case 1 then show ?thesis using assms(2) by (simp add: OPLWriteReg_20)
  next
    case 2 then show ?thesis using assms(2) by (simp add: OPLWriteReg_40)
  next
    case 3 then show ?thesis using assms(2) by (simp add: OPLWriteReg_60)
  next
    case 4 then show ?thesis using assms(2) by (simp add: OPLWriteReg_80)
  next
    case 5 then show ?thesis using assms(2) by (simp add: OPLWriteReg_e0)
  qed
qed

lemma nat_and_nat: "0 \<le> x \<Longrightarrow> 0 \<le> y \<Longrightarrow> nat (x AND y) = nat x AND nat y"
  by (simp add: and_nat_def)

lemma low_bits_of_byte: "nat (v AND 0xff) AND 0x03 = nat (v AND 0x03)"
proof -
  have "nat (v AND 0xff) AND 0x03 = nat ((v AND 0xff) AND 0x03)"
    by (simp add: nat_and_nat)
  also have "(v AND 0xff) AND 0x03 = v AND (0xff AND 0x03)"
    by (simp only: and.assoc)
  finally show ?thesis by simp
qed

lemma bit5_of_byte: "e AND 0x20 \<noteq> 0 \<Longrightarrow> nat ((e::int) AND 0xff) AND 0x20 \<noteq> 0"
proof -
  assume h: "e AND 0x20 \<noteq> 0"
  have "nat (e AND 0xff) AND 0x20 = nat ((e AND 0xff) AND 0x20)"
    by (simp add: nat_and_nat)
  also have "(e AND 0xff) AND 0x20 = e AND (0xff AND 0x20)"
    by (simp only: and.assoc)
  finally have "nat (e AND 0xff) AND 0x20 = nat (e AND 0x20)" by simp
  moreover have "0 < e AND 0x20"
  proof -
    have "0 \<le> e AND 0x20" by simp
    with h show ?thesis by (simp only: order_less_le) simp
  qed
  ultimately show ?thesis by simp
qed

lemma the_slot_with_slot:
  "c < length (P_CH OPL) \<Longrightarrow>
   the_slot (with_slot c i f OPL) c i = f (P_CH OPL ! c) (the_slot OPL c i)"
  by (simp add: the_slot_def with_slot_P_CH)

section \<open>Reset and the clocks: what they leave alone\<close>

lemma OPL_STATUS_RESET_fields [simp]:
  "P_CH (OPL_STATUS_RESET OPL flag) = P_CH OPL"
  "eg_cnt (OPL_STATUS_RESET OPL flag) = eg_cnt OPL"
  "eg_timer (OPL_STATUS_RESET OPL flag) = eg_timer OPL"
  "eg_timer_add (OPL_STATUS_RESET OPL flag) = eg_timer_add OPL"
  "eg_timer_overflow (OPL_STATUS_RESET OPL flag) = eg_timer_overflow OPL"
  "rhythm (OPL_STATUS_RESET OPL flag) = rhythm OPL"
  "fn_tab (OPL_STATUS_RESET OPL flag) = fn_tab OPL"
  "lfo_am_depth (OPL_STATUS_RESET OPL flag) = lfo_am_depth OPL"
  "lfo_pm_depth_range (OPL_STATUS_RESET OPL flag) = lfo_pm_depth_range OPL"
  "lfo_am_cnt (OPL_STATUS_RESET OPL flag) = lfo_am_cnt OPL"
  "lfo_am_inc (OPL_STATUS_RESET OPL flag) = lfo_am_inc OPL"
  "lfo_pm_cnt (OPL_STATUS_RESET OPL flag) = lfo_pm_cnt OPL"
  "lfo_pm_inc (OPL_STATUS_RESET OPL flag) = lfo_pm_inc OPL"
  "noise_rng (OPL_STATUS_RESET OPL flag) = noise_rng OPL"
  "noise_p (OPL_STATUS_RESET OPL flag) = noise_p OPL"
  "noise_f (OPL_STATUS_RESET OPL flag) = noise_f OPL"
  "wavesel (OPL_STATUS_RESET OPL flag) = wavesel OPL"
  "chip_type (OPL_STATUS_RESET OPL flag) = chip_type OPL"
  "address (OPL_STATUS_RESET OPL flag) = address OPL"
  "statusmask (OPL_STATUS_RESET OPL flag) = statusmask OPL"
  "mode (OPL_STATUS_RESET OPL flag) = mode OPL"
  "phase_modulation (OPL_STATUS_RESET OPL flag) = phase_modulation OPL"
  "output0 (OPL_STATUS_RESET OPL flag) = output0 OPL"
  "lastChOutput (OPL_STATUS_RESET OPL flag) = lastChOutput OPL"
  "outputCh (OPL_STATUS_RESET OPL flag) = outputCh OPL"
  "LFO_AM (OPL_STATUS_RESET OPL flag) = LFO_AM OPL"
  "LFO_PM (OPL_STATUS_RESET OPL flag) = LFO_PM OPL"
  by (simp_all add: OPL_STATUS_RESET_def Let_def)

lemma write_zeros_rule:
  assumes "P OPL" and "\<And>X r. P X \<Longrightarrow> P (OPLWriteReg X r 0)"
  shows "P (write_zeros OPL rs)"
  using assms(1) by (induction rs arbitrary: OPL) (simp_all add: assms(2))

lemma write_zeros_fields [simp]:
  "eg_cnt (write_zeros OPL rs) = eg_cnt OPL"
  "eg_timer (write_zeros OPL rs) = eg_timer OPL"
  "eg_timer_add (write_zeros OPL rs) = eg_timer_add OPL"
  "eg_timer_overflow (write_zeros OPL rs) = eg_timer_overflow OPL"
  "fn_tab (write_zeros OPL rs) = fn_tab OPL"
  "lfo_am_cnt (write_zeros OPL rs) = lfo_am_cnt OPL"
  "lfo_am_inc (write_zeros OPL rs) = lfo_am_inc OPL"
  "lfo_pm_cnt (write_zeros OPL rs) = lfo_pm_cnt OPL"
  "lfo_pm_inc (write_zeros OPL rs) = lfo_pm_inc OPL"
  "noise_rng (write_zeros OPL rs) = noise_rng OPL"
  "noise_p (write_zeros OPL rs) = noise_p OPL"
  "noise_f (write_zeros OPL rs) = noise_f OPL"
  "chip_type (write_zeros OPL rs) = chip_type OPL"
  "address (write_zeros OPL rs) = address OPL"
  "status (write_zeros OPL rs) = status OPL"
  "statusmask (write_zeros OPL rs) = statusmask OPL"
  "phase_modulation (write_zeros OPL rs) = phase_modulation OPL"
  "output0 (write_zeros OPL rs) = output0 OPL"
  "lastChOutput (write_zeros OPL rs) = lastChOutput OPL"
  "outputCh (write_zeros OPL rs) = outputCh OPL"
  "LFO_AM (write_zeros OPL rs) = LFO_AM OPL"
  "LFO_PM (write_zeros OPL rs) = LFO_PM OPL"
  by (rule write_zeros_rule [where P = "\<lambda>X. _ X = _ OPL"]; simp)+

lemma write_zeros_length [simp]: "length (P_CH (write_zeros OPL rs)) = length (P_CH OPL)"
  by (rule write_zeros_rule; simp)

lemma OPLResetChip_fields [simp]:
  "eg_timer_add (OPLResetChip OPL) = eg_timer_add OPL"
  "eg_timer_overflow (OPLResetChip OPL) = eg_timer_overflow OPL"
  "fn_tab (OPLResetChip OPL) = fn_tab OPL"
  "lfo_am_cnt (OPLResetChip OPL) = lfo_am_cnt OPL"
  "lfo_am_inc (OPLResetChip OPL) = lfo_am_inc OPL"
  "lfo_pm_cnt (OPLResetChip OPL) = lfo_pm_cnt OPL"
  "lfo_pm_inc (OPLResetChip OPL) = lfo_pm_inc OPL"
  "noise_p (OPLResetChip OPL) = noise_p OPL"
  "noise_f (OPLResetChip OPL) = noise_f OPL"
  "chip_type (OPLResetChip OPL) = chip_type OPL"
  "address (OPLResetChip OPL) = address OPL"
  "statusmask (OPLResetChip OPL) = statusmask OPL"
  "phase_modulation (OPLResetChip OPL) = phase_modulation OPL"
  "output0 (OPLResetChip OPL) = output0 OPL"
  "lastChOutput (OPLResetChip OPL) = lastChOutput OPL"
  "outputCh (OPLResetChip OPL) = outputCh OPL"
  "LFO_AM (OPLResetChip OPL) = LFO_AM OPL"
  "LFO_PM (OPLResetChip OPL) = LFO_PM OPL"
  by (simp_all add: OPLResetChip_def Let_def)

lemma OPLResetChip_clocks [simp]:
  "noise_rng (OPLResetChip OPL) = 1"
  "eg_timer (OPLResetChip OPL) = 0"
  "eg_cnt (OPLResetChip OPL) = 0"
  "length (P_CH (OPLResetChip OPL)) = length (P_CH OPL)"
  by (simp_all add: OPLResetChip_def Let_def)

lemma eg_tick_fields [simp]:
  "eg_timer_add (eg_tick OPL) = eg_timer_add OPL"
  "eg_timer_overflow (eg_tick OPL) = eg_timer_overflow OPL"
  "rhythm (eg_tick OPL) = rhythm OPL"
  "fn_tab (eg_tick OPL) = fn_tab OPL"
  "lfo_am_depth (eg_tick OPL) = lfo_am_depth OPL"
  "lfo_pm_depth_range (eg_tick OPL) = lfo_pm_depth_range OPL"
  "lfo_am_cnt (eg_tick OPL) = lfo_am_cnt OPL"
  "lfo_am_inc (eg_tick OPL) = lfo_am_inc OPL"
  "lfo_pm_cnt (eg_tick OPL) = lfo_pm_cnt OPL"
  "lfo_pm_inc (eg_tick OPL) = lfo_pm_inc OPL"
  "noise_rng (eg_tick OPL) = noise_rng OPL"
  "noise_p (eg_tick OPL) = noise_p OPL"
  "noise_f (eg_tick OPL) = noise_f OPL"
  "wavesel (eg_tick OPL) = wavesel OPL"
  "chip_type (eg_tick OPL) = chip_type OPL"
  "address (eg_tick OPL) = address OPL"
  "status (eg_tick OPL) = status OPL"
  "statusmask (eg_tick OPL) = statusmask OPL"
  "mode (eg_tick OPL) = mode OPL"
  "phase_modulation (eg_tick OPL) = phase_modulation OPL"
  "output0 (eg_tick OPL) = output0 OPL"
  "lastChOutput (eg_tick OPL) = lastChOutput OPL"
  "outputCh (eg_tick OPL) = outputCh OPL"
  "LFO_AM (eg_tick OPL) = LFO_AM OPL"
  "LFO_PM (eg_tick OPL) = LFO_PM OPL"
  by (simp_all add: eg_tick_def Let_def)

lemma eg_tick_length [simp]: "length (P_CH (eg_tick OPL)) = length (P_CH OPL)"
  by (simp add: eg_tick_def Let_def)

declare eg_loop.simps [simp del]

lemma eg_loop_rule:
  assumes "eg_loop OPL = Some O'" and "P OPL" and "\<And>X. P X \<Longrightarrow> P (eg_tick X)"
  shows "P O'"
  using assms(1,2)
proof (induction OPL rule: eg_loop.induct)
  case (1 OPL)
  show ?case
  proof (cases "eg_timer_overflow OPL \<le> eg_timer OPL")
    case True
    with "1.prems"(1) have nz: "eg_timer_overflow OPL \<noteq> 0" and
      step: "eg_loop (eg_tick OPL) = Some O'"
      by (simp_all add: eg_loop.simps [of OPL] split: if_splits)
    from "1.IH" [OF nz True step] assms(3) [OF "1.prems"(2)] show ?thesis .
  next
    case False
    with "1.prems"(1) have "O' = OPL"
      by (simp add: eg_loop.simps [of OPL] split: if_splits)
    with "1.prems"(2) show ?thesis by simp
  qed
qed

lemma eg_loop_total:
  "eg_timer_overflow OPL \<noteq> 0 \<Longrightarrow> \<exists>O'. eg_loop OPL = Some O'"
proof (induction OPL rule: eg_loop.induct)
  case (1 OPL)
  show ?case
  proof (cases "eg_timer_overflow OPL \<le> eg_timer OPL")
    case True
    from "1.IH" [OF "1.prems" True] "1.prems" obtain O' where "eg_loop (eg_tick OPL) = Some O'"
      by auto
    with True "1.prems" show ?thesis by (simp add: eg_loop.simps [of OPL])
  next
    case False
    with "1.prems" show ?thesis by (simp add: eg_loop.simps [of OPL])
  qed
qed

lemma advance_phase_fields [simp]:
  "eg_cnt (advance_phase OPL) = eg_cnt OPL"
  "eg_timer (advance_phase OPL) = eg_timer OPL"
  "eg_timer_add (advance_phase OPL) = eg_timer_add OPL"
  "eg_timer_overflow (advance_phase OPL) = eg_timer_overflow OPL"
  "rhythm (advance_phase OPL) = rhythm OPL"
  "fn_tab (advance_phase OPL) = fn_tab OPL"
  "lfo_am_depth (advance_phase OPL) = lfo_am_depth OPL"
  "lfo_pm_depth_range (advance_phase OPL) = lfo_pm_depth_range OPL"
  "lfo_am_cnt (advance_phase OPL) = lfo_am_cnt OPL"
  "lfo_am_inc (advance_phase OPL) = lfo_am_inc OPL"
  "lfo_pm_cnt (advance_phase OPL) = lfo_pm_cnt OPL"
  "lfo_pm_inc (advance_phase OPL) = lfo_pm_inc OPL"
  "noise_rng (advance_phase OPL) = noise_rng OPL"
  "noise_p (advance_phase OPL) = noise_p OPL"
  "noise_f (advance_phase OPL) = noise_f OPL"
  "wavesel (advance_phase OPL) = wavesel OPL"
  "chip_type (advance_phase OPL) = chip_type OPL"
  "address (advance_phase OPL) = address OPL"
  "status (advance_phase OPL) = status OPL"
  "statusmask (advance_phase OPL) = statusmask OPL"
  "mode (advance_phase OPL) = mode OPL"
  "phase_modulation (advance_phase OPL) = phase_modulation OPL"
  "output0 (advance_phase OPL) = output0 OPL"
  "lastChOutput (advance_phase OPL) = lastChOutput OPL"
  "outputCh (advance_phase OPL) = outputCh OPL"
  "LFO_AM (advance_phase OPL) = LFO_AM OPL"
  "LFO_PM (advance_phase OPL) = LFO_PM OPL"
  by (simp_all add: advance_phase_def)

lemma advance_phase_length [simp]: "length (P_CH (advance_phase OPL)) = length (P_CH OPL)"
  by (simp add: advance_phase_def)

lemma advance_noise_fields [simp]:
  "P_CH (advance_noise OPL) = P_CH OPL"
  "eg_cnt (advance_noise OPL) = eg_cnt OPL"
  "eg_timer (advance_noise OPL) = eg_timer OPL"
  "eg_timer_add (advance_noise OPL) = eg_timer_add OPL"
  "eg_timer_overflow (advance_noise OPL) = eg_timer_overflow OPL"
  "rhythm (advance_noise OPL) = rhythm OPL"
  "fn_tab (advance_noise OPL) = fn_tab OPL"
  "lfo_am_depth (advance_noise OPL) = lfo_am_depth OPL"
  "lfo_pm_depth_range (advance_noise OPL) = lfo_pm_depth_range OPL"
  "lfo_am_cnt (advance_noise OPL) = lfo_am_cnt OPL"
  "lfo_am_inc (advance_noise OPL) = lfo_am_inc OPL"
  "lfo_pm_cnt (advance_noise OPL) = lfo_pm_cnt OPL"
  "lfo_pm_inc (advance_noise OPL) = lfo_pm_inc OPL"
  "noise_f (advance_noise OPL) = noise_f OPL"
  "wavesel (advance_noise OPL) = wavesel OPL"
  "chip_type (advance_noise OPL) = chip_type OPL"
  "address (advance_noise OPL) = address OPL"
  "status (advance_noise OPL) = status OPL"
  "statusmask (advance_noise OPL) = statusmask OPL"
  "mode (advance_noise OPL) = mode OPL"
  "phase_modulation (advance_noise OPL) = phase_modulation OPL"
  "output0 (advance_noise OPL) = output0 OPL"
  "lastChOutput (advance_noise OPL) = lastChOutput OPL"
  "outputCh (advance_noise OPL) = outputCh OPL"
  "LFO_AM (advance_noise OPL) = LFO_AM OPL"
  "LFO_PM (advance_noise OPL) = LFO_PM OPL"
  by (simp_all add: advance_noise_def Let_def)

lemma advance_lfo_fields [simp]:
  "P_CH (advance_lfo OPL) = P_CH OPL"
  "eg_cnt (advance_lfo OPL) = eg_cnt OPL"
  "eg_timer (advance_lfo OPL) = eg_timer OPL"
  "eg_timer_add (advance_lfo OPL) = eg_timer_add OPL"
  "eg_timer_overflow (advance_lfo OPL) = eg_timer_overflow OPL"
  "rhythm (advance_lfo OPL) = rhythm OPL"
  "fn_tab (advance_lfo OPL) = fn_tab OPL"
  "lfo_am_depth (advance_lfo OPL) = lfo_am_depth OPL"
  "lfo_pm_depth_range (advance_lfo OPL) = lfo_pm_depth_range OPL"
  "lfo_am_inc (advance_lfo OPL) = lfo_am_inc OPL"
  "lfo_pm_inc (advance_lfo OPL) = lfo_pm_inc OPL"
  "noise_rng (advance_lfo OPL) = noise_rng OPL"
  "noise_p (advance_lfo OPL) = noise_p OPL"
  "noise_f (advance_lfo OPL) = noise_f OPL"
  "wavesel (advance_lfo OPL) = wavesel OPL"
  "chip_type (advance_lfo OPL) = chip_type OPL"
  "address (advance_lfo OPL) = address OPL"
  "status (advance_lfo OPL) = status OPL"
  "statusmask (advance_lfo OPL) = statusmask OPL"
  "mode (advance_lfo OPL) = mode OPL"
  "phase_modulation (advance_lfo OPL) = phase_modulation OPL"
  "output0 (advance_lfo OPL) = output0 OPL"
  "lastChOutput (advance_lfo OPL) = lastChOutput OPL"
  "outputCh (advance_lfo OPL) = outputCh OPL"
  by (simp_all add: advance_lfo_def Let_def)

text \<open>A property of the chip after \<^verbatim>\<open>advance\<close>, from its three stages.\<close>

lemma advance_rule:
  assumes "advance OPL = Some O'"
    and "P (OPL\<lparr>eg_timer := eg_timer OPL + eg_timer_add OPL\<rparr>)"
    and "\<And>X. P X \<Longrightarrow> P (eg_tick X)"
    and "\<And>X. P X \<Longrightarrow> Q (advance_noise (advance_phase X))"
  shows "Q O'"
proof -
  from assms(1) obtain O1 where
    l: "eg_loop (OPL\<lparr>eg_timer := eg_timer OPL + eg_timer_add OPL\<rparr>) = Some O1" and
    o: "O' = advance_noise (advance_phase O1)"
    by (auto simp add: advance_def split: option.splits)
  have "P O1" by (rule eg_loop_rule [where P = P, OF l assms(2)]) (rule assms(3))
  with o show ?thesis by (simp add: assms(4))
qed

lemma advance_total:
  "eg_timer_overflow OPL \<noteq> 0 \<Longrightarrow> \<exists>O'. advance OPL = Some O'"
  using eg_loop_total [of "OPL\<lparr>eg_timer := eg_timer OPL + eg_timer_add OPL\<rparr>"]
  by (auto simp add: advance_def)

lemma advances_rule:
  assumes "advances n OPL = Some O'" and "P OPL"
    and "\<And>X O1. P X \<Longrightarrow> advance X = Some O1 \<Longrightarrow> P O1"
  shows "P O'"
  using assms(1,2)
proof (induction n arbitrary: OPL)
  case 0
  then show ?case by simp
next
  case (Suc n)
  from Suc.prems(1) obtain O1 where a: "advance OPL = Some O1" and r: "advances n O1 = Some O'"
    by (auto split: option.splits)
  from Suc.IH [OF r assms(3) [OF Suc.prems(2) a]] show ?case .
qed

lemma advance_overflow:
  "advance OPL = Some O' \<Longrightarrow> eg_timer_overflow O' = eg_timer_overflow OPL"
  by (erule advance_rule [where P = "\<lambda>X. eg_timer_overflow X = eg_timer_overflow OPL"]) simp_all

lemma advances_total:
  "eg_timer_overflow OPL \<noteq> 0 \<Longrightarrow> \<exists>O'. advances n OPL = Some O'"
proof (induction n arbitrary: OPL)
  case 0
  then show ?case by simp
next
  case (Suc n)
  from advance_total [OF Suc.prems] obtain O1 where a: "advance OPL = Some O1" by auto
  with Suc.prems have "eg_timer_overflow O1 \<noteq> 0" by (simp add: advance_overflow)
  from Suc.IH [OF this] a show ?case by simp
qed

section \<open>Noise register\<close>

lemma noise_shift_inv:
  assumes "rng \<noteq> 0" and "drop_bit 23 rng = 0"
  shows "noise_shift rng \<noteq> 0 \<and> drop_bit 23 (noise_shift rng) = 0"
proof (cases "rng AND 1 = 0")
  case True
  have "drop_bit 23 (drop_bit 1 rng) = drop_bit 1 (drop_bit 23 rng)"
    by (simp only: drop_bit_drop_bit add.commute)
  then have hi: "drop_bit 23 (drop_bit 1 rng) = 0"
    using assms(2) by simp
  have "drop_bit 1 rng \<noteq> 0"
  proof
    assume z: "drop_bit 1 rng = 0"
    from assms(1) obtain n where n: "bit rng n"
      by (auto simp add: bit_eq_iff)
    have "\<not> bit rng 0"
      using True by (simp add: bit_0 and_one_eq mod_2_eq_odd)
    with n obtain k where "n = Suc k" by (cases n) auto
    with n have "bit (drop_bit 1 rng) k" by (simp add: bit_drop_bit_eq)
    with z show False by simp
  qed
  with hi True show ?thesis by (simp add: noise_shift_def)
next
  case False
  have nb: "\<not> bit rng 23"
  proof
    assume "bit rng 23"
    then have "bit (drop_bit 23 rng) 0" by (simp add: bit_drop_bit_eq)
    with assms(2) show False by simp
  qed
  have "bit (drop_bit 1 (rng XOR 0x800302)) 22"
    using nb by (simp add: bit_drop_bit_eq bit_xor_iff)
  then have nz: "drop_bit 1 (rng XOR 0x800302) \<noteq> 0" by auto
  have "drop_bit 23 (drop_bit 1 (rng XOR 0x800302))
          = drop_bit 1 (drop_bit 23 rng XOR drop_bit 23 0x800302)"
    by (simp only: drop_bit_drop_bit add.commute flip: drop_bit_xor)
  then have "drop_bit 23 (drop_bit 1 (rng XOR 0x800302)) = 0"
    using assms(2) by simp
  with nz False show ?thesis by (simp add: noise_shift_def)
qed

lemma noise_shifts_inv:
  "rng \<noteq> 0 \<Longrightarrow> drop_bit 23 rng = 0 \<Longrightarrow>
     noise_shifts i rng \<noteq> 0 \<and> drop_bit 23 (noise_shifts i rng) = 0"
  by (induction i arbitrary: rng) (simp_all add: noise_shift_inv)



lemma advance_noise_ok:
  assumes "advance OPL = Some O'" and "noise_ok OPL"
  shows "noise_ok O'"
  by (rule advance_rule [OF assms(1), where P = noise_ok])
     (use assms(2) in \<open>simp_all add: noise_ok_def advance_noise_def Let_def noise_shifts_inv\<close>)

section \<open>Operator network: what each step leaves alone\<close>

lemma add_connect1_fields [simp]:
  "P_CH (add_connect1 t x OPL) = P_CH OPL"
  "eg_cnt (add_connect1 t x OPL) = eg_cnt OPL"
  "eg_timer (add_connect1 t x OPL) = eg_timer OPL"
  "eg_timer_add (add_connect1 t x OPL) = eg_timer_add OPL"
  "eg_timer_overflow (add_connect1 t x OPL) = eg_timer_overflow OPL"
  "rhythm (add_connect1 t x OPL) = rhythm OPL"
  "fn_tab (add_connect1 t x OPL) = fn_tab OPL"
  "lfo_am_depth (add_connect1 t x OPL) = lfo_am_depth OPL"
  "lfo_pm_depth_range (add_connect1 t x OPL) = lfo_pm_depth_range OPL"
  "lfo_am_cnt (add_connect1 t x OPL) = lfo_am_cnt OPL"
  "lfo_am_inc (add_connect1 t x OPL) = lfo_am_inc OPL"
  "lfo_pm_cnt (add_connect1 t x OPL) = lfo_pm_cnt OPL"
  "lfo_pm_inc (add_connect1 t x OPL) = lfo_pm_inc OPL"
  "noise_rng (add_connect1 t x OPL) = noise_rng OPL"
  "noise_p (add_connect1 t x OPL) = noise_p OPL"
  "noise_f (add_connect1 t x OPL) = noise_f OPL"
  "wavesel (add_connect1 t x OPL) = wavesel OPL"
  "chip_type (add_connect1 t x OPL) = chip_type OPL"
  "address (add_connect1 t x OPL) = address OPL"
  "status (add_connect1 t x OPL) = status OPL"
  "statusmask (add_connect1 t x OPL) = statusmask OPL"
  "mode (add_connect1 t x OPL) = mode OPL"
  "lastChOutput (add_connect1 t x OPL) = lastChOutput OPL"
  "outputCh (add_connect1 t x OPL) = outputCh OPL"
  "LFO_AM (add_connect1 t x OPL) = LFO_AM OPL"
  "LFO_PM (add_connect1 t x OPL) = LFO_PM OPL"
  by (simp_all add: add_connect1_def split: connect_target.splits)

lemma ch_op1_fields [simp]:
  "eg_cnt (ch_op1 T c OPL) = eg_cnt OPL"
  "eg_timer (ch_op1 T c OPL) = eg_timer OPL"
  "eg_timer_add (ch_op1 T c OPL) = eg_timer_add OPL"
  "eg_timer_overflow (ch_op1 T c OPL) = eg_timer_overflow OPL"
  "rhythm (ch_op1 T c OPL) = rhythm OPL"
  "fn_tab (ch_op1 T c OPL) = fn_tab OPL"
  "lfo_am_depth (ch_op1 T c OPL) = lfo_am_depth OPL"
  "lfo_pm_depth_range (ch_op1 T c OPL) = lfo_pm_depth_range OPL"
  "lfo_am_cnt (ch_op1 T c OPL) = lfo_am_cnt OPL"
  "lfo_am_inc (ch_op1 T c OPL) = lfo_am_inc OPL"
  "lfo_pm_cnt (ch_op1 T c OPL) = lfo_pm_cnt OPL"
  "lfo_pm_inc (ch_op1 T c OPL) = lfo_pm_inc OPL"
  "noise_rng (ch_op1 T c OPL) = noise_rng OPL"
  "noise_p (ch_op1 T c OPL) = noise_p OPL"
  "noise_f (ch_op1 T c OPL) = noise_f OPL"
  "wavesel (ch_op1 T c OPL) = wavesel OPL"
  "chip_type (ch_op1 T c OPL) = chip_type OPL"
  "address (ch_op1 T c OPL) = address OPL"
  "status (ch_op1 T c OPL) = status OPL"
  "statusmask (ch_op1 T c OPL) = statusmask OPL"
  "mode (ch_op1 T c OPL) = mode OPL"
  "lastChOutput (ch_op1 T c OPL) = lastChOutput OPL"
  "outputCh (ch_op1 T c OPL) = outputCh OPL"
  "LFO_AM (ch_op1 T c OPL) = LFO_AM OPL"
  "LFO_PM (ch_op1 T c OPL) = LFO_PM OPL"
  by (simp_all add: ch_op1_def Let_def)

lemma ch_op1_length [simp]: "length (P_CH (ch_op1 T c OPL)) = length (P_CH OPL)"
  by (simp add: ch_op1_def Let_def)

lemma ch_op2_fields [simp]:
  "P_CH (ch_op2 T c OPL) = P_CH OPL"
  "eg_cnt (ch_op2 T c OPL) = eg_cnt OPL"
  "eg_timer (ch_op2 T c OPL) = eg_timer OPL"
  "eg_timer_add (ch_op2 T c OPL) = eg_timer_add OPL"
  "eg_timer_overflow (ch_op2 T c OPL) = eg_timer_overflow OPL"
  "rhythm (ch_op2 T c OPL) = rhythm OPL"
  "fn_tab (ch_op2 T c OPL) = fn_tab OPL"
  "lfo_am_depth (ch_op2 T c OPL) = lfo_am_depth OPL"
  "lfo_pm_depth_range (ch_op2 T c OPL) = lfo_pm_depth_range OPL"
  "lfo_am_cnt (ch_op2 T c OPL) = lfo_am_cnt OPL"
  "lfo_am_inc (ch_op2 T c OPL) = lfo_am_inc OPL"
  "lfo_pm_cnt (ch_op2 T c OPL) = lfo_pm_cnt OPL"
  "lfo_pm_inc (ch_op2 T c OPL) = lfo_pm_inc OPL"
  "noise_rng (ch_op2 T c OPL) = noise_rng OPL"
  "noise_p (ch_op2 T c OPL) = noise_p OPL"
  "noise_f (ch_op2 T c OPL) = noise_f OPL"
  "wavesel (ch_op2 T c OPL) = wavesel OPL"
  "chip_type (ch_op2 T c OPL) = chip_type OPL"
  "address (ch_op2 T c OPL) = address OPL"
  "status (ch_op2 T c OPL) = status OPL"
  "statusmask (ch_op2 T c OPL) = statusmask OPL"
  "mode (ch_op2 T c OPL) = mode OPL"
  "phase_modulation (ch_op2 T c OPL) = phase_modulation OPL"
  "outputCh (ch_op2 T c OPL) = outputCh OPL"
  "LFO_AM (ch_op2 T c OPL) = LFO_AM OPL"
  "LFO_PM (ch_op2 T c OPL) = LFO_PM OPL"
  by (simp_all add: ch_op2_def Let_def)

lemma OPL_CALC_CH_fields [simp]:
  "eg_cnt (OPL_CALC_CH T c OPL) = eg_cnt OPL"
  "eg_timer (OPL_CALC_CH T c OPL) = eg_timer OPL"
  "eg_timer_add (OPL_CALC_CH T c OPL) = eg_timer_add OPL"
  "eg_timer_overflow (OPL_CALC_CH T c OPL) = eg_timer_overflow OPL"
  "rhythm (OPL_CALC_CH T c OPL) = rhythm OPL"
  "fn_tab (OPL_CALC_CH T c OPL) = fn_tab OPL"
  "lfo_am_depth (OPL_CALC_CH T c OPL) = lfo_am_depth OPL"
  "lfo_pm_depth_range (OPL_CALC_CH T c OPL) = lfo_pm_depth_range OPL"
  "lfo_am_cnt (OPL_CALC_CH T c OPL) = lfo_am_cnt OPL"
  "lfo_am_inc (OPL_CALC_CH T c OPL) = lfo_am_inc OPL"
  "lfo_pm_cnt (OPL_CALC_CH T c OPL) = lfo_pm_cnt OPL"
  "lfo_pm_inc (OPL_CALC_CH T c OPL) = lfo_pm_inc OPL"
  "noise_rng (OPL_CALC_CH T c OPL) = noise_rng OPL"
  "noise_p (OPL_CALC_CH T c OPL) = noise_p OPL"
  "noise_f (OPL_CALC_CH T c OPL) = noise_f OPL"
  "wavesel (OPL_CALC_CH T c OPL) = wavesel OPL"
  "chip_type (OPL_CALC_CH T c OPL) = chip_type OPL"
  "address (OPL_CALC_CH T c OPL) = address OPL"
  "status (OPL_CALC_CH T c OPL) = status OPL"
  "statusmask (OPL_CALC_CH T c OPL) = statusmask OPL"
  "mode (OPL_CALC_CH T c OPL) = mode OPL"
  "outputCh (OPL_CALC_CH T c OPL) = outputCh OPL"
  "LFO_AM (OPL_CALC_CH T c OPL) = LFO_AM OPL"
  "LFO_PM (OPL_CALC_CH T c OPL) = LFO_PM OPL"
  by (simp_all add: OPL_CALC_CH_def)

lemma OPL_CALC_CH_length [simp]: "length (P_CH (OPL_CALC_CH T c OPL)) = length (P_CH OPL)"
  by (simp add: OPL_CALC_CH_def)

lemma calc_ch_fields [simp]:
  "eg_cnt (calc_ch T c OPL) = eg_cnt OPL"
  "eg_timer (calc_ch T c OPL) = eg_timer OPL"
  "eg_timer_add (calc_ch T c OPL) = eg_timer_add OPL"
  "eg_timer_overflow (calc_ch T c OPL) = eg_timer_overflow OPL"
  "rhythm (calc_ch T c OPL) = rhythm OPL"
  "fn_tab (calc_ch T c OPL) = fn_tab OPL"
  "lfo_am_depth (calc_ch T c OPL) = lfo_am_depth OPL"
  "lfo_pm_depth_range (calc_ch T c OPL) = lfo_pm_depth_range OPL"
  "lfo_am_cnt (calc_ch T c OPL) = lfo_am_cnt OPL"
  "lfo_am_inc (calc_ch T c OPL) = lfo_am_inc OPL"
  "lfo_pm_cnt (calc_ch T c OPL) = lfo_pm_cnt OPL"
  "lfo_pm_inc (calc_ch T c OPL) = lfo_pm_inc OPL"
  "noise_rng (calc_ch T c OPL) = noise_rng OPL"
  "noise_p (calc_ch T c OPL) = noise_p OPL"
  "noise_f (calc_ch T c OPL) = noise_f OPL"
  "wavesel (calc_ch T c OPL) = wavesel OPL"
  "chip_type (calc_ch T c OPL) = chip_type OPL"
  "address (calc_ch T c OPL) = address OPL"
  "status (calc_ch T c OPL) = status OPL"
  "statusmask (calc_ch T c OPL) = statusmask OPL"
  "mode (calc_ch T c OPL) = mode OPL"
  "LFO_AM (calc_ch T c OPL) = LFO_AM OPL"
  "LFO_PM (calc_ch T c OPL) = LFO_PM OPL"
  by (simp_all add: calc_ch_def Let_def)

lemma calc_ch_length [simp]: "length (P_CH (calc_ch T c OPL)) = length (P_CH OPL)"
  by (simp add: calc_ch_def Let_def)

lemma rh_bd1_fields [simp]:
  "eg_cnt (rh_bd1 T OPL) = eg_cnt OPL"
  "eg_timer (rh_bd1 T OPL) = eg_timer OPL"
  "eg_timer_add (rh_bd1 T OPL) = eg_timer_add OPL"
  "eg_timer_overflow (rh_bd1 T OPL) = eg_timer_overflow OPL"
  "rhythm (rh_bd1 T OPL) = rhythm OPL"
  "fn_tab (rh_bd1 T OPL) = fn_tab OPL"
  "lfo_am_depth (rh_bd1 T OPL) = lfo_am_depth OPL"
  "lfo_pm_depth_range (rh_bd1 T OPL) = lfo_pm_depth_range OPL"
  "lfo_am_cnt (rh_bd1 T OPL) = lfo_am_cnt OPL"
  "lfo_am_inc (rh_bd1 T OPL) = lfo_am_inc OPL"
  "lfo_pm_cnt (rh_bd1 T OPL) = lfo_pm_cnt OPL"
  "lfo_pm_inc (rh_bd1 T OPL) = lfo_pm_inc OPL"
  "noise_rng (rh_bd1 T OPL) = noise_rng OPL"
  "noise_p (rh_bd1 T OPL) = noise_p OPL"
  "noise_f (rh_bd1 T OPL) = noise_f OPL"
  "wavesel (rh_bd1 T OPL) = wavesel OPL"
  "chip_type (rh_bd1 T OPL) = chip_type OPL"
  "address (rh_bd1 T OPL) = address OPL"
  "status (rh_bd1 T OPL) = status OPL"
  "statusmask (rh_bd1 T OPL) = statusmask OPL"
  "mode (rh_bd1 T OPL) = mode OPL"
  "output0 (rh_bd1 T OPL) = output0 OPL"
  "lastChOutput (rh_bd1 T OPL) = lastChOutput OPL"
  "outputCh (rh_bd1 T OPL) = outputCh OPL"
  "LFO_AM (rh_bd1 T OPL) = LFO_AM OPL"
  "LFO_PM (rh_bd1 T OPL) = LFO_PM OPL"
  by (simp_all add: rh_bd1_def Let_def)

lemma rh_bd1_length [simp]: "length (P_CH (rh_bd1 T OPL)) = length (P_CH OPL)"
  by (simp add: rh_bd1_def Let_def)

lemma rh_bd2_fields [simp]:
  "P_CH (rh_bd2 T OPL) = P_CH OPL"
  "eg_cnt (rh_bd2 T OPL) = eg_cnt OPL"
  "eg_timer (rh_bd2 T OPL) = eg_timer OPL"
  "eg_timer_add (rh_bd2 T OPL) = eg_timer_add OPL"
  "eg_timer_overflow (rh_bd2 T OPL) = eg_timer_overflow OPL"
  "rhythm (rh_bd2 T OPL) = rhythm OPL"
  "fn_tab (rh_bd2 T OPL) = fn_tab OPL"
  "lfo_am_depth (rh_bd2 T OPL) = lfo_am_depth OPL"
  "lfo_pm_depth_range (rh_bd2 T OPL) = lfo_pm_depth_range OPL"
  "lfo_am_cnt (rh_bd2 T OPL) = lfo_am_cnt OPL"
  "lfo_am_inc (rh_bd2 T OPL) = lfo_am_inc OPL"
  "lfo_pm_cnt (rh_bd2 T OPL) = lfo_pm_cnt OPL"
  "lfo_pm_inc (rh_bd2 T OPL) = lfo_pm_inc OPL"
  "noise_rng (rh_bd2 T OPL) = noise_rng OPL"
  "noise_p (rh_bd2 T OPL) = noise_p OPL"
  "noise_f (rh_bd2 T OPL) = noise_f OPL"
  "wavesel (rh_bd2 T OPL) = wavesel OPL"
  "chip_type (rh_bd2 T OPL) = chip_type OPL"
  "address (rh_bd2 T OPL) = address OPL"
  "status (rh_bd2 T OPL) = status OPL"
  "statusmask (rh_bd2 T OPL) = statusmask OPL"
  "mode (rh_bd2 T OPL) = mode OPL"
  "phase_modulation (rh_bd2 T OPL) = phase_modulation OPL"
  "outputCh (rh_bd2 T OPL) = outputCh OPL"
  "LFO_AM (rh_bd2 T OPL) = LFO_AM OPL"
  "LFO_PM (rh_bd2 T OPL) = LFO_PM OPL"
  by (simp_all add: rh_bd2_def Let_def)

lemma rh_hh_fields [simp]:
  "P_CH (rh_hh T b OPL) = P_CH OPL"
  "eg_cnt (rh_hh T b OPL) = eg_cnt OPL"
  "eg_timer (rh_hh T b OPL) = eg_timer OPL"
  "eg_timer_add (rh_hh T b OPL) = eg_timer_add OPL"
  "eg_timer_overflow (rh_hh T b OPL) = eg_timer_overflow OPL"
  "rhythm (rh_hh T b OPL) = rhythm OPL"
  "fn_tab (rh_hh T b OPL) = fn_tab OPL"
  "lfo_am_depth (rh_hh T b OPL) = lfo_am_depth OPL"
  "lfo_pm_depth_range (rh_hh T b OPL) = lfo_pm_depth_range OPL"
  "lfo_am_cnt (rh_hh T b OPL) = lfo_am_cnt OPL"
  "lfo_am_inc (rh_hh T b OPL) = lfo_am_inc OPL"
  "lfo_pm_cnt (rh_hh T b OPL) = lfo_pm_cnt OPL"
  "lfo_pm_inc (rh_hh T b OPL) = lfo_pm_inc OPL"
  "noise_rng (rh_hh T b OPL) = noise_rng OPL"
  "noise_p (rh_hh T b OPL) = noise_p OPL"
  "noise_f (rh_hh T b OPL) = noise_f OPL"
  "wavesel (rh_hh T b OPL) = wavesel OPL"
  "chip_type (rh_hh T b OPL) = chip_type OPL"
  "address (rh_hh T b OPL) = address OPL"
  "status (rh_hh T b OPL) = status OPL"
  "statusmask (rh_hh T b OPL) = statusmask OPL"
  "mode (rh_hh T b OPL) = mode OPL"
  "phase_modulation (rh_hh T b OPL) = phase_modulation OPL"
  "lastChOutput (rh_hh T b OPL) = lastChOutput OPL"
  "outputCh (rh_hh T b OPL) = outputCh OPL"
  "LFO_AM (rh_hh T b OPL) = LFO_AM OPL"
  "LFO_PM (rh_hh T b OPL) = LFO_PM OPL"
  by (simp_all add: rh_hh_def Let_def)

lemma rh_sd_fields [simp]:
  "P_CH (rh_sd T b OPL) = P_CH OPL"
  "eg_cnt (rh_sd T b OPL) = eg_cnt OPL"
  "eg_timer (rh_sd T b OPL) = eg_timer OPL"
  "eg_timer_add (rh_sd T b OPL) = eg_timer_add OPL"
  "eg_timer_overflow (rh_sd T b OPL) = eg_timer_overflow OPL"
  "rhythm (rh_sd T b OPL) = rhythm OPL"
  "fn_tab (rh_sd T b OPL) = fn_tab OPL"
  "lfo_am_depth (rh_sd T b OPL) = lfo_am_depth OPL"
  "lfo_pm_depth_range (rh_sd T b OPL) = lfo_pm_depth_range OPL"
  "lfo_am_cnt (rh_sd T b OPL) = lfo_am_cnt OPL"
  "lfo_am_inc (rh_sd T b OPL) = lfo_am_inc OPL"
  "lfo_pm_cnt (rh_sd T b OPL) = lfo_pm_cnt OPL"
  "lfo_pm_inc (rh_sd T b OPL) = lfo_pm_inc OPL"
  "noise_rng (rh_sd T b OPL) = noise_rng OPL"
  "noise_p (rh_sd T b OPL) = noise_p OPL"
  "noise_f (rh_sd T b OPL) = noise_f OPL"
  "wavesel (rh_sd T b OPL) = wavesel OPL"
  "chip_type (rh_sd T b OPL) = chip_type OPL"
  "address (rh_sd T b OPL) = address OPL"
  "status (rh_sd T b OPL) = status OPL"
  "statusmask (rh_sd T b OPL) = statusmask OPL"
  "mode (rh_sd T b OPL) = mode OPL"
  "phase_modulation (rh_sd T b OPL) = phase_modulation OPL"
  "lastChOutput (rh_sd T b OPL) = lastChOutput OPL"
  "outputCh (rh_sd T b OPL) = outputCh OPL"
  "LFO_AM (rh_sd T b OPL) = LFO_AM OPL"
  "LFO_PM (rh_sd T b OPL) = LFO_PM OPL"
  by (simp_all add: rh_sd_def Let_def)

lemma rh_tom_fields [simp]:
  "P_CH (rh_tom T OPL) = P_CH OPL"
  "eg_cnt (rh_tom T OPL) = eg_cnt OPL"
  "eg_timer (rh_tom T OPL) = eg_timer OPL"
  "eg_timer_add (rh_tom T OPL) = eg_timer_add OPL"
  "eg_timer_overflow (rh_tom T OPL) = eg_timer_overflow OPL"
  "rhythm (rh_tom T OPL) = rhythm OPL"
  "fn_tab (rh_tom T OPL) = fn_tab OPL"
  "lfo_am_depth (rh_tom T OPL) = lfo_am_depth OPL"
  "lfo_pm_depth_range (rh_tom T OPL) = lfo_pm_depth_range OPL"
  "lfo_am_cnt (rh_tom T OPL) = lfo_am_cnt OPL"
  "lfo_am_inc (rh_tom T OPL) = lfo_am_inc OPL"
  "lfo_pm_cnt (rh_tom T OPL) = lfo_pm_cnt OPL"
  "lfo_pm_inc (rh_tom T OPL) = lfo_pm_inc OPL"
  "noise_rng (rh_tom T OPL) = noise_rng OPL"
  "noise_p (rh_tom T OPL) = noise_p OPL"
  "noise_f (rh_tom T OPL) = noise_f OPL"
  "wavesel (rh_tom T OPL) = wavesel OPL"
  "chip_type (rh_tom T OPL) = chip_type OPL"
  "address (rh_tom T OPL) = address OPL"
  "status (rh_tom T OPL) = status OPL"
  "statusmask (rh_tom T OPL) = statusmask OPL"
  "mode (rh_tom T OPL) = mode OPL"
  "phase_modulation (rh_tom T OPL) = phase_modulation OPL"
  "lastChOutput (rh_tom T OPL) = lastChOutput OPL"
  "outputCh (rh_tom T OPL) = outputCh OPL"
  "LFO_AM (rh_tom T OPL) = LFO_AM OPL"
  "LFO_PM (rh_tom T OPL) = LFO_PM OPL"
  by (simp_all add: rh_tom_def Let_def)

lemma rh_top_fields [simp]:
  "P_CH (rh_top T OPL) = P_CH OPL"
  "eg_cnt (rh_top T OPL) = eg_cnt OPL"
  "eg_timer (rh_top T OPL) = eg_timer OPL"
  "eg_timer_add (rh_top T OPL) = eg_timer_add OPL"
  "eg_timer_overflow (rh_top T OPL) = eg_timer_overflow OPL"
  "rhythm (rh_top T OPL) = rhythm OPL"
  "fn_tab (rh_top T OPL) = fn_tab OPL"
  "lfo_am_depth (rh_top T OPL) = lfo_am_depth OPL"
  "lfo_pm_depth_range (rh_top T OPL) = lfo_pm_depth_range OPL"
  "lfo_am_cnt (rh_top T OPL) = lfo_am_cnt OPL"
  "lfo_am_inc (rh_top T OPL) = lfo_am_inc OPL"
  "lfo_pm_cnt (rh_top T OPL) = lfo_pm_cnt OPL"
  "lfo_pm_inc (rh_top T OPL) = lfo_pm_inc OPL"
  "noise_rng (rh_top T OPL) = noise_rng OPL"
  "noise_p (rh_top T OPL) = noise_p OPL"
  "noise_f (rh_top T OPL) = noise_f OPL"
  "wavesel (rh_top T OPL) = wavesel OPL"
  "chip_type (rh_top T OPL) = chip_type OPL"
  "address (rh_top T OPL) = address OPL"
  "status (rh_top T OPL) = status OPL"
  "statusmask (rh_top T OPL) = statusmask OPL"
  "mode (rh_top T OPL) = mode OPL"
  "phase_modulation (rh_top T OPL) = phase_modulation OPL"
  "lastChOutput (rh_top T OPL) = lastChOutput OPL"
  "outputCh (rh_top T OPL) = outputCh OPL"
  "LFO_AM (rh_top T OPL) = LFO_AM OPL"
  "LFO_PM (rh_top T OPL) = LFO_PM OPL"
  by (simp_all add: rh_top_def Let_def)

lemma OPL_CALC_RH_fields [simp]:
  "eg_cnt (OPL_CALC_RH T b OPL) = eg_cnt OPL"
  "eg_timer (OPL_CALC_RH T b OPL) = eg_timer OPL"
  "eg_timer_add (OPL_CALC_RH T b OPL) = eg_timer_add OPL"
  "eg_timer_overflow (OPL_CALC_RH T b OPL) = eg_timer_overflow OPL"
  "rhythm (OPL_CALC_RH T b OPL) = rhythm OPL"
  "fn_tab (OPL_CALC_RH T b OPL) = fn_tab OPL"
  "lfo_am_depth (OPL_CALC_RH T b OPL) = lfo_am_depth OPL"
  "lfo_pm_depth_range (OPL_CALC_RH T b OPL) = lfo_pm_depth_range OPL"
  "lfo_am_cnt (OPL_CALC_RH T b OPL) = lfo_am_cnt OPL"
  "lfo_am_inc (OPL_CALC_RH T b OPL) = lfo_am_inc OPL"
  "lfo_pm_cnt (OPL_CALC_RH T b OPL) = lfo_pm_cnt OPL"
  "lfo_pm_inc (OPL_CALC_RH T b OPL) = lfo_pm_inc OPL"
  "noise_rng (OPL_CALC_RH T b OPL) = noise_rng OPL"
  "noise_p (OPL_CALC_RH T b OPL) = noise_p OPL"
  "noise_f (OPL_CALC_RH T b OPL) = noise_f OPL"
  "wavesel (OPL_CALC_RH T b OPL) = wavesel OPL"
  "chip_type (OPL_CALC_RH T b OPL) = chip_type OPL"
  "address (OPL_CALC_RH T b OPL) = address OPL"
  "status (OPL_CALC_RH T b OPL) = status OPL"
  "statusmask (OPL_CALC_RH T b OPL) = statusmask OPL"
  "mode (OPL_CALC_RH T b OPL) = mode OPL"
  "outputCh (OPL_CALC_RH T b OPL) = outputCh OPL"
  "LFO_AM (OPL_CALC_RH T b OPL) = LFO_AM OPL"
  "LFO_PM (OPL_CALC_RH T b OPL) = LFO_PM OPL"
  by (simp_all add: OPL_CALC_RH_def)

lemma OPL_CALC_RH_length [simp]: "length (P_CH (OPL_CALC_RH T b OPL)) = length (P_CH OPL)"
  by (simp add: OPL_CALC_RH_def)

lemma calc_channels_fields [simp]:
  "eg_cnt (calc_channels T rh OPL) = eg_cnt OPL"
  "eg_timer (calc_channels T rh OPL) = eg_timer OPL"
  "eg_timer_add (calc_channels T rh OPL) = eg_timer_add OPL"
  "eg_timer_overflow (calc_channels T rh OPL) = eg_timer_overflow OPL"
  "rhythm (calc_channels T rh OPL) = rhythm OPL"
  "fn_tab (calc_channels T rh OPL) = fn_tab OPL"
  "lfo_am_depth (calc_channels T rh OPL) = lfo_am_depth OPL"
  "lfo_pm_depth_range (calc_channels T rh OPL) = lfo_pm_depth_range OPL"
  "lfo_am_inc (calc_channels T rh OPL) = lfo_am_inc OPL"
  "lfo_pm_inc (calc_channels T rh OPL) = lfo_pm_inc OPL"
  "noise_rng (calc_channels T rh OPL) = noise_rng OPL"
  "noise_p (calc_channels T rh OPL) = noise_p OPL"
  "noise_f (calc_channels T rh OPL) = noise_f OPL"
  "wavesel (calc_channels T rh OPL) = wavesel OPL"
  "chip_type (calc_channels T rh OPL) = chip_type OPL"
  "address (calc_channels T rh OPL) = address OPL"
  "status (calc_channels T rh OPL) = status OPL"
  "statusmask (calc_channels T rh OPL) = statusmask OPL"
  "mode (calc_channels T rh OPL) = mode OPL"
  by (simp_all add: calc_channels_def Let_def)

lemma calc_channels_length [simp]:
  "length (P_CH (calc_channels T rh OPL)) = length (P_CH OPL)"
  by (simp add: calc_channels_def Let_def)

lemma advance_rhythm: "advance OPL = Some O' \<Longrightarrow> rhythm O' = rhythm OPL"
  by (erule advance_rule [where P = "\<lambda>X. rhythm X = rhythm OPL"]) simp_all

lemma one_sample_rhythm:
  "one_sample T rh OPL = Some (x, O') \<Longrightarrow> rhythm O' = rhythm OPL"
  by (auto simp add: one_sample_def Let_def advance_rhythm split: option.splits)

lemma sample_loop_live:
  "rh = rhythm OPL AND 0x20 \<Longrightarrow> sample_loop T rh n OPL = update_live T n OPL"
proof (induction n arbitrary: OPL)
  case 0
  then show ?case by simp
next
  case (Suc n)
  show ?case
  proof (cases "one_sample T rh OPL")
    case None
    with Suc.prems show ?thesis by simp
  next
    case (Some p)
    obtain x O1 where p: "p = (x, O1)" by (cases p)
    with Some have "rhythm O1 = rhythm OPL" by (simp add: one_sample_rhythm)
    with Suc.prems have "sample_loop T rh n O1 = update_live T n O1"
      by (intro Suc.IH) simp
    with Some p Suc.prems show ?thesis by simp
  qed
qed

lemma bd_rhythm_bit: "(nat (v AND 0xff) AND 0x3f) AND 0x20 = nat (v AND 0x20)"
proof -
  have "(nat (v AND 0xff) AND 0x3f) AND 0x20 = nat (((v AND 0xff) AND 0x3f) AND 0x20)"
    by (simp add: nat_and_nat)
  also have "((v AND 0xff) AND 0x3f) AND 0x20 = v AND (0xff AND (0x3f AND 0x20))"
    by (simp only: and.assoc)
  finally show ?thesis by simp
qed

lemma write_bd_rhythm: "rhythm (write_bd OPL v) = v AND 0x3f"
  by (simp add: write_bd_def Let_def)

section \<open>Operators at or above the quiet threshold\<close>

lemma ch_op2_quiet:
  "ENV_QUIET \<le> volume_calc OPL (SLOT2 (P_CH OPL ! c)) \<Longrightarrow> ch_op2 T c OPL = OPL"
  by (simp add: ch_op2_def Let_def)

lemma rh_bd2_quiet:
  "ENV_QUIET \<le> volume_calc OPL (SLOT2 (P_CH OPL ! 6)) \<Longrightarrow> rh_bd2 T OPL = OPL"
  by (simp add: rh_bd2_def Let_def)

lemma rh_hh_quiet:
  "ENV_QUIET \<le> volume_calc OPL (SLOT7_1 OPL) \<Longrightarrow> rh_hh T noise OPL = OPL"
  by (simp add: rh_hh_def Let_def)

lemma rh_sd_quiet:
  "ENV_QUIET \<le> volume_calc OPL (SLOT7_2 OPL) \<Longrightarrow> rh_sd T noise OPL = OPL"
  by (simp add: rh_sd_def Let_def)

lemma rh_tom_quiet:
  "ENV_QUIET \<le> volume_calc OPL (SLOT8_1 OPL) \<Longrightarrow> rh_tom T OPL = OPL"
  by (simp add: rh_tom_def Let_def)

lemma rh_top_quiet:
  "ENV_QUIET \<le> volume_calc OPL (SLOT8_2 OPL) \<Longrightarrow> rh_top T OPL = OPL"
  by (simp add: rh_top_def Let_def)

text \<open>The first operator, when quiet: its history moves on, its old output is added.\<close>

lemma ch_op1_quiet:
  assumes "ENV_QUIET \<le> volume_calc OPL (SLOT1 (P_CH OPL ! c))"
  shows "ch_op1 T c OPL =
           (add_connect1 (connect1 (SLOT1 (P_CH OPL ! c))) (op1_out1 (SLOT1 (P_CH OPL ! c))) OPL)
             \<lparr>P_CH := (P_CH OPL)[c := (P_CH OPL ! c)
                 \<lparr>SLOT1 := (SLOT1 (P_CH OPL ! c))
                     \<lparr>op1_out0 := op1_out1 (SLOT1 (P_CH OPL ! c)), op1_out1 := 0\<rparr>\<rparr>]\<rparr>"
  using assms by (simp add: ch_op1_def Let_def)

lemma rh_bd1_quiet:
  assumes "ENV_QUIET \<le> volume_calc OPL (SLOT1 (P_CH OPL ! 6))"
  shows "rh_bd1 T OPL =
           (if CON (SLOT1 (P_CH OPL ! 6)) = 0
            then OPL\<lparr>phase_modulation := op1_out1 (SLOT1 (P_CH OPL ! 6))\<rparr> else OPL)
             \<lparr>P_CH := (P_CH OPL)[6 := (P_CH OPL ! 6)
                 \<lparr>SLOT1 := (SLOT1 (P_CH OPL ! 6))
                     \<lparr>op1_out0 := op1_out1 (SLOT1 (P_CH OPL ! 6)), op1_out1 := 0\<rparr>\<rparr>]\<rparr>"
  using assms by (simp add: rh_bd1_def Let_def)

lemma add_connect1_output0:
  "output0 (add_connect1 t x OPL) = output0 OPL + (if t = To_output then x else 0)"
  by (simp add: add_connect1_def split: connect_target.splits)

lemma ch_op1_quiet_contribution:
  assumes "ENV_QUIET \<le> volume_calc OPL (SLOT1 (P_CH OPL ! c))"
  shows "contribution (ch_op1 T c) OPL =
           (if connect1 (SLOT1 (P_CH OPL ! c)) = To_output then op1_out1 (SLOT1 (P_CH OPL ! c)) else 0)"
  by (simp add: contribution_def ch_op1_quiet [OF assms] add_connect1_output0)

lemma ch_op1_quiet_history:
  assumes "ENV_QUIET \<le> volume_calc OPL (SLOT1 (P_CH OPL ! c))" and "c < length (P_CH OPL)"
  shows "op1_out1 (SLOT1 (P_CH (ch_op1 T c OPL) ! c)) = 0"
    and "op1_out0 (SLOT1 (P_CH (ch_op1 T c OPL) ! c)) = op1_out1 (SLOT1 (P_CH OPL ! c))"
  using assms(2) by (simp_all add: ch_op1_quiet [OF assms(1)])

lemma rh_bd1_quiet_history:
  assumes "ENV_QUIET \<le> volume_calc OPL (SLOT1 (P_CH OPL ! 6))" and "6 < length (P_CH OPL)"
  shows "op1_out1 (SLOT1 (P_CH (rh_bd1 T OPL) ! 6)) = 0"
  using assms(2) by (simp add: rh_bd1_quiet [OF assms(1)])

lemma rh_bd1_contribution: "contribution (rh_bd1 T) OPL = 0"
  by (simp add: contribution_def)

lemma fading_chip_ch0:
  "P_CH fading_chip ! 0 =
     rest_ch\<lparr>SLOT1 := rest_slot\<lparr>op1_out1 := 100, volume := 192, state := EG_REL\<rparr>\<rparr>"
  by (simp add: fading_chip_def rest_chip_def)

lemma fading_chip_env1:
  "volume_calc fading_chip (SLOT1 (P_CH fading_chip ! 0)) = 192"
  by (simp add: fading_chip_ch0 volume_calc_def rest_slot_def zero_slot_def)

lemma fading_chip_env2:
  "volume_calc fading_chip (SLOT2 (P_CH fading_chip ! 0)) = 511"
  by (simp add: fading_chip_ch0 volume_calc_def rest_ch_def rest_slot_def zero_slot_def
        MAX_ATT_INDEX_def ENV_BITS_def)

lemma ENV_QUIET_192: "ENV_QUIET = 192"
  by (simp add: ENV_QUIET_def TL_TAB_LEN_def TL_RES_LEN_def)

section \<open>The invariant of the register decoder and of the clocks\<close>

subsection \<open>Bounds of the constant tables\<close>

lemma list_all_nth: "list_all P xs \<Longrightarrow> i < length xs \<Longrightarrow> P (xs ! i)"
  by (simp add: list_all_length)

lemma eg_inc_le: "i < 120 \<Longrightarrow> eg_inc ! i \<le> 8"
proof -
  have "list_all (\<lambda>x. x \<le> 8) eg_inc" by (simp add: eg_inc_def)
  moreover have "length eg_inc = 120" by (simp add: eg_inc_def)
  ultimately show "i < 120 \<Longrightarrow> eg_inc ! i \<le> 8" using list_all_nth by fastforce
qed

lemma eg_rate_select_le: "i < 96 \<Longrightarrow> eg_rate_select ! i \<le> 112"
proof -
  have "list_all (\<lambda>x. x \<le> 112) eg_rate_select" by (simp add: eg_rate_select_def)
  moreover have "length eg_rate_select = 96" by (simp add: eg_rate_select_def)
  ultimately show "i < 96 \<Longrightarrow> eg_rate_select ! i \<le> 112" using list_all_nth by fastforce
qed

lemma sl_tab_le: "i < 16 \<Longrightarrow> sl_tab ! i \<le> 248"
proof -
  have "list_all (\<lambda>x. x \<le> 248) sl_tab" by (simp add: sl_tab_def)
  moreover have "length sl_tab = 16" by (simp add: sl_tab_def)
  ultimately show "i < 16 \<Longrightarrow> sl_tab ! i \<le> 248" using list_all_nth by fastforce
qed

lemma ksl_tab_le: "i < 128 \<Longrightarrow> ksl_tab ! i \<le> 255"
proof -
  have "list_all (\<lambda>x. x \<le> 255) ksl_tab" by (simp add: ksl_tab_def)
  moreover have "length ksl_tab = 128" by (simp add: ksl_tab_def)
  ultimately show "i < 128 \<Longrightarrow> ksl_tab ! i \<le> 255" using list_all_nth by fastforce
qed

lemma lfo_am_table_le: "i < 210 \<Longrightarrow> lfo_am_table ! i \<le> 26"
proof -
  have "list_all (\<lambda>x. x \<le> 26) lfo_am_table" by (simp add: lfo_am_table_def)
  moreover have "length lfo_am_table = 210" by (simp add: lfo_am_table_def)
  ultimately show "i < 210 \<Longrightarrow> lfo_am_table ! i \<le> 26" using list_all_nth by fastforce
qed

subsection \<open>Shifts and masks of a register value\<close>

lemma drop_bit_nat_le: "drop_bit n (x::nat) \<le> x"
  by (simp add: drop_bit_nat_def)

lemma high_nibble: "v < 256 \<Longrightarrow> drop_bit 4 (v::nat) < 16"
  by (simp add: drop_bit_nat_def less_mult_imp_div_less)

lemma low_nibble_le: "(v::nat) AND 0x0f \<le> 15"
  by (rule nat_and_le2)

lemma rate_of_nibble: "x \<le> 15 \<Longrightarrow> (if x \<noteq> 0 then 16 + push_bit 2 x else 0) \<le> (76::nat)"
  by (simp add: push_bit_eq_mult)


subsection \<open>Operators\<close>

lemma slot_inv_other_fields [simp]:
  "slot_inv (S\<lparr>op1_out0 := a\<rparr>) = slot_inv S"
  "slot_inv (S\<lparr>op1_out1 := b\<rparr>) = slot_inv S"
  "slot_inv (S\<lparr>Cnt := p\<rparr>) = slot_inv S"
  "slot_inv (S\<lparr>Incr := q\<rparr>) = slot_inv S"
  "slot_inv (S\<lparr>key := k\<rparr>) = slot_inv S"
  "slot_inv (S\<lparr>mul := m\<rparr>) = slot_inv S"
  "slot_inv (S\<lparr>KSR := n\<rparr>) = slot_inv S"
  "slot_inv (S\<lparr>ksl := l\<rparr>) = slot_inv S"
  "slot_inv (S\<lparr>eg_type := e\<rparr>) = slot_inv S"
  "slot_inv (S\<lparr>vib := w\<rparr>) = slot_inv S"
  "slot_inv (S\<lparr>AMmask := am\<rparr>) = slot_inv S"
  "slot_inv (S\<lparr>FB := fb\<rparr>) = slot_inv S"
  "slot_inv (S\<lparr>CON := cn\<rparr>) = slot_inv S"
  "slot_inv (S\<lparr>connect1 := t\<rparr>) = slot_inv S"
  "slot_inv (S\<lparr>wavetable := wt\<rparr>) = slot_inv S"
  "slot_inv (S\<lparr>eg_sh_ar := s1\<rparr>) = slot_inv S"
  "slot_inv (S\<lparr>eg_sh_dr := s2\<rparr>) = slot_inv S"
  "slot_inv (S\<lparr>eg_sh_rr := s3\<rparr>) = slot_inv S"
  by (simp_all add: slot_inv_def)

lemma slot_inv_KEYON: "slot_inv S \<Longrightarrow> slot_inv (FM_KEYON S k)"
  by (simp add: FM_KEYON_def Let_def) (simp add: slot_inv_def)

lemma slot_inv_KEYOFF: "slot_inv S \<Longrightarrow> slot_inv (FM_KEYOFF S k)"
  by (simp add: FM_KEYOFF_def Let_def) (simp add: slot_inv_def)

lemma slot_inv_set_eg_ar: "slot_inv S \<Longrightarrow> slot_inv (set_eg_ar S)"
  by (simp add: set_eg_ar_def) (simp add: slot_inv_def RATE_STEPS_def eg_rate_select_le)

lemma slot_inv_set_eg_dr: "slot_inv S \<Longrightarrow> slot_inv (set_eg_dr S)"
  by (simp add: set_eg_dr_def) (simp add: slot_inv_def eg_rate_select_le)

lemma slot_inv_set_eg_rr: "slot_inv S \<Longrightarrow> slot_inv (set_eg_rr S)"
  by (simp add: set_eg_rr_def) (simp add: slot_inv_def eg_rate_select_le)

lemma slot_inv_ksr: "slot_inv S \<Longrightarrow> k \<le> 15 \<Longrightarrow> slot_inv (S\<lparr>ksr := k\<rparr>)"
  by (simp add: slot_inv_def)

lemma slot_inv_CALC_FCSLOT:
  assumes "slot_inv S" and "kcode CH \<le> 15"
  shows "slot_inv (CALC_FCSLOT CH S)"
proof -
  have "drop_bit (KSR S) (kcode CH) \<le> 15"
    using drop_bit_nat_le [of "KSR S" "kcode CH"] assms(2) by simp
  with assms(1) show ?thesis
    by (simp add: CALC_FCSLOT_def Let_def slot_inv_set_eg_ar slot_inv_set_eg_dr
          slot_inv_set_eg_rr slot_inv_ksr)
qed

lemma slot_inv_ar: "slot_inv S \<Longrightarrow> x \<le> 76 \<Longrightarrow> slot_inv (S\<lparr>ar := x\<rparr>)"
  by (simp add: slot_inv_def)

lemma slot_inv_dr: "slot_inv S \<Longrightarrow> x \<le> 76 \<Longrightarrow> slot_inv (S\<lparr>dr := x\<rparr>)"
  by (simp add: slot_inv_def)

lemma slot_inv_sl_rr:
  "slot_inv S \<Longrightarrow> x \<le> 496 \<Longrightarrow> y \<le> 76 \<Longrightarrow> slot_inv (S\<lparr>sl := x, rr := y\<rparr>)"
  by (simp add: slot_inv_def)

lemma slot_inv_TL:
  "slot_inv S \<Longrightarrow> x \<le> 252 \<Longrightarrow> y \<le> 255 \<Longrightarrow> slot_inv (S\<lparr>TL := x, TLL := x + y\<rparr>)"
  by (simp add: slot_inv_def)

lemma slot_inv_TLL:
  "slot_inv S \<Longrightarrow> y \<le> 255 \<Longrightarrow> slot_inv (S\<lparr>TLL := TL S + y\<rparr>)"
  by (simp add: slot_inv_def)

lemma slot_inv_reset_slot: "slot_inv S \<Longrightarrow> slot_inv (reset_slot S)"
  by (simp add: reset_slot_def) (simp add: slot_inv_def MAX_ATT_INDEX_def ENV_BITS_def)

subsection \<open>Channels and the chip\<close>

lemma ch_inv_SLOT: "ch_inv CH \<Longrightarrow> slot_inv (SLOT CH i)"
  by (simp add: ch_inv_def SLOT_def)

lemma ch_inv_SLOT_set: "ch_inv CH \<Longrightarrow> slot_inv S \<Longrightarrow> ch_inv (SLOT_set i S CH)"
  by (simp add: ch_inv_def SLOT_set_def)

lemma list_all_update: "list_all P xs \<Longrightarrow> (c < length xs \<Longrightarrow> P x) \<Longrightarrow> list_all P (xs[c := x])"
proof (cases "c < length xs")
  case True
  assume "list_all P xs" and "c < length xs \<Longrightarrow> P x"
  with True show ?thesis
    using set_update_subset_insert [of xs c x] by (auto simp add: list_all_iff)
next
  case False
  assume "list_all P xs"
  with False show ?thesis by (simp add: list_update_beyond not_less)
qed

lemma chip_inv_P_CH:
  assumes "chip_inv OPL" and "c < length (P_CH OPL) \<Longrightarrow> ch_inv (P_CH OPL ! c) \<Longrightarrow> ch_inv X"
  shows "chip_inv (OPL\<lparr>P_CH := (P_CH OPL)[c := X]\<rparr>)"
proof -
  have "c < length (P_CH OPL) \<Longrightarrow> ch_inv (P_CH OPL ! c)"
    using assms(1) by (simp add: chip_inv_def list_all_length)
  with assms show ?thesis
    by (simp add: chip_inv_def list_all_update)
qed

lemma chip_inv_with_slot:
  assumes "chip_inv OPL" and "\<And>CH S. ch_inv CH \<Longrightarrow> slot_inv S \<Longrightarrow> slot_inv (f CH S)"
  shows "chip_inv (with_slot c i f OPL)"
  unfolding with_slot_def Let_def
  by (rule chip_inv_P_CH [OF assms(1)]) (simp add: ch_inv_SLOT_set assms(2) ch_inv_SLOT)

lemma chip_inv_key_slot: "chip_inv OPL \<Longrightarrow> chip_inv (key_slot b k c i OPL)"
  unfolding key_slot_def
  by (erule chip_inv_with_slot) (simp add: slot_inv_KEYON slot_inv_KEYOFF)

lemma chip_inv_set_mul: "chip_inv OPL \<Longrightarrow> chip_inv (set_mul OPL s v)"
  unfolding set_mul_def
  by (erule chip_inv_with_slot) (simp add: slot_inv_CALC_FCSLOT ch_inv_def)

lemma chip_inv_set_ksl_tl:
  assumes "chip_inv OPL" and "v < 256"
  shows "chip_inv (set_ksl_tl OPL s v)"
  unfolding set_ksl_tl_def
proof (rule chip_inv_with_slot [OF assms(1)])
  fix CH S
  assume c: "ch_inv CH" and s: "slot_inv S"
  have t: "push_bit (ENV_BITS - 1 - 7) (v AND 0x3f) \<le> 252"
    using nat_and_le2 [of v 63] by (simp add: ENV_BITS_def push_bit_eq_mult)
  have k: "drop_bit n (ksl_base CH) \<le> 255" for n
    using drop_bit_nat_le [of n "ksl_base CH"] c by (simp add: ch_inv_def)
  show "slot_inv (let k = drop_bit 6 v;
                      S1 = S\<lparr>ksl := if k \<noteq> 0 then 3 - k else 31,
                              TL := push_bit (ENV_BITS - 1 - 7) (v AND 0x3f)\<rparr>
                  in S1\<lparr>TLL := TL S1 + drop_bit (ksl S1) (ksl_base CH)\<rparr>)"
    using s t k [of 31] k [of "3 - drop_bit 6 v"] by (simp add: Let_def slot_inv_def)
qed

lemma chip_inv_set_ar_dr:
  assumes "chip_inv OPL" and "v < 256"
  shows "chip_inv (set_ar_dr OPL s v)"
  unfolding set_ar_dr_def
proof (rule chip_inv_with_slot [OF assms(1)])
  fix CH S
  assume s: "slot_inv S"
  have a: "(if drop_bit 4 v \<noteq> 0 then 16 + push_bit 2 (drop_bit 4 v) else 0) \<le> 76"
    using high_nibble [OF assms(2)] by (intro rate_of_nibble) simp
  have d: "(if v AND 0x0f \<noteq> 0 then 16 + push_bit 2 (v AND 0x0f) else 0) \<le> 76"
    by (intro rate_of_nibble low_nibble_le)
  show "slot_inv (let S1 = set_eg_ar
                (S\<lparr>ar := (if drop_bit 4 v \<noteq> 0 then 16 + push_bit 2 (drop_bit 4 v) else 0)\<rparr>)
          in set_eg_dr
               (S1\<lparr>dr := (if v AND 0x0f \<noteq> 0 then 16 + push_bit 2 (v AND 0x0f) else 0)\<rparr>))"
    unfolding Let_def
    by (intro slot_inv_set_eg_dr slot_inv_dr slot_inv_set_eg_ar slot_inv_ar s a d)
qed

lemma chip_inv_set_sl_rr:
  assumes "chip_inv OPL" and "v < 256"
  shows "chip_inv (set_sl_rr OPL s v)"
  unfolding set_sl_rr_def
proof (rule chip_inv_with_slot [OF assms(1)])
  fix CH S
  assume s: "slot_inv S"
  have a: "push_bit 1 (sl_tab ! drop_bit 4 v) \<le> 496"
    using sl_tab_le [OF high_nibble [OF assms(2)]] by (simp add: push_bit_eq_mult)
  have d: "(if v AND 0x0f \<noteq> 0 then 16 + push_bit 2 (v AND 0x0f) else 0) \<le> 76"
    by (intro rate_of_nibble low_nibble_le)
  show "slot_inv (set_eg_rr
            (S\<lparr>sl := push_bit 1 (sl_tab ! drop_bit 4 v),
               rr := (if v AND 0x0f \<noteq> 0 then 16 + push_bit 2 (v AND 0x0f) else 0)\<rparr>))"
    by (intro slot_inv_set_eg_rr slot_inv_sl_rr s a d)
qed

lemma chip_inv_write_fb_con: "chip_inv OPL \<Longrightarrow> chip_inv (write_fb_con OPL r v)"
  unfolding write_fb_con_def
  by (erule chip_inv_with_slot) (simp add: Let_def)

lemma chip_inv_globals [simp]:
  "chip_inv (OPL\<lparr>wavesel := w\<rparr>) = chip_inv OPL"
  "chip_inv (OPL\<lparr>mode := m\<rparr>) = chip_inv OPL"
  "chip_inv (OPL\<lparr>rhythm := rh\<rparr>) = chip_inv OPL"
  "chip_inv (OPL\<lparr>lfo_am_depth := a\<rparr>) = chip_inv OPL"
  "chip_inv (OPL\<lparr>lfo_pm_depth_range := p\<rparr>) = chip_inv OPL"
  "chip_inv (OPL\<lparr>eg_timer := t\<rparr>) = chip_inv OPL"
  "chip_inv (OPL\<lparr>eg_cnt := e\<rparr>) = chip_inv OPL"
  "chip_inv (OPL\<lparr>noise_rng := n\<rparr>) = chip_inv OPL"
  "chip_inv (OPL\<lparr>noise_p := np\<rparr>) = chip_inv OPL"
  "chip_inv (OPL\<lparr>status := st\<rparr>) = chip_inv OPL"
  "chip_inv (OPL\<lparr>output0 := x\<rparr>) = chip_inv OPL"
  "chip_inv (OPL\<lparr>phase_modulation := y\<rparr>) = chip_inv OPL"
  "chip_inv (OPL\<lparr>lastChOutput := z\<rparr>) = chip_inv OPL"
  "chip_inv (OPL\<lparr>outputCh := zs\<rparr>) = chip_inv OPL"
  "chip_inv (OPL\<lparr>lfo_am_cnt := ac\<rparr>) = chip_inv OPL"
  "chip_inv (OPL\<lparr>lfo_pm_cnt := pc\<rparr>) = chip_inv OPL"
  "chip_inv (OPL\<lparr>LFO_PM := lp\<rparr>) = chip_inv OPL"
  by (simp_all add: chip_inv_def)

lemma chip_inv_write_bd: "chip_inv OPL \<Longrightarrow> chip_inv (write_bd OPL v)"
  by (simp add: write_bd_def Let_def chip_inv_key_slot)


lemma nat_or_less: "(a::nat) < 2 ^ n \<Longrightarrow> b < 2 ^ n \<Longrightarrow> a OR b < 2 ^ n"
proof -
  assume "a < 2 ^ n" "b < 2 ^ n"
  then have "int a OR int b < 2 ^ n"
    by (intro OR_upper) (simp_all flip: of_nat_power add: of_nat_less_iff del: of_nat_power)
  then have "int (a OR b) < int (2 ^ n)" by (simp add: of_nat_or_eq)
  then show ?thesis by (simp only: of_nat_less_iff)
qed

lemma drop_bit_nat_mono: "(x::nat) \<le> y \<Longrightarrow> drop_bit n x \<le> drop_bit n y"
  by (simp add: drop_bit_nat_def div_le_mono)

lemma kcode_le:
  "drop_bit 9 ((bf::nat) AND 0x1c00) OR drop_bit 8 (bf AND 0x100) \<le> 15"
  "drop_bit 9 (bf AND 0x1c00) OR drop_bit 9 (bf AND 0x200) \<le> 15"
proof -
  have a: "drop_bit 9 (bf AND 0x1c00) < 2 ^ 4"
    using drop_bit_nat_mono [OF nat_and_le2 [of bf "0x1c00"], of 9] by simp
  have b: "drop_bit 8 (bf AND 0x100) < 2 ^ 4"
    using drop_bit_nat_mono [OF nat_and_le2 [of bf "0x100"], of 8] by simp
  have c: "drop_bit 9 (bf AND 0x200) < 2 ^ 4"
    using drop_bit_nat_mono [OF nat_and_le2 [of bf "0x200"], of 9] by simp
  from nat_or_less [OF a b] show "drop_bit 9 (bf AND 0x1c00) OR drop_bit 8 (bf AND 0x100) \<le> 15"
    by simp
  from nat_or_less [OF a c] show "drop_bit 9 (bf AND 0x1c00) OR drop_bit 9 (bf AND 0x200) \<le> 15"
    by simp
qed

lemma ch_inv_update_block_fnum:
  assumes "ch_inv CH" and "bf < 8192"
  shows "ch_inv (update_block_fnum OPL CH bf)"
proof -
  have i: "drop_bit 6 bf < 128"
    using assms(2) by (simp add: drop_bit_nat_def less_mult_imp_div_less)
  have b: "ksl_tab ! drop_bit 6 bf \<le> 255" by (rule ksl_tab_le [OF i])
  have d: "drop_bit n (ksl_tab ! drop_bit 6 bf) \<le> 255" for n
    using drop_bit_nat_le [of n "ksl_tab ! drop_bit 6 bf"] b by simp
  have s1: "slot_inv (SLOT1 CH)" and s2: "slot_inv (SLOT2 CH)"
    using assms(1) by (simp_all add: ch_inv_def)
  show ?thesis
    unfolding update_block_fnum_def Let_def
    using kcode_le [of bf] b s1 s2 d [of "ksl (SLOT1 CH)"] d [of "ksl (SLOT2 CH)"]
    by (simp add: ch_inv_def slot_inv_CALC_FCSLOT slot_inv_TLL)
qed

lemma block_fnum_bound:
  assumes "v < 256"
  shows "((x::nat) AND 0x1f00) OR v < 8192" and "push_bit 8 (v AND 0x1f) OR (x AND 0xff) < 8192"
proof -
  have a: "x AND 0x1f00 < 2 ^ 13" using nat_and_le2 [of x "0x1f00"] by simp
  have b: "v < 2 ^ 13" using assms by simp
  from nat_or_less [OF a b] show "(x AND 0x1f00) OR v < 8192" by simp
  have c: "push_bit 8 (v AND 0x1f) < 2 ^ 13"
    using nat_and_le2 [of v "0x1f"] by (simp add: push_bit_eq_mult)
  have d: "x AND 0xff < 2 ^ 13" using nat_and_le2 [of x "0xff"] by simp
  from nat_or_less [OF c d] show "push_bit 8 (v AND 0x1f) OR (x AND 0xff) < 8192" by simp
qed

lemma chip_inv_update_ch:
  "chip_inv X \<Longrightarrow> bf < 8192 \<Longrightarrow>
   chip_inv (X\<lparr>P_CH := (P_CH X)[c := update_block_fnum X (P_CH X ! c) bf]\<rparr>)"
  by (rule chip_inv_P_CH) (simp_all add: ch_inv_update_block_fnum)

lemma chip_inv_write_fnum:
  assumes "chip_inv OPL" and "v < 256"
  shows "chip_inv (write_fnum OPL r v)"
  unfolding write_fnum_def Let_def
  by (intro if_pred [of _ chip_inv] chip_inv_update_ch chip_inv_key_slot assms(1)
        block_fnum_bound [OF assms(2)])

lemma chip_inv_OPLWriteReg: "chip_inv OPL \<Longrightarrow> chip_inv (OPLWriteReg OPL r v)"
  by (rule OPLWriteReg_arms)
     (simp_all add: chip_inv_set_mul chip_inv_set_ksl_tl chip_inv_set_ar_dr chip_inv_set_sl_rr
        chip_inv_write_bd chip_inv_write_fnum chip_inv_write_fb_con chip_inv_with_slot)

lemma chip_inv_write_zeros: "chip_inv OPL \<Longrightarrow> chip_inv (write_zeros OPL rs)"
  by (erule write_zeros_rule) (rule chip_inv_OPLWriteReg)

lemma ch_inv_map:
  assumes "list_all ch_inv chs" and "\<And>S. slot_inv S \<Longrightarrow> slot_inv (f S)"
  shows "list_all ch_inv (map (\<lambda>CH. CH\<lparr>SLOT1 := f (SLOT1 CH), SLOT2 := f (SLOT2 CH)\<rparr>) chs)"
  using assms by (simp add: list_all_iff ch_inv_def)

lemma chip_inv_OPL_STATUS_RESET: "chip_inv OPL \<Longrightarrow> chip_inv (OPL_STATUS_RESET OPL f)"
  by (simp add: OPL_STATUS_RESET_def Let_def)

lemma chip_inv_OPL_STATUS_SET: "chip_inv OPL \<Longrightarrow> chip_inv (OPL_STATUS_SET OPL f)"
  by (simp add: OPL_STATUS_SET_def Let_def)

lemma chip_inv_OPLResetChip: "chip_inv OPL \<Longrightarrow> chip_inv (OPLResetChip OPL)"
proof -
  assume a: "chip_inv OPL"
  let ?O3 = "write_zeros (OPLWriteReg (OPLWriteReg (OPLWriteReg (OPLWriteReg
     (OPL_STATUS_RESET (OPL\<lparr>eg_timer := 0, eg_cnt := 0, noise_rng := 1, mode := 0\<rparr>) 0x7f)
       0x01 0) 0x02 0) 0x03 0) 0x04 0) reset_regs"
  have "chip_inv ?O3"
    by (intro chip_inv_write_zeros chip_inv_OPLWriteReg chip_inv_OPL_STATUS_RESET) (simp add: a)
  then have "chip_inv (?O3\<lparr>P_CH := map (\<lambda>CH. CH\<lparr>SLOT1 := reset_slot (SLOT1 CH),
        SLOT2 := reset_slot (SLOT2 CH)\<rparr>) (P_CH ?O3)\<rparr>)"
    by (simp add: chip_inv_def ch_inv_map slot_inv_reset_slot)
  then show ?thesis by (simp add: OPLResetChip_def Let_def)
qed

lemma chip_inv_CSMKeyControll: "chip_inv OPL \<Longrightarrow> chip_inv (CSMKeyControll c OPL)"
  by (simp add: CSMKeyControll_def chip_inv_key_slot)

lemma chip_inv_fold_CSM: "chip_inv OPL \<Longrightarrow> chip_inv (fold CSMKeyControll cs OPL)"
  by (induction cs arbitrary: OPL) (simp_all add: chip_inv_CSMKeyControll)

lemma chip_inv_OPLTimerOver: "chip_inv OPL \<Longrightarrow> chip_inv (OPLTimerOver OPL c)"
  by (simp add: OPLTimerOver_def Let_def chip_inv_OPL_STATUS_SET chip_inv_fold_CSM)

lemma chip_inv_OPLCreate: "chip_inv (OPLCreate fn am pm nf ta ty)"
  by (simp add: chip_inv_def OPLCreate_def list_all_iff ch_inv_def zero_ch_def)
     (simp add: slot_inv_def zero_slot_def MAX_ATT_INDEX_def)

lemma chip_inv_ym3812_init: "chip_inv (ym3812_init fn am pm nf ta)"
  by (simp add: ym3812_init_def chip_inv_OPLResetChip chip_inv_OPLCreate)


subsection \<open>The envelope step\<close>

lemma eg_step_bounds:
  assumes "sel \<le> 112"
  shows "0 \<le> eg_step cnt sel sh" and "eg_step cnt sel sh \<le> 8"
proof -
  have "drop_bit sh cnt AND 7 \<le> 7" by (rule word_and_le1)
  then have "unat (drop_bit sh cnt AND 7) \<le> 7" by (simp add: word_le_nat_alt)
  with assms have "sel + unat (drop_bit sh cnt AND 7) < 120" by simp
  from eg_inc_le [OF this] show "eg_step cnt sel sh \<le> 8" by (simp add: eg_step_def)
  show "0 \<le> eg_step cnt sel sh" by (simp add: eg_step_def)
qed

lemma unat_of_small_int:
  assumes "0 \<le> x" and "x < 2 ^ 32"
  shows "unat (word_of_int x :: 32 word) = nat x"
proof -
  have "uint (word_of_int x :: 32 word) = take_bit 32 x" by (simp add: uint_word_of_int_eq)
  also have "\<dots> = x" using assms by (simp add: take_bit_int_eq_self)
  finally show ?thesis by (simp add: unat_eq_nat_uint)
qed

text \<open>Attack: the new attenuation is between \<open>-1\<close> and the old one.\<close>

lemma attack_step_bounds:
  assumes "0 \<le> v" and "0 \<le> inc" and "inc \<le> 8"
  shows "- 1 \<le> v + drop_bit 3 (NOT v * inc)" and "v + drop_bit 3 (NOT v * inc) \<le> (v::int)"
proof -
  have n: "NOT v = - v - 1" by (simp add: not_int_def)
  have "(- v - 1) * inc \<le> 0" using assms by (simp add: mult_nonpos_nonneg)
  then have u: "((- v - 1) * inc) div 8 \<le> 0" by simp
  have "(- v - 1) * 8 \<le> (- v - 1) * inc"
    using assms by (intro mult_left_mono_neg) simp_all
  then have "((- v - 1) * 8) div 8 \<le> ((- v - 1) * inc) div 8"
    by (intro zdiv_mono1) simp_all
  then have l: "- v - 1 \<le> ((- v - 1) * inc) div 8" by simp
  from l show "- 1 \<le> v + drop_bit 3 (NOT v * inc)" by (simp add: n drop_bit_eq_div)
  from u show "v + drop_bit 3 (NOT v * inc) \<le> v" by (simp add: n drop_bit_eq_div)
qed

lemma slot_inv_eg_slot:
  assumes "slot_inv S"
  shows "slot_inv (eg_slot cnt S)"
proof (cases "state S")
  case EG_OFF
  with assms show ?thesis by (simp add: eg_slot_def)
next
  case EG_REL
  from assms have b: "0 \<le> eg_step cnt (eg_sel_rr S) (eg_sh_rr S)"
    by (intro eg_step_bounds) (simp add: slot_inv_def)
  with assms EG_REL show ?thesis
    by (simp add: eg_slot_def Let_def) (simp add: slot_inv_def MAX_ATT_INDEX_def ENV_BITS_def)
next
  case EG_SUS
  from assms have b: "0 \<le> eg_step cnt (eg_sel_rr S) (eg_sh_rr S)"
    by (intro eg_step_bounds) (simp add: slot_inv_def)
  with assms EG_SUS show ?thesis
    by (simp add: eg_slot_def Let_def) (simp add: slot_inv_def MAX_ATT_INDEX_def ENV_BITS_def)
next
  case EG_DEC
  let ?v = "volume S + eg_step cnt (eg_sel_dr S) (eg_sh_dr S)"
  from assms have b: "0 \<le> eg_step cnt (eg_sel_dr S) (eg_sh_dr S)"
    "eg_step cnt (eg_sel_dr S) (eg_sh_dr S) \<le> 8"
    by (intro eg_step_bounds; simp add: slot_inv_def)+
  from assms EG_DEC have v: "0 \<le> volume S" "volume S \<le> 495" by (simp_all add: slot_inv_def)
  from v b have u: "unat (word_of_int ?v :: 32 word) = nat ?v"
    by (intro unat_of_small_int) simp_all
  from assms EG_DEC v b u show ?thesis
    apply (simp add: eg_slot_def Let_def)
    apply (simp add: slot_inv_def MAX_ATT_INDEX_def ENV_BITS_def)
    apply arith
    done
next
  case EG_ATT
  from assms have b: "0 \<le> eg_step cnt (eg_sel_ar S) (eg_sh_ar S)"
    "eg_step cnt (eg_sel_ar S) (eg_sh_ar S) \<le> 8"
    by (intro eg_step_bounds; simp add: slot_inv_def)+
  from assms have v: "0 \<le> volume S" "volume S \<le> 511"
    by (simp_all add: slot_inv_def MAX_ATT_INDEX_def ENV_BITS_def)
  note a = attack_step_bounds [OF v(1) b]
  from assms EG_ATT v a show ?thesis
    by (simp add: eg_slot_def Let_def MIN_ATT_INDEX_def)
       (simp add: slot_inv_def MAX_ATT_INDEX_def ENV_BITS_def)
qed

lemma chip_inv_eg_tick: "chip_inv OPL \<Longrightarrow> chip_inv (eg_tick OPL)"
  by (simp add: eg_tick_def Let_def chip_inv_def ch_inv_map slot_inv_eg_slot)

lemma slot_inv_phase_slot: "slot_inv S \<Longrightarrow> slot_inv (phase_slot OPL CH S)"
  by (simp add: phase_slot_def Let_def)

lemma ch_inv_map2:
  assumes "list_all ch_inv chs" and "\<And>CH S. slot_inv S \<Longrightarrow> slot_inv (f CH S)"
  shows "list_all ch_inv (map (\<lambda>CH. CH\<lparr>SLOT1 := f CH (SLOT1 CH), SLOT2 := f CH (SLOT2 CH)\<rparr>) chs)"
  using assms by (simp add: list_all_iff ch_inv_def)

lemma chip_inv_advance_phase: "chip_inv OPL \<Longrightarrow> chip_inv (advance_phase OPL)"
  by (simp add: advance_phase_def chip_inv_def ch_inv_map2 slot_inv_phase_slot)

lemma chip_inv_advance_noise: "chip_inv OPL \<Longrightarrow> chip_inv (advance_noise OPL)"
  by (simp add: advance_noise_def Let_def)

lemma chip_inv_advance: "chip_inv OPL \<Longrightarrow> advance OPL = Some O' \<Longrightarrow> chip_inv O'"
  by (erule advance_rule [where P = chip_inv])
     (simp_all add: chip_inv_eg_tick chip_inv_advance_phase chip_inv_advance_noise)

lemma chip_inv_advances: "chip_inv OPL \<Longrightarrow> advances n OPL = Some O' \<Longrightarrow> chip_inv O'"
  by (erule advances_rule [where P = chip_inv, rotated]) (simp_all add: chip_inv_advance)


subsection \<open>Sample generation\<close>

lemma drop_24_less:
  fixes w :: "32 word"
  assumes "unat w < 3523215360"
  shows "unat (drop_bit LFO_SH w) < 210"
proof -
  have "unat (drop_bit LFO_SH w) = unat w div 2 ^ 24"
    by (simp only: unat_drop_bit_eq LFO_SH_def drop_bit_nat_def)
  also have "\<dots> < 210" using assms by (simp add: less_mult_imp_div_less)
  finally show ?thesis .
qed

lemma lfo_am_index:
  fixes c1 :: "32 word"
  shows "unat (drop_bit LFO_SH
           (if c1 \<ge> push_bit LFO_SH (of_nat LFO_AM_TAB_ELEMENTS)
            then c1 - push_bit LFO_SH (of_nat LFO_AM_TAB_ELEMENTS) else c1)) < 210"
proof -
  let ?K = "push_bit LFO_SH (of_nat LFO_AM_TAB_ELEMENTS) :: 32 word"
  have K: "unat ?K = 3523215360"
    by (simp add: LFO_SH_def LFO_AM_TAB_ELEMENTS_def)
  show ?thesis
  proof (cases "c1 \<ge> ?K")
    case True
    then have "unat (c1 - ?K) = unat c1 - unat ?K" by (simp only: unat_sub)
    moreover have "unat c1 < 2 ^ 32" using unsigned_less [of c1] by simp
    ultimately have "unat (c1 - ?K) < 3523215360" using K by simp
    from drop_24_less [OF this] True show ?thesis by (simp only: if_True)
  next
    case False
    then have "unat c1 < unat ?K" by (simp only: word_le_nat_alt not_le)
    then have "unat c1 < 3523215360" by (simp only: K)
    from drop_24_less [OF this] False show ?thesis by (simp only: if_False)
  qed
qed

lemma LFO_AM_advance_lfo: "LFO_AM (advance_lfo OPL) \<le> 26"
proof -
  let ?c1 = "lfo_am_cnt OPL + lfo_am_inc OPL"
  let ?i = "unat (drop_bit LFO_SH
           (if ?c1 \<ge> push_bit LFO_SH (of_nat LFO_AM_TAB_ELEMENTS)
            then ?c1 - push_bit LFO_SH (of_nat LFO_AM_TAB_ELEMENTS) else ?c1))"
  have t: "lfo_am_table ! ?i \<le> 26" by (rule lfo_am_table_le [OF lfo_am_index])
  then have t2: "drop_bit 2 (lfo_am_table ! ?i) \<le> 26"
    using drop_bit_nat_le [of 2 "lfo_am_table ! ?i"] by simp
  have w: "n \<le> 26 \<Longrightarrow> (of_nat n :: 32 word) \<le> 26" for n :: nat
    by (simp add: word_le_nat_alt unat_of_nat)
  show ?thesis
    by (simp add: advance_lfo_def Let_def w [OF t] w [OF t2])
qed

lemma chip_inv_advance_lfo: "chip_inv OPL \<Longrightarrow> chip_inv (advance_lfo OPL)"
  using LFO_AM_advance_lfo [of OPL] by (simp add: chip_inv_def)

lemma chip_inv_add_connect1: "chip_inv OPL \<Longrightarrow> chip_inv (add_connect1 t x OPL)"
  by (simp add: add_connect1_def split: connect_target.splits)

lemma ch_inv_op1_out:
  "ch_inv CH \<Longrightarrow> ch_inv (CH\<lparr>SLOT1 := (SLOT1 CH)\<lparr>op1_out0 := a, op1_out1 := b\<rparr>\<rparr>)"
  by (simp add: ch_inv_def)

lemma chip_inv_ch_op1: "chip_inv OPL \<Longrightarrow> chip_inv (ch_op1 T c OPL)"
proof -
  assume a: "chip_inv OPL"
  have "\<exists>x y. ch_op1 T c OPL =
      (add_connect1 (connect1 (SLOT1 (P_CH OPL ! c))) (op1_out1 (SLOT1 (P_CH OPL ! c))) OPL)
        \<lparr>P_CH := (P_CH (add_connect1 (connect1 (SLOT1 (P_CH OPL ! c)))
                        (op1_out1 (SLOT1 (P_CH OPL ! c))) OPL))
           [c := (P_CH OPL ! c)\<lparr>SLOT1 := (SLOT1 (P_CH OPL ! c))\<lparr>op1_out0 := x, op1_out1 := y\<rparr>\<rparr>]\<rparr>"
    by (simp add: ch_op1_def Let_def) blast
  then obtain x y where e: "ch_op1 T c OPL =
      (add_connect1 (connect1 (SLOT1 (P_CH OPL ! c))) (op1_out1 (SLOT1 (P_CH OPL ! c))) OPL)
        \<lparr>P_CH := (P_CH (add_connect1 (connect1 (SLOT1 (P_CH OPL ! c)))
                        (op1_out1 (SLOT1 (P_CH OPL ! c))) OPL))
           [c := (P_CH OPL ! c)\<lparr>SLOT1 := (SLOT1 (P_CH OPL ! c))\<lparr>op1_out0 := x, op1_out1 := y\<rparr>\<rparr>]\<rparr>"
    by blast
  show ?thesis
    unfolding e
    by (rule chip_inv_P_CH [OF chip_inv_add_connect1 [OF a]]) (simp add: ch_inv_op1_out)
qed

lemma chip_inv_ch_op2: "chip_inv OPL \<Longrightarrow> chip_inv (ch_op2 T c OPL)"
  by (simp add: ch_op2_def Let_def)

lemma chip_inv_calc_ch: "chip_inv OPL \<Longrightarrow> chip_inv (calc_ch T c OPL)"
  by (simp add: calc_ch_def Let_def OPL_CALC_CH_def chip_inv_ch_op1 chip_inv_ch_op2)

lemma chip_inv_rh_bd1: "chip_inv OPL \<Longrightarrow> chip_inv (rh_bd1 T OPL)"
proof -
  assume a: "chip_inv OPL"
  let ?X = "if CON (SLOT1 (P_CH OPL ! 6)) = 0
            then OPL\<lparr>phase_modulation := op1_out1 (SLOT1 (P_CH OPL ! 6))\<rparr> else OPL"
  have x: "chip_inv ?X" using a by simp
  have p: "P_CH ?X = P_CH OPL" by simp
  have "\<exists>x y. rh_bd1 T OPL =
      ?X\<lparr>P_CH := (P_CH ?X)
           [6 := (P_CH OPL ! 6)\<lparr>SLOT1 := (SLOT1 (P_CH OPL ! 6))\<lparr>op1_out0 := x, op1_out1 := y\<rparr>\<rparr>]\<rparr>"
    by (simp add: rh_bd1_def Let_def) blast
  then obtain x y where e: "rh_bd1 T OPL =
      ?X\<lparr>P_CH := (P_CH ?X)
           [6 := (P_CH OPL ! 6)\<lparr>SLOT1 := (SLOT1 (P_CH OPL ! 6))\<lparr>op1_out0 := x, op1_out1 := y\<rparr>\<rparr>]\<rparr>"
    by blast
  show ?thesis
    unfolding e
    by (rule chip_inv_P_CH [OF x]) (auto simp add: ch_inv_op1_out split: if_splits)
qed

lemma chip_inv_rh_voices:
  "chip_inv OPL \<Longrightarrow> chip_inv (rh_bd2 T OPL)"
  "chip_inv OPL \<Longrightarrow> chip_inv (rh_hh T b OPL)"
  "chip_inv OPL \<Longrightarrow> chip_inv (rh_sd T b OPL)"
  "chip_inv OPL \<Longrightarrow> chip_inv (rh_tom T OPL)"
  "chip_inv OPL \<Longrightarrow> chip_inv (rh_top T OPL)"
  by (simp_all add: rh_bd2_def rh_hh_def rh_sd_def rh_tom_def rh_top_def Let_def)

lemma chip_inv_OPL_CALC_RH: "chip_inv OPL \<Longrightarrow> chip_inv (OPL_CALC_RH T b OPL)"
  by (simp add: OPL_CALC_RH_def chip_inv_rh_voices chip_inv_rh_bd1)

lemma chip_inv_calc_channels: "chip_inv OPL \<Longrightarrow> chip_inv (calc_channels T rh OPL)"
  by (simp add: calc_channels_def Let_def chip_inv_calc_ch chip_inv_OPL_CALC_RH chip_inv_advance_lfo)

lemma chip_inv_one_sample:
  "chip_inv OPL \<Longrightarrow> one_sample T rh OPL = Some (x, O') \<Longrightarrow> chip_inv O'"
  by (auto simp add: one_sample_def Let_def split: option.splits
        intro: chip_inv_advance [OF chip_inv_calc_channels])

lemma chip_inv_sample_loop:
  "chip_inv OPL \<Longrightarrow> sample_loop T rh n OPL = Some (xs, O') \<Longrightarrow> chip_inv O'"
proof (induction n arbitrary: OPL xs)
  case 0
  then show ?case by simp
next
  case (Suc n)
  from Suc.prems(2) obtain x O1 ys where
    s: "one_sample T rh OPL = Some (x, O1)" and r: "sample_loop T rh n O1 = Some (ys, O')"
    by (auto split: option.splits)
  from Suc.IH [OF chip_inv_one_sample [OF Suc.prems(1) s] r] show ?case .
qed

lemma chip_inv_update_one:
  "chip_inv OPL \<Longrightarrow> ym3812_update_one T OPL n = Some (xs, O') \<Longrightarrow> chip_inv O'"
  by (simp add: ym3812_update_one_def) (erule chip_inv_sample_loop)

text \<open>Whatever the host calls, in whatever order, the invariant holds.\<close>

lemma chip_inv_host_run:
  "chip_inv OPL \<Longrightarrow> host_run T OPL cs = Some O' \<Longrightarrow> chip_inv O'"
proof (induction cs arbitrary: OPL)
  case Nil
  then show ?case by simp
next
  case (Cons a cs)
  show ?case
  proof (cases a)
    case (Write_reg r v)
    with Cons.prems show ?thesis
      by (auto intro: Cons.IH [OF chip_inv_OPLWriteReg])
  next
    case Reset_chip
    with Cons.prems show ?thesis
      by (auto intro: Cons.IH [OF chip_inv_OPLResetChip])
  next
    case (Update n)
    with Cons.prems(2) obtain xs O1 where
      u: "ym3812_update_one T OPL n = Some (xs, O1)" and r: "host_run T O1 cs = Some O'"
      by (auto split: option.splits)
    from Cons.IH [OF chip_inv_update_one [OF Cons.prems(1) u] r] show ?thesis .
  next
    case (Timer_over c)
    with Cons.prems show ?thesis
      by (auto intro: Cons.IH [OF chip_inv_OPLTimerOver])
  qed
qed

lemma chip_inv_volume:
  assumes "chip_inv OPL" and "c < 9" and "i < 2"
  shows "0 \<le> volume (the_slot OPL c i)" and "volume (the_slot OPL c i) \<le> 511"
proof -
  from assms(1,2) have "ch_inv (P_CH OPL ! c)"
    by (simp add: chip_inv_def list_all_length)
  then have "slot_inv (the_slot OPL c i)"
    by (simp add: the_slot_def ch_inv_SLOT)
  then show "0 \<le> volume (the_slot OPL c i)" and "volume (the_slot OPL c i) \<le> 511"
    by (simp_all add: slot_inv_def MAX_ATT_INDEX_def ENV_BITS_def)
qed

subsection \<open>The calls of the host always return\<close>

lemma OPL_STATUS_SET_fields [simp]:
  "P_CH (OPL_STATUS_SET OPL flag) = P_CH OPL"
  "eg_cnt (OPL_STATUS_SET OPL flag) = eg_cnt OPL"
  "eg_timer (OPL_STATUS_SET OPL flag) = eg_timer OPL"
  "eg_timer_add (OPL_STATUS_SET OPL flag) = eg_timer_add OPL"
  "eg_timer_overflow (OPL_STATUS_SET OPL flag) = eg_timer_overflow OPL"
  "rhythm (OPL_STATUS_SET OPL flag) = rhythm OPL"
  "fn_tab (OPL_STATUS_SET OPL flag) = fn_tab OPL"
  "lfo_am_depth (OPL_STATUS_SET OPL flag) = lfo_am_depth OPL"
  "lfo_pm_depth_range (OPL_STATUS_SET OPL flag) = lfo_pm_depth_range OPL"
  "lfo_am_cnt (OPL_STATUS_SET OPL flag) = lfo_am_cnt OPL"
  "lfo_am_inc (OPL_STATUS_SET OPL flag) = lfo_am_inc OPL"
  "lfo_pm_cnt (OPL_STATUS_SET OPL flag) = lfo_pm_cnt OPL"
  "lfo_pm_inc (OPL_STATUS_SET OPL flag) = lfo_pm_inc OPL"
  "noise_rng (OPL_STATUS_SET OPL flag) = noise_rng OPL"
  "noise_p (OPL_STATUS_SET OPL flag) = noise_p OPL"
  "noise_f (OPL_STATUS_SET OPL flag) = noise_f OPL"
  "wavesel (OPL_STATUS_SET OPL flag) = wavesel OPL"
  "chip_type (OPL_STATUS_SET OPL flag) = chip_type OPL"
  "address (OPL_STATUS_SET OPL flag) = address OPL"
  "statusmask (OPL_STATUS_SET OPL flag) = statusmask OPL"
  "mode (OPL_STATUS_SET OPL flag) = mode OPL"
  "phase_modulation (OPL_STATUS_SET OPL flag) = phase_modulation OPL"
  "output0 (OPL_STATUS_SET OPL flag) = output0 OPL"
  "lastChOutput (OPL_STATUS_SET OPL flag) = lastChOutput OPL"
  "outputCh (OPL_STATUS_SET OPL flag) = outputCh OPL"
  "LFO_AM (OPL_STATUS_SET OPL flag) = LFO_AM OPL"
  "LFO_PM (OPL_STATUS_SET OPL flag) = LFO_PM OPL"
  by (simp_all add: OPL_STATUS_SET_def Let_def)

lemma CSMKeyControll_fields [simp]:
  "eg_cnt (CSMKeyControll c OPL) = eg_cnt OPL"
  "eg_timer (CSMKeyControll c OPL) = eg_timer OPL"
  "eg_timer_add (CSMKeyControll c OPL) = eg_timer_add OPL"
  "eg_timer_overflow (CSMKeyControll c OPL) = eg_timer_overflow OPL"
  "rhythm (CSMKeyControll c OPL) = rhythm OPL"
  "fn_tab (CSMKeyControll c OPL) = fn_tab OPL"
  "lfo_am_depth (CSMKeyControll c OPL) = lfo_am_depth OPL"
  "lfo_pm_depth_range (CSMKeyControll c OPL) = lfo_pm_depth_range OPL"
  "lfo_am_cnt (CSMKeyControll c OPL) = lfo_am_cnt OPL"
  "lfo_am_inc (CSMKeyControll c OPL) = lfo_am_inc OPL"
  "lfo_pm_cnt (CSMKeyControll c OPL) = lfo_pm_cnt OPL"
  "lfo_pm_inc (CSMKeyControll c OPL) = lfo_pm_inc OPL"
  "noise_rng (CSMKeyControll c OPL) = noise_rng OPL"
  "noise_p (CSMKeyControll c OPL) = noise_p OPL"
  "noise_f (CSMKeyControll c OPL) = noise_f OPL"
  "wavesel (CSMKeyControll c OPL) = wavesel OPL"
  "chip_type (CSMKeyControll c OPL) = chip_type OPL"
  "address (CSMKeyControll c OPL) = address OPL"
  "status (CSMKeyControll c OPL) = status OPL"
  "statusmask (CSMKeyControll c OPL) = statusmask OPL"
  "mode (CSMKeyControll c OPL) = mode OPL"
  "phase_modulation (CSMKeyControll c OPL) = phase_modulation OPL"
  "output0 (CSMKeyControll c OPL) = output0 OPL"
  "lastChOutput (CSMKeyControll c OPL) = lastChOutput OPL"
  "outputCh (CSMKeyControll c OPL) = outputCh OPL"
  "LFO_AM (CSMKeyControll c OPL) = LFO_AM OPL"
  "LFO_PM (CSMKeyControll c OPL) = LFO_PM OPL"
  by (simp_all add: CSMKeyControll_def)

lemma fold_CSM_overflow [simp]:
  "eg_timer_overflow (fold CSMKeyControll cs OPL) = eg_timer_overflow OPL"
  by (induction cs arbitrary: OPL) simp_all

lemma OPLTimerOver_overflow [simp]:
  "eg_timer_overflow (OPLTimerOver OPL c) = eg_timer_overflow OPL"
  by (simp add: OPLTimerOver_def Let_def)

lemma one_sample_total:
  "eg_timer_overflow OPL \<noteq> 0 \<Longrightarrow> \<exists>O'. one_sample T rh OPL = Some (store_sample (output0 (calc_channels T rh OPL)), O')"
  using advance_total [of "calc_channels T rh OPL"]
  by (auto simp add: one_sample_def Let_def)

lemma one_sample_overflow:
  "one_sample T rh OPL = Some (x, O') \<Longrightarrow> eg_timer_overflow O' = eg_timer_overflow OPL"
  by (auto simp add: one_sample_def Let_def split: option.splits dest: advance_overflow)

lemma sample_loop_overflow:
  "sample_loop T rh n OPL = Some (xs, O') \<Longrightarrow> eg_timer_overflow O' = eg_timer_overflow OPL"
proof (induction n arbitrary: OPL xs)
  case 0
  then show ?case by simp
next
  case (Suc n)
  from Suc.prems obtain x O1 ys where
    s: "one_sample T rh OPL = Some (x, O1)" and r: "sample_loop T rh n O1 = Some (ys, O')"
    by (auto split: option.splits)
  from Suc.IH [OF r] one_sample_overflow [OF s] show ?case by simp
qed

lemma sample_loop_total:
  "eg_timer_overflow OPL \<noteq> 0 \<Longrightarrow> \<exists>xs O'. sample_loop T rh n OPL = Some (xs, O')"
proof (induction n arbitrary: OPL)
  case 0
  then show ?case by simp
next
  case (Suc n)
  from one_sample_total [OF Suc.prems] obtain x O1 where
    s: "one_sample T rh OPL = Some (x, O1)" by blast
  with Suc.prems have "eg_timer_overflow O1 \<noteq> 0" by (simp add: one_sample_overflow)
  from Suc.IH [OF this] obtain ys O' where "sample_loop T rh n O1 = Some (ys, O')" by blast
  with s show ?case by simp
qed

lemma host_run_overflow:
  "host_run T OPL cs = Some O' \<Longrightarrow> eg_timer_overflow O' = eg_timer_overflow OPL"
proof (induction cs arbitrary: OPL)
  case Nil
  then show ?case by simp
next
  case (Cons a cs)
  show ?case
  proof (cases a)
    case (Write_reg r v)
    with Cons.prems Cons.IH [of "OPLWriteReg OPL r v"] show ?thesis by simp
  next
    case Reset_chip
    with Cons.prems Cons.IH [of "OPLResetChip OPL"] show ?thesis by simp
  next
    case (Update n)
    with Cons.prems obtain xs O1 where
      u: "sample_loop T (rhythm OPL AND 0x20) n OPL = Some (xs, O1)" and
      r: "host_run T O1 cs = Some O'"
      by (auto simp add: ym3812_update_one_def split: option.splits)
    from Cons.IH [OF r] sample_loop_overflow [OF u] show ?thesis by simp
  next
    case (Timer_over c)
    with Cons.prems Cons.IH [of "OPLTimerOver OPL c"] show ?thesis by simp
  qed
qed

lemma ym3812_init_overflow: "eg_timer_overflow (ym3812_init fn am pm nf ta) \<noteq> 0"
  by (simp add: ym3812_init_def OPLCreate_def EG_SH_def)

section \<open>One operator through the register decoder and the clocks\<close>

lemma the_slot_SLOT_set:
  "SLOT (SLOT_set i' S CH) i = (if (i = 0) = (i' = 0) then S else SLOT CH i)"
  by (simp add: SLOT_def SLOT_set_def)

text \<open>A field that \<open>f\<close> leaves alone is left alone in every operator of the chip.\<close>

lemma with_slot_keeps:
  assumes "\<And>CH S. g (f CH S) = g S"
  shows "g (the_slot (with_slot c' i' f OPL) c i) = g (the_slot OPL c i)"
proof (cases "c' < length (P_CH OPL) \<and> c = c'")
  case True
  then show ?thesis
    by (auto simp add: the_slot_def with_slot_P_CH assms SLOT_def SLOT_set_def)
next
  case False
  then show ?thesis
    by (auto simp add: the_slot_def with_slot_P_CH list_update_beyond not_less)
qed

lemma CALC_FCSLOT_keeps [simp]:
  "state (CALC_FCSLOT CH S) = state S"
  "volume (CALC_FCSLOT CH S) = volume S"
  "eg_type (CALC_FCSLOT CH S) = eg_type S"
  "key (CALC_FCSLOT CH S) = key S"
  "Cnt (CALC_FCSLOT CH S) = Cnt S"
  by (simp_all add: CALC_FCSLOT_def Let_def set_eg_ar_def set_eg_dr_def set_eg_rr_def)

lemma set_mul_keeps:
  "state (the_slot (set_mul OPL s v) c i) = state (the_slot OPL c i)"
  "volume (the_slot (set_mul OPL s v) c i) = volume (the_slot OPL c i)"
  unfolding set_mul_def by (rule with_slot_keeps; simp)+

lemma the_slot_map:
  "c < length (P_CH OPL) \<Longrightarrow>
   the_slot (OPL\<lparr>P_CH := map (\<lambda>CH. CH\<lparr>SLOT1 := f CH (SLOT1 CH), SLOT2 := f CH (SLOT2 CH)\<rparr>)
                              (P_CH OPL)\<rparr>) c i
     = f (P_CH OPL ! c) (the_slot OPL c i)"
  by (simp add: the_slot_def SLOT_def)

lemma the_slot_eg_tick:
  "c < length (P_CH OPL) \<Longrightarrow>
   the_slot (eg_tick OPL) c i = eg_slot (eg_cnt OPL + 1) (the_slot OPL c i)"
  by (simp add: eg_tick_def Let_def the_slot_def SLOT_def)

lemma the_slot_advance_phase:
  "c < length (P_CH OPL) \<Longrightarrow>
   the_slot (advance_phase OPL) c i = phase_slot OPL (P_CH OPL ! c) (the_slot OPL c i)"
  by (simp add: advance_phase_def the_slot_def SLOT_def)

lemma the_slot_globals [simp]:
  "the_slot (OPL\<lparr>eg_timer := t\<rparr>) c i = the_slot OPL c i"
  "the_slot (advance_noise OPL) c i = the_slot OPL c i"
  by (simp_all add: the_slot_def advance_noise_def Let_def)

lemma phase_slot_keeps [simp]:
  "state (phase_slot OPL CH S) = state S"
  "volume (phase_slot OPL CH S) = volume S"
  "eg_type (phase_slot OPL CH S) = eg_type S"
  by (simp_all add: phase_slot_def Let_def)

text \<open>The envelope step of an operator in the sustain phase.\<close>

lemma eg_slot_sustain:
  assumes "state S = EG_SUS"
  shows "state (eg_slot cnt S) = EG_SUS"
    and "eg_type (eg_slot cnt S) = eg_type S"
    and "eg_type S \<noteq> 0 \<Longrightarrow> eg_slot cnt S = S"
    and "eg_type S = 0 \<Longrightarrow> volume (eg_slot cnt S) =
           (if eg_gate cnt (eg_sh_rr S)
            then min MAX_ATT_INDEX (volume S + eg_step cnt (eg_sel_rr S) (eg_sh_rr S))
            else volume S)"
  using assms by (simp_all add: eg_slot_def Let_def min_def)

lemma sustained_advance:
  assumes "advance OPL = Some O'" and "sustained c i e v OPL"
  shows "sustained c i e v O'"
proof (rule advance_rule [OF assms(1), where P = "sustained c i e v"])
  show "sustained c i e v (OPL\<lparr>eg_timer := eg_timer OPL + eg_timer_add OPL\<rparr>)"
    using assms(2) by (simp add: sustained_def)
next
  fix X
  assume s: "sustained c i e v X"
  then have t: "state (the_slot X c i) = EG_SUS" by (simp add: sustained_def)
  from s show "sustained c i e v (eg_tick X)"
    using eg_slot_sustain(1,2) [OF t] eg_slot_sustain(3) [OF t]
    by (auto simp add: sustained_def the_slot_eg_tick)
next
  fix X
  assume "sustained c i e v X"
  then show "sustained c i e v (advance_noise (advance_phase X))"
    by (simp add: sustained_def the_slot_advance_phase)
qed

lemma sustained_advances:
  "advances n OPL = Some O' \<Longrightarrow> sustained c i e v OPL \<Longrightarrow> sustained c i e v O'"
  by (erule advances_rule [where P = "sustained c i e v"]) (auto intro: sustained_advance)


lemma reg_20_range:
  assumes "0x20 \<le> r" "r \<le> 0x3f"
  shows "nat (r AND 0xff) AND 0xe0 = 0x20 \<and> nat (r AND 0xff) AND 0x1f = nat (r AND 0x1f)"
  by (rule int_range_cases [OF assms]) (simp add: upto_rec_numeral)

lemma eg_type_bit_of_byte: "nat (v AND 0xff) AND 0x20 = nat (v AND 0x20)"
proof -
  have "nat (v AND 0xff) AND 0x20 = nat ((v AND 0xff) AND 0x20)"
    by (simp add: nat_and_nat)
  also have "(v AND 0xff) AND 0x20 = v AND (0xff AND 0x20)"
    by (simp only: and.assoc)
  finally show ?thesis by simp
qed

lemma write_20_keeps:
  assumes "0x20 \<le> r" "r \<le> 0x3f"
  shows "state (the_slot (OPLWriteReg OPL r v) c i) = state (the_slot OPL c i)"
    and "volume (the_slot (OPLWriteReg OPL r v) c i) = volume (the_slot OPL c i)"
  using reg_20_range [OF assms] by (simp_all add: OPLWriteReg_20 set_mul_keeps)

lemma slot_index: "i < 2 \<Longrightarrow> (2 * c + i) div 2 = c \<and> (2 * c + i) AND 1 = (i::nat)"
  by (cases "i = 0") (auto simp add: and_one_eq)

lemma write_20_eg_type:
  assumes "0x20 \<le> r" "r \<le> 0x3f" and "c < length (P_CH OPL)" and "i < 2"
    and "slot_array ! nat (r AND 0x1f) = int (2 * c + i)"
  shows "eg_type (the_slot (OPLWriteReg OPL r v) c i) = nat (v AND 0x20)"
proof -
  have n: "nat (slot_array ! nat (r AND 0x1f)) = 2 * c + i"
    by (simp only: assms(5) nat_int)
  have z: "\<not> slot_array ! nat (r AND 0x1f) < 0"
    by (simp add: assms(5))
  have "OPLWriteReg OPL r v = set_mul OPL (2 * c + i) (nat (v AND 0xff))"
    using reg_20_range [OF assms(1,2)] by (simp add: OPLWriteReg_20 n z)
  then show ?thesis
    using assms(3) slot_index [OF assms(4), of c]
    by (simp add: set_mul_def the_slot_with_slot eg_type_bit_of_byte)
qed

section \<open>A chip whose operators are all quiet\<close>

lemma volume_calc_LFO_AM:
  "LFO_AM X = LFO_AM Y \<Longrightarrow> volume_calc X S = volume_calc Y S"
  by (simp add: volume_calc_def)

lemma volume_calc_quiet:
  assumes "slot_inv S" and "LFO_AM OPL \<le> 26" and "int ENV_QUIET \<le> volume S"
  shows "ENV_QUIET \<le> volume_calc OPL S"
proof -
  from assms(1) have v: "0 \<le> volume S" "volume S \<le> 511" and t: "TLL S \<le> 507"
    by (simp_all add: slot_inv_def MAX_ATT_INDEX_def ENV_BITS_def)
  have "LFO_AM OPL AND AMmask S \<le> LFO_AM OPL" by (rule word_and_le2)
  with assms(2) have "LFO_AM OPL AND AMmask S \<le> 26" by simp
  then have l: "unat (LFO_AM OPL AND AMmask S) \<le> 26" by (simp add: word_le_nat_alt)
  have a: "unat (of_nat (TLL S) :: 32 word) = TLL S" using t by (simp add: unat_of_nat)
  have b: "unat (word_of_int (volume S) :: 32 word) = nat (volume S)"
    using v by (intro unat_of_small_int) simp_all
  have c: "unat ((of_nat (TLL S) + word_of_int (volume S)) :: 32 word) = TLL S + nat (volume S)"
    using t v by (subst unat_add_lem [THEN iffD1]) (simp_all add: a b)
  have "unat ((of_nat (TLL S) + word_of_int (volume S) + (LFO_AM OPL AND AMmask S)) :: 32 word)
          = TLL S + nat (volume S) + unat (LFO_AM OPL AND AMmask S)"
    using t v l by (subst unat_add_lem [THEN iffD1]) (simp_all add: c)
  then show ?thesis using assms(3) by (simp add: volume_calc_def)
qed

text \<open>A channel with both operators quiet: the history of operator 1 moves on.\<close>

lemma calc_ch_quiet:
  assumes "c < length (P_CH X)"
    and "ENV_QUIET \<le> volume_calc X (SLOT1 (P_CH X ! c))"
    and "ENV_QUIET \<le> volume_calc X (SLOT2 (P_CH X ! c))"
  shows "output0 (calc_ch T c X) = output0 X + stale (P_CH X ! c)"
    and "P_CH (calc_ch T c X) = (P_CH X)[c := (P_CH X ! c)
           \<lparr>SLOT1 := (SLOT1 (P_CH X ! c))
               \<lparr>op1_out0 := op1_out1 (SLOT1 (P_CH X ! c)), op1_out1 := 0\<rparr>\<rparr>]"
proof -
  let ?X0 = "X\<lparr>phase_modulation := 0, lastChOutput := 0\<rparr>"
  let ?X1 = "ch_op1 T c ?X0"
  have q1: "ENV_QUIET \<le> volume_calc ?X0 (SLOT1 (P_CH ?X0 ! c))"
    using assms(2) by (simp add: volume_calc_def)
  note e = ch_op1_quiet [OF q1]
  have p: "P_CH ?X1 = (P_CH X)[c := (P_CH X ! c)
           \<lparr>SLOT1 := (SLOT1 (P_CH X ! c))
               \<lparr>op1_out0 := op1_out1 (SLOT1 (P_CH X ! c)), op1_out1 := 0\<rparr>\<rparr>]"
    by (simp add: e)
  have o: "output0 ?X1 = output0 X + stale (P_CH X ! c)"
    by (simp add: e add_connect1_output0 stale_def)
  have "volume_calc ?X1 (SLOT2 (P_CH ?X1 ! c)) = volume_calc X (SLOT2 (P_CH X ! c))"
    using assms(1) by (simp add: p volume_calc_def)
  with assms(3) have "ENV_QUIET \<le> volume_calc ?X1 (SLOT2 (P_CH ?X1 ! c))" by simp
  then have i: "ch_op2 T c ?X1 = ?X1" by (rule ch_op2_quiet)
  show "output0 (calc_ch T c X) = output0 X + stale (P_CH X ! c)"
    by (simp add: calc_ch_def Let_def OPL_CALC_CH_def i o)
  show "P_CH (calc_ch T c X) = (P_CH X)[c := (P_CH X ! c)
           \<lparr>SLOT1 := (SLOT1 (P_CH X ! c))
               \<lparr>op1_out0 := op1_out1 (SLOT1 (P_CH X ! c)), op1_out1 := 0\<rparr>\<rparr>]"
    by (simp add: calc_ch_def Let_def OPL_CALC_CH_def i p)
qed

lemma calc_ch_LFO_AM [simp]: "LFO_AM (calc_ch T c X) = LFO_AM X"
  by simp

text \<open>Channels computed one after the other, all of them quiet.\<close>

lemma fold_calc_ch_quiet:
  assumes "distinct cs"
    and "\<forall>c\<in>set cs. c < length (P_CH X) \<and>
           ENV_QUIET \<le> volume_calc X (SLOT1 (P_CH X ! c)) \<and>
           ENV_QUIET \<le> volume_calc X (SLOT2 (P_CH X ! c))"
  shows "output0 (fold (calc_ch T) cs X) = output0 X + sum_list (map (\<lambda>c. stale (P_CH X ! c)) cs) \<and>
         length (P_CH (fold (calc_ch T) cs X)) = length (P_CH X) \<and>
         LFO_AM (fold (calc_ch T) cs X) = LFO_AM X \<and>
         noise_rng (fold (calc_ch T) cs X) = noise_rng X \<and>
         (\<forall>c. c \<notin> set cs \<longrightarrow> P_CH (fold (calc_ch T) cs X) ! c = P_CH X ! c)"
  using assms
proof (induction cs arbitrary: X)
  case Nil
  then show ?case by simp
next
  case (Cons a cs)
  let ?Y = "calc_ch T a X"
  from Cons.prems have a: "a < length (P_CH X)"
    "ENV_QUIET \<le> volume_calc X (SLOT1 (P_CH X ! a))"
    "ENV_QUIET \<le> volume_calc X (SLOT2 (P_CH X ! a))" by simp_all
  note y = calc_ch_quiet [OF a, of T]
  have n: "c \<noteq> a \<Longrightarrow> P_CH ?Y ! c = P_CH X ! c" for c by (simp add: y(2))
  have l: "length (P_CH ?Y) = length (P_CH X)" by (simp add: y(2))
  have v: "volume_calc ?Y S = volume_calc X S" for S by (rule volume_calc_LFO_AM) simp
  from Cons.prems have d: "distinct cs" and na: "a \<notin> set cs" by simp_all
  have q: "\<forall>c\<in>set cs. c < length (P_CH ?Y) \<and>
           ENV_QUIET \<le> volume_calc ?Y (SLOT1 (P_CH ?Y ! c)) \<and>
           ENV_QUIET \<le> volume_calc ?Y (SLOT2 (P_CH ?Y ! c))"
  proof
    fix c assume c: "c \<in> set cs"
    with na have "c \<noteq> a" by auto
    with c Cons.prems(2) show "c < length (P_CH ?Y) \<and>
           ENV_QUIET \<le> volume_calc ?Y (SLOT1 (P_CH ?Y ! c)) \<and>
           ENV_QUIET \<le> volume_calc ?Y (SLOT2 (P_CH ?Y ! c))"
      by (simp add: n l v)
  qed
  have s: "sum_list (map (\<lambda>c. stale (P_CH ?Y ! c)) cs) = sum_list (map (\<lambda>c. stale (P_CH X ! c)) cs)"
  proof -
    have "c \<in> set cs \<Longrightarrow> P_CH ?Y ! c = P_CH X ! c" for c using na n [of c] by auto
    then show ?thesis by (simp cong: map_cong)
  qed
  from Cons.IH [OF d q] show ?case
    by (auto simp add: y(1) s l n)
qed

text \<open>The rhythm voices, all of them quiet, add nothing.\<close>

lemma OPL_CALC_RH_quiet:
  assumes "8 < length (P_CH X)"
    and "\<forall>c\<in>{6, 7, 8}. ENV_QUIET \<le> volume_calc X (SLOT1 (P_CH X ! c)) \<and>
           ENV_QUIET \<le> volume_calc X (SLOT2 (P_CH X ! c))"
  shows "output0 (OPL_CALC_RH T noise X) = output0 X"
proof -
  let ?X0 = "X\<lparr>phase_modulation := 0, lastChOutput := 0\<rparr>"
  let ?X1 = "rh_bd1 T ?X0"
  have q1: "ENV_QUIET \<le> volume_calc ?X0 (SLOT1 (P_CH ?X0 ! 6))"
    using assms(2) by (simp add: volume_calc_def)
  note e = rh_bd1_quiet [OF q1]
  have p: "P_CH ?X1 = (P_CH X)[6 := (P_CH X ! 6)
           \<lparr>SLOT1 := (SLOT1 (P_CH X ! 6))
               \<lparr>op1_out0 := op1_out1 (SLOT1 (P_CH X ! 6)), op1_out1 := 0\<rparr>\<rparr>]"
    by (simp add: e)
  have o: "output0 ?X1 = output0 X" by (simp add: e)
  have v: "volume_calc ?X1 S = volume_calc X S" for S
    by (rule volume_calc_LFO_AM) (simp add: e)
  have s: "SLOT2 (P_CH ?X1 ! 6) = SLOT2 (P_CH X ! 6)" "SLOT7_1 ?X1 = SLOT1 (P_CH X ! 7)"
    "SLOT7_2 ?X1 = SLOT2 (P_CH X ! 7)" "SLOT8_1 ?X1 = SLOT1 (P_CH X ! 8)"
    "SLOT8_2 ?X1 = SLOT2 (P_CH X ! 8)"
    using assms(1) by (simp_all add: p SLOT7_1_def SLOT7_2_def SLOT8_1_def SLOT8_2_def)
  have i: "rh_bd2 T ?X1 = ?X1" "rh_hh T noise ?X1 = ?X1" "rh_sd T noise ?X1 = ?X1"
    "rh_tom T ?X1 = ?X1" "rh_top T ?X1 = ?X1"
    using assms(2)
    by (simp_all only: rh_bd2_quiet rh_hh_quiet rh_sd_quiet rh_tom_quiet rh_top_quiet v s
          insert_iff ball_simps simp_thms)
  show ?thesis by (simp only: OPL_CALC_RH_def i o)
qed

lemma hushed_quiet:
  assumes "hushed OPL" and "c < 9" and "LFO_AM X \<le> 26"
  shows "ENV_QUIET \<le> volume_calc X (SLOT1 (P_CH OPL ! c))"
    and "ENV_QUIET \<le> volume_calc X (SLOT2 (P_CH OPL ! c))"
proof -
  from assms(1,2) have i: "ch_inv (P_CH OPL ! c)" and h: "hushed_ch (P_CH OPL ! c)"
    by (simp_all add: hushed_def chip_inv_def list_all_length)
  from i have s: "slot_inv (SLOT1 (P_CH OPL ! c))" "slot_inv (SLOT2 (P_CH OPL ! c))"
    by (simp_all add: ch_inv_def)
  from h show "ENV_QUIET \<le> volume_calc X (SLOT1 (P_CH OPL ! c))"
    by (intro volume_calc_quiet s assms(3)) (simp add: hushed_ch_def)
  from h show "ENV_QUIET \<le> volume_calc X (SLOT2 (P_CH OPL ! c))"
    by (intro volume_calc_quiet s assms(3)) (simp add: hushed_ch_def)
qed

lemma hushed_length: "hushed OPL \<Longrightarrow> length (P_CH OPL) = 9"
  by (simp add: hushed_def chip_inv_def)

text \<open>
  The accumulator after the channels of a chip whose operators are all quiet: what the
  first operators computed one sample ago, of six or of nine channels.
\<close>

lemma calc_channels_hushed:
  assumes "hushed OPL"
  shows "output0 (calc_channels T rh OPL) =
           sum_list (map (\<lambda>c. stale (P_CH OPL ! c)) [0, 1, 2, 3, 4, 5]) +
           (if rh = 0 then sum_list (map (\<lambda>c. stale (P_CH OPL ! c)) [6, 7, 8]) else 0)"
proof -
  let ?X = "advance_lfo (OPL\<lparr>output0 := 0\<rparr>)"
  have l: "LFO_AM ?X \<le> 26" by (rule LFO_AM_advance_lfo)
  have p: "P_CH ?X = P_CH OPL" by simp
  have n: "length (P_CH ?X) = 9" using assms by (simp add: hushed_length)
  have z: "output0 ?X = 0" by (simp add: advance_lfo_def Let_def)
  have q: "c < 9 \<Longrightarrow> c < length (P_CH ?X) \<and>
           ENV_QUIET \<le> volume_calc ?X (SLOT1 (P_CH ?X ! c)) \<and>
           ENV_QUIET \<le> volume_calc ?X (SLOT2 (P_CH ?X ! c))" for c
    using hushed_quiet [OF assms _ l, of c] n by (simp only: p; simp)
  show ?thesis
  proof (cases "rh = 0")
    case True
    have "calc_channels T rh OPL = fold (calc_ch T) [0, 1, 2, 3, 4, 5, 6, 7, 8] ?X"
      using True by (simp add: calc_channels_def Let_def)
    moreover have "output0 (fold (calc_ch T) [0, 1, 2, 3, 4, 5, 6, 7, 8] ?X) =
        output0 ?X + sum_list (map (\<lambda>c. stale (P_CH ?X ! c)) [0, 1, 2, 3, 4, 5, 6, 7, 8])"
      by (rule fold_calc_ch_quiet [THEN conjunct1], simp, intro ballI q, auto)
    ultimately show ?thesis using True by (simp only: z p; simp)
  next
    case False
    let ?M = "fold (calc_ch T) [0, 1, 2, 3, 4, 5] ?X"
    have m: "output0 ?M = output0 ?X + sum_list (map (\<lambda>c. stale (P_CH ?X ! c)) [0, 1, 2, 3, 4, 5]) \<and>
         length (P_CH ?M) = length (P_CH ?X) \<and>
         LFO_AM ?M = LFO_AM ?X \<and>
         noise_rng ?M = noise_rng ?X \<and>
         (\<forall>c. c \<notin> set [0, 1, 2, 3, 4, 5] \<longrightarrow> P_CH ?M ! c = P_CH ?X ! c)"
      by (rule fold_calc_ch_quiet, simp, intro ballI q, auto)
    then have k: "P_CH ?M ! 6 = P_CH ?X ! 6" "P_CH ?M ! 7 = P_CH ?X ! 7" "P_CH ?M ! 8 = P_CH ?X ! 8"
      by simp_all
    have v: "volume_calc ?M S = volume_calc ?X S" for S
      by (rule volume_calc_LFO_AM) (simp only: m)
    have r: "output0 (OPL_CALC_RH T b ?M) = output0 ?M" for b
    proof (rule OPL_CALC_RH_quiet)
      show "8 < length (P_CH ?M)" using m n by simp
      show "\<forall>c\<in>{6, 7, 8}. ENV_QUIET \<le> volume_calc ?M (SLOT1 (P_CH ?M ! c)) \<and>
           ENV_QUIET \<le> volume_calc ?M (SLOT2 (P_CH ?M ! c))"
        using q [of 6] q [of 7] q [of 8] by (simp only: v k insert_iff ball_simps; simp)
    qed
    have "output0 (calc_channels T rh OPL) = output0 (OPL_CALC_RH T (noise_rng ?M AND 1 \<noteq> 0) ?M)"
      using False by (simp add: calc_channels_def Let_def)
    also have "\<dots> = output0 ?M" by (rule r)
    finally have "output0 (calc_channels T rh OPL) = output0 ?M" .
    with m False show ?thesis by (simp only: z p; simp)
  qed
qed

lemma one_sample_hushed:
  assumes "hushed OPL" and "eg_timer_overflow OPL \<noteq> 0"
  shows "\<exists>O'. one_sample T rh OPL =
           Some (store_sample (sum_list (map (\<lambda>c. stale (P_CH OPL ! c)) [0, 1, 2, 3, 4, 5]) +
                   (if rh = 0 then sum_list (map (\<lambda>c. stale (P_CH OPL ! c)) [6, 7, 8]) else 0)), O')"
  using one_sample_total [OF assms(2), of T rh] by (simp only: calc_channels_hushed [OF assms(1)])

text \<open>The key switches leave the attenuation and the history of an operator alone.\<close>

lemma FM_KEY_keeps [simp]:
  "volume (FM_KEYON S k) = volume S" "volume (FM_KEYOFF S k) = volume S"
  "connect1 (FM_KEYON S k) = connect1 S" "connect1 (FM_KEYOFF S k) = connect1 S"
  "op1_out1 (FM_KEYON S k) = op1_out1 S" "op1_out1 (FM_KEYOFF S k) = op1_out1 S"
  by (simp_all add: FM_KEYON_def FM_KEYOFF_def Let_def)

lemma key_slot_keeps:
  assumes "\<And>S k. g (FM_KEYON S k) = g S" and "\<And>S k. g (FM_KEYOFF S k) = g S"
  shows "g (the_slot (key_slot b k c' i' OPL) c i) = g (the_slot OPL c i)"
  unfolding key_slot_def by (rule with_slot_keeps) (simp add: assms)

lemma the_slot_bd_globals [simp]:
  "the_slot (OPL\<lparr>lfo_am_depth := a, lfo_pm_depth_range := p, rhythm := r\<rparr>) c i = the_slot OPL c i"
  by (simp add: the_slot_def)

lemma write_bd_keeps:
  assumes "\<And>S k. g (FM_KEYON S k) = g S" and "\<And>S k. g (FM_KEYOFF S k) = g S"
  shows "g (the_slot (write_bd OPL v) c i) = g (the_slot OPL c i)"
  by (simp add: write_bd_def Let_def key_slot_keeps [where g = g, OF assms])

lemma write_bd_stale: "stale (P_CH (write_bd OPL v) ! c) = stale (P_CH OPL ! c)"
  using write_bd_keeps [where g = connect1, of OPL v c 0] write_bd_keeps [where g = op1_out1, of OPL v c 0]
  by (simp add: stale_def the_slot_def SLOT_def)

lemma hushed_write_bd: "hushed OPL \<Longrightarrow> hushed (write_bd OPL v)"
  using write_bd_keeps [where g = volume, of OPL v _ 0] write_bd_keeps [where g = volume, of OPL v _ 1]
  by (simp add: hushed_def chip_inv_write_bd list_all_length hushed_ch_def the_slot_def SLOT_def)

lemma OPLWriteReg_bd: "OPLWriteReg OPL 0xbd v = write_bd OPL (nat (v AND 0xff))"
  by (simp add: OPLWriteReg_a0)

section \<open>The samples of one call, one after the other\<close>

lemma sample_loop_length:
  "sample_loop T rh n OPL = Some (xs, O') \<Longrightarrow> length xs = n"
proof (induction n arbitrary: OPL xs)
  case 0
  then show ?case by simp
next
  case (Suc n)
  from Suc.prems obtain x O1 ys where
    "sample_loop T rh n O1 = Some (ys, O')" and "xs = x # ys"
    by (auto split: option.splits)
  with Suc.IH show ?case by simp
qed

lemma sample_loop_rhythm_kept:
  "sample_loop T rh n OPL = Some (xs, O') \<Longrightarrow> rhythm O' = rhythm OPL"
proof (induction n arbitrary: OPL xs)
  case 0
  then show ?case by simp
next
  case (Suc n)
  from Suc.prems obtain x O1 ys where
    s: "one_sample T rh OPL = Some (x, O1)" and r: "sample_loop T rh n O1 = Some (ys, O')"
    by (auto split: option.splits)
  from Suc.IH [OF r] one_sample_rhythm [OF s] show ?case by simp
qed

lemma sample_loop_append:
  "sample_loop T rh i OPL = Some (xs, O1) \<Longrightarrow> sample_loop T rh m O1 = Some (ys, O2) \<Longrightarrow>
   sample_loop T rh (i + m) OPL = Some (xs @ ys, O2)"
proof (induction i arbitrary: OPL xs)
  case 0
  then show ?case by simp
next
  case (Suc i)
  from Suc.prems(1) obtain x O0 zs where
    s: "one_sample T rh OPL = Some (x, O0)" and r: "sample_loop T rh i O0 = Some (zs, O1)"
    and x: "xs = x # zs"
    by (auto split: option.splits)
  from Suc.IH [OF r Suc.prems(2)] s x show ?case by simp
qed

text \<open>The first sample of a call, and the samples after it.\<close>

lemma sample_loop_first:
  assumes "eg_timer_overflow OPL \<noteq> 0"
  shows "\<exists>ys O2. sample_loop T rh (Suc n) OPL =
           Some (store_sample (output0 (calc_channels T rh OPL)) # ys, O2) \<and> length ys = n"
proof -
  from one_sample_total [OF assms, of T rh] obtain O1 where
    s: "one_sample T rh OPL = Some (store_sample (output0 (calc_channels T rh OPL)), O1)" by blast
  with assms have "eg_timer_overflow O1 \<noteq> 0" by (simp add: one_sample_overflow)
  from sample_loop_total [OF this, of T rh n] obtain ys O2 where
    r: "sample_loop T rh n O1 = Some (ys, O2)" by blast
  from s r sample_loop_length [OF r] show ?thesis by simp
qed

lemma calc_channels_output0:
  "output0 (calc_channels T rh OPL) =
     output0
       (if rh = 0
        then calc_ch T 8 (calc_ch T 7 (calc_ch T 6
               (calc_ch T 5 (calc_ch T 4 (calc_ch T 3 (calc_ch T 2 (calc_ch T 1 (calc_ch T 0
                 (advance_lfo (OPL\<lparr>output0 := 0\<rparr>))))))))))
        else OPL_CALC_RH T
               (noise_rng (calc_ch T 5 (calc_ch T 4 (calc_ch T 3 (calc_ch T 2 (calc_ch T 1 (calc_ch T 0
                 (advance_lfo (OPL\<lparr>output0 := 0\<rparr>)))))))) AND 1 \<noteq> 0)
               (calc_ch T 5 (calc_ch T 4 (calc_ch T 3 (calc_ch T 2 (calc_ch T 1 (calc_ch T 0
                 (advance_lfo (OPL\<lparr>output0 := 0\<rparr>)))))))))"
  by (simp add: calc_channels_def Let_def del: calc_ch_fields OPL_CALC_CH_fields advance_lfo_fields)

lemma update_one_first:
  assumes "eg_timer_overflow OPL \<noteq> 0"
  shows "\<exists>ys O2. ym3812_update_one T OPL (Suc n) =
           Some (store_sample (output0 (calc_channels T (rhythm OPL AND 0x20) OPL)) # ys, O2) \<and>
           length ys = n"
  unfolding ym3812_update_one_def by (rule sample_loop_first [OF assms])

lemma update_one_at:
  assumes "eg_timer_overflow OPL \<noteq> 0" and "ym3812_update_one T OPL i = Some (xs, O1)"
  shows "\<exists>ys O2. ym3812_update_one T OPL (i + Suc n) =
           Some (xs @ store_sample (output0 (calc_channels T (rhythm O1 AND 0x20) O1)) # ys, O2) \<and>
           length ys = n"
proof -
  let ?rh = "rhythm OPL AND 0x20"
  from assms(2) have a: "sample_loop T ?rh i OPL = Some (xs, O1)"
    by (simp add: ym3812_update_one_def)
  have r: "rhythm O1 = rhythm OPL" by (rule sample_loop_rhythm_kept [OF a])
  have "eg_timer_overflow O1 \<noteq> 0" using assms(1) sample_loop_overflow [OF a] by simp
  from sample_loop_first [OF this, of T ?rh n] obtain ys O2 where
    b: "sample_loop T ?rh (Suc n) O1 =
          Some (store_sample (output0 (calc_channels T ?rh O1)) # ys, O2)" and l: "length ys = n"
    by blast
  from sample_loop_append [OF a b] l show ?thesis
    by (simp only: ym3812_update_one_def r) blast
qed

lemma update_one_hushed:
  assumes "hushed OPL" and "eg_timer_overflow OPL \<noteq> 0"
  shows "\<exists>O2. ym3812_update_one T OPL 1 =
           Some ([store_sample (sum_list (map (\<lambda>c. stale (P_CH OPL ! c)) [0, 1, 2, 3, 4, 5]) +
                   (if rhythm OPL AND 0x20 = 0
                    then sum_list (map (\<lambda>c. stale (P_CH OPL ! c)) [6, 7, 8]) else 0))], O2)"
  using one_sample_hushed [OF assms, of T "rhythm OPL AND 0x20"]
  by (auto simp add: ym3812_update_one_def)

lemma OPLWriteReg_overflow [simp]:
  "eg_timer_overflow (OPLWriteReg OPL r v) = eg_timer_overflow OPL"
  by simp

lemma slot_inv_rest_slot: "slot_inv rest_slot"
  by (simp add: slot_inv_def rest_slot_def zero_slot_def MAX_ATT_INDEX_def ENV_BITS_def)

lemma ch_inv_rest_ch: "ch_inv rest_ch"
  by (simp add: ch_inv_def rest_ch_def slot_inv_rest_slot zero_ch_def)

lemma hushed_ch_rest_ch: "hushed_ch rest_ch"
  by (simp add: hushed_ch_def rest_ch_def rest_slot_def ENV_QUIET_192 MAX_ATT_INDEX_def ENV_BITS_def)

lemma rest_chip_globals:
  "LFO_AM rest_chip = 0" "eg_timer_overflow rest_chip \<noteq> 0"
  by (simp_all add: rest_chip_def unit_rate_chip_def OPLCreate_def EG_SH_def)

text \<open>A chip at rest in which some first operators keep an output from one sample ago.\<close>

lemma hushed_rest_history:
  assumes "length chs = 9" and "\<forall>CH\<in>set chs. \<exists>x. CH = rest_ch\<lparr>SLOT1 := rest_slot\<lparr>op1_out1 := x\<rparr>\<rparr>"
  shows "hushed (rest_chip\<lparr>P_CH := chs\<rparr>)"
proof -
  have "ch_inv CH \<and> hushed_ch CH" if "CH \<in> set chs" for CH
  proof -
    from that assms(2) obtain x where "CH = rest_ch\<lparr>SLOT1 := rest_slot\<lparr>op1_out1 := x\<rparr>\<rparr>" by blast
    then show ?thesis
      using ch_inv_rest_ch hushed_ch_rest_ch slot_inv_rest_slot
      by (simp add: ch_inv_def hushed_ch_def slot_inv_def rest_ch_def rest_slot_def)
  qed
  then show ?thesis
    using assms(1) by (simp add: hushed_def chip_inv_def list_all_iff rest_chip_globals)
qed

lemma rest_ch_history: "rest_ch = rest_ch\<lparr>SLOT1 := rest_slot\<lparr>op1_out1 := 0\<rparr>\<rparr>"
  by (simp add: rest_ch_def rest_slot_def zero_slot_def)

lemma hushed_drum_chip: "hushed drum_chip"
  unfolding drum_chip_def
proof (rule hushed_rest_history)
  show "length ((replicate 9 rest_ch)[6 := rest_ch\<lparr>SLOT1 := rest_slot\<lparr>op1_out1 := 100\<rparr>\<rparr>]) = 9"
    by simp
  show "\<forall>CH\<in>set ((replicate 9 rest_ch)[6 := rest_ch\<lparr>SLOT1 := rest_slot\<lparr>op1_out1 := 100\<rparr>\<rparr>]).
          \<exists>x. CH = rest_ch\<lparr>SLOT1 := rest_slot\<lparr>op1_out1 := x\<rparr>\<rparr>"
  proof
    fix CH assume "CH \<in> set ((replicate 9 rest_ch)[6 := rest_ch\<lparr>SLOT1 := rest_slot\<lparr>op1_out1 := 100\<rparr>\<rparr>])"
    then have "CH = rest_ch\<lparr>SLOT1 := rest_slot\<lparr>op1_out1 := 100\<rparr>\<rparr> \<or> CH = rest_ch"
      using set_update_subset_insert [of "replicate 9 rest_ch" 6] by auto
    then show "\<exists>x. CH = rest_ch\<lparr>SLOT1 := rest_slot\<lparr>op1_out1 := x\<rparr>\<rparr>"
      using rest_ch_history by metis
  qed
qed

lemma stale_rest: "stale rest_ch = 0" "stale (rest_ch\<lparr>SLOT1 := rest_slot\<lparr>op1_out1 := x\<rparr>\<rparr>) = x"
  by (simp_all add: stale_def rest_ch_def rest_slot_def zero_slot_def)

lemma drum_chip_stale:
  "stale (P_CH drum_chip ! 0) = 0" "stale (P_CH drum_chip ! Suc 0) = 0"
  "stale (P_CH drum_chip ! 2) = 0" "stale (P_CH drum_chip ! 3) = 0"
  "stale (P_CH drum_chip ! 4) = 0" "stale (P_CH drum_chip ! 5) = 0"
  "stale (P_CH drum_chip ! 6) = 100" "stale (P_CH drum_chip ! 7) = 0"
  "stale (P_CH drum_chip ! 8) = 0"
  by (simp_all add: drum_chip_def rest_chip_def stale_rest)

lemma store_sample_small: "- 32768 \<le> x \<Longrightarrow> x < 32768 \<Longrightarrow> store_sample x = x"
  by (simp add: store_sample_def signed_take_bit_int_eq_self)

section \<open>Storing the accumulator\<close>

lemma store_sample_mod: "store_sample x = (x + 32768) mod 65536 - 32768"
  by (simp add: store_sample_def signed_take_bit_eq_take_bit_shift take_bit_eq_mod)

lemma store_sample_above:
  assumes "MAXOUT < x" and "x < MAXOUT + 65536"
  shows "store_sample x = x - 65536" and "store_sample x \<noteq> limit x MAXOUT MINOUT"
proof -
  from assms have "(x + 32768) mod 65536 = x + 32768 - 65536"
    by (simp add: MAXOUT_def mod_pos_geq)
  then show a: "store_sample x = x - 65536" by (simp add: store_sample_mod)
  from assms show "store_sample x \<noteq> limit x MAXOUT MINOUT"
    by (simp add: a limit_def MAXOUT_def)
qed

lemma store_sample_below:
  assumes "x < MINOUT" and "MINOUT - 65536 < x"
  shows "store_sample x = x + 65536" and "store_sample x \<noteq> limit x MAXOUT MINOUT"
proof -
  from assms have b: "0 \<le> x + 32768 + 65536" "x + 32768 + 65536 < 65536"
    by (simp_all add: MINOUT_def)
  have "(x + 32768) mod 65536 = (x + 32768 + 65536) mod 65536"
    by (rule mod_add_self2 [symmetric])
  also have "\<dots> = x + 32768 + 65536" using b by (rule mod_pos_pos_trivial)
  finally show a: "store_sample x = x + 65536" by (simp add: store_sample_mod)
  from assms show "store_sample x \<noteq> limit x MAXOUT MINOUT"
    by (simp add: a limit_def MAXOUT_def MINOUT_def)
qed

lemma store_sample_inside:
  "MINOUT \<le> x \<Longrightarrow> x \<le> MAXOUT \<Longrightarrow> store_sample x = x"
  by (simp add: store_sample_small MINOUT_def MAXOUT_def)

lemma loud_chip_stale:
  "stale (P_CH loud_chip ! 0) = 4084" "stale (P_CH loud_chip ! Suc 0) = 4084"
  "stale (P_CH loud_chip ! 2) = 4084" "stale (P_CH loud_chip ! 3) = 4084"
  "stale (P_CH loud_chip ! 4) = 4084" "stale (P_CH loud_chip ! 5) = 4084"
  "stale (P_CH loud_chip ! 6) = 4084" "stale (P_CH loud_chip ! 7) = 4084"
  "stale (P_CH loud_chip ! 8) = 4084"
  by (simp_all add: loud_chip_def rest_chip_def stale_rest)

lemma hushed_loud_chip: "hushed loud_chip"
  unfolding loud_chip_def by (rule hushed_rest_history) auto

lemma loud_chip_acc: "output0 (calc_channels T (rhythm loud_chip AND 0x20) loud_chip) = 36756"
proof -
  have "rhythm loud_chip = 0"
    by (simp add: loud_chip_def rest_chip_def unit_rate_chip_def OPLCreate_def)
  then show ?thesis
    by (simp add: calc_channels_hushed [OF hushed_loud_chip] loud_chip_stale)
qed

section \<open>What a reset keeps of an operator\<close>

lemma CALC_FCSLOT_history [simp]: "op1_out1 (CALC_FCSLOT CH S) = op1_out1 S"
  by (simp add: CALC_FCSLOT_def Let_def set_eg_ar_def set_eg_dr_def set_eg_rr_def)

lemma set_eg_history [simp]:
  "op1_out1 (set_eg_ar S) = op1_out1 S" "op1_out1 (set_eg_dr S) = op1_out1 S"
  "op1_out1 (set_eg_rr S) = op1_out1 S"
  by (simp_all add: set_eg_ar_def set_eg_dr_def set_eg_rr_def)

lemma update_block_fnum_history:
  "op1_out1 (SLOT (update_block_fnum X CH bf) i) = op1_out1 (SLOT CH i)"
  by (simp add: update_block_fnum_def Let_def SLOT_def)

lemma the_slot_update_ch:
  assumes "g (SLOT U i) = g (SLOT (P_CH X ! c') i)"
  shows "g (the_slot (X\<lparr>P_CH := (P_CH X)[c' := U]\<rparr>) c i) = g (the_slot X c i)"
proof (cases "c' < length (P_CH X) \<and> c = c'")
  case True
  then show ?thesis using assms by (simp add: the_slot_def)
next
  case False
  then show ?thesis by (auto simp add: the_slot_def list_update_beyond not_less)
qed

lemma write_fnum_history:
  "op1_out1 (the_slot (write_fnum X r v) c i) = op1_out1 (the_slot X c i)"
proof -
  let ?O1 = "key_slot (v AND 0x20 \<noteq> 0) 1 (r AND 0x0f) 1 (key_slot (v AND 0x20 \<noteq> 0) 1 (r AND 0x0f) 0 X)"
  have k: "op1_out1 (the_slot ?O1 c i) = op1_out1 (the_slot X c i)"
    by (simp add: key_slot_keeps [where g = op1_out1])
  have u: "op1_out1 (the_slot (Y\<lparr>P_CH := (P_CH Y)[c' := update_block_fnum Y (P_CH Y ! c') bf]\<rparr>) c i)
             = op1_out1 (the_slot Y c i)" for Y c' bf
    by (rule the_slot_update_ch) (rule update_block_fnum_history)
  show ?thesis
    unfolding write_fnum_def Let_def
    by (intro if_pred [of _ "\<lambda>Y. op1_out1 (the_slot Y c i) = op1_out1 (the_slot X c i)"])
       (simp_all only: u k)
qed

lemma OPLWriteReg_history:
  "op1_out1 (the_slot (OPLWriteReg X r v) c i) = op1_out1 (the_slot X c i)"
proof (rule OPLWriteReg_arms [where P = "\<lambda>Y. op1_out1 (the_slot Y c i) = op1_out1 (the_slot X c i)"])
  show "op1_out1 (the_slot X c i) = op1_out1 (the_slot X c i)" ..
  show "op1_out1 (the_slot (X\<lparr>wavesel := w\<rparr>) c i) = op1_out1 (the_slot X c i)" for w
    by (simp add: the_slot_def)
  show "op1_out1 (the_slot (X\<lparr>mode := w\<rparr>) c i) = op1_out1 (the_slot X c i)" for w
    by (simp add: the_slot_def)
  show "op1_out1 (the_slot (set_mul X s w) c i) = op1_out1 (the_slot X c i)" for s w
    unfolding set_mul_def by (rule with_slot_keeps) simp
  show "op1_out1 (the_slot (set_ksl_tl X s w) c i) = op1_out1 (the_slot X c i)" for s w
    unfolding set_ksl_tl_def by (rule with_slot_keeps) (simp add: Let_def)
  show "op1_out1 (the_slot (set_ar_dr X s w) c i) = op1_out1 (the_slot X c i)" for s w
    unfolding set_ar_dr_def by (rule with_slot_keeps) (simp add: Let_def)
  show "op1_out1 (the_slot (set_sl_rr X s w) c i) = op1_out1 (the_slot X c i)" for s w
    unfolding set_sl_rr_def by (rule with_slot_keeps) (simp add: Let_def)
  show "op1_out1 (the_slot (write_bd X w) c i) = op1_out1 (the_slot X c i)" for w
    by (rule write_bd_keeps) simp_all
  show "op1_out1 (the_slot (write_fnum X q w) c i) = op1_out1 (the_slot X c i)" for q w
    by (rule write_fnum_history)
  show "op1_out1 (the_slot (write_fb_con X q w) c i) = op1_out1 (the_slot X c i)" for q w
    unfolding write_fb_con_def by (rule with_slot_keeps) (simp add: Let_def)
  show "op1_out1 (the_slot (with_slot c' i' (\<lambda>CH S. S\<lparr>wavetable := w\<rparr>) X) c i)
          = op1_out1 (the_slot X c i)" for c' i' w
    by (rule with_slot_keeps) simp
qed

lemma write_zeros_history:
  "op1_out1 (the_slot (write_zeros X rs) c i) = op1_out1 (the_slot X c i)"
  by (induction rs arbitrary: X) (simp_all add: OPLWriteReg_history)

lemma the_slot_status [simp]:
  "the_slot (OPL_STATUS_RESET X f) c i = the_slot X c i"
  "the_slot (X\<lparr>eg_timer := t, eg_cnt := e, noise_rng := n, mode := m\<rparr>) c i = the_slot X c i"
  by (simp_all add: the_slot_def OPL_STATUS_RESET_def Let_def)

text \<open>After a reset every operator is off and routed to the output, with its old history.\<close>

lemma the_slot_OPLResetChip:
  assumes "c < length (P_CH X)"
  shows "state (the_slot (OPLResetChip X) c i) = EG_OFF"
    and "volume (the_slot (OPLResetChip X) c i) = MAX_ATT_INDEX"
    and "connect1 (the_slot (OPLResetChip X) c i) = To_output"
    and "op1_out1 (the_slot (OPLResetChip X) c i) = op1_out1 (the_slot X c i)"
proof -
  let ?O3 = "write_zeros (OPLWriteReg (OPLWriteReg (OPLWriteReg (OPLWriteReg
     (OPL_STATUS_RESET (X\<lparr>eg_timer := 0, eg_cnt := 0, noise_rng := 1, mode := 0\<rparr>) 0x7f)
       0x01 0) 0x02 0) 0x03 0) 0x04 0) reset_regs"
  have l: "c < length (P_CH ?O3)"
    using assms OPLResetChip_clocks(4) [of X] by (simp add: OPLResetChip_def Let_def)
  have e: "the_slot (OPLResetChip X) c i = reset_slot (the_slot ?O3 c i)"
    unfolding OPLResetChip_def Let_def
    by (rule the_slot_map [OF l, where f = "\<lambda>CH. reset_slot"])
  show "state (the_slot (OPLResetChip X) c i) = EG_OFF"
    and "volume (the_slot (OPLResetChip X) c i) = MAX_ATT_INDEX"
    and "connect1 (the_slot (OPLResetChip X) c i) = To_output"
    by (simp_all add: e reset_slot_def)
  show "op1_out1 (the_slot (OPLResetChip X) c i) = op1_out1 (the_slot X c i)"
    by (simp add: e reset_slot_def write_zeros_history OPLWriteReg_history)
qed

lemma hushed_OPLResetChip:
  assumes "chip_inv X"
  shows "hushed (OPLResetChip X)"
proof -
  have n: "length (P_CH X) = 9" using assms by (simp add: chip_inv_def)
  have "hushed_ch (P_CH (OPLResetChip X) ! c)" if "c < 9" for c
    using the_slot_OPLResetChip(2) [of c X 0] the_slot_OPLResetChip(2) [of c X 1] that n
    by (simp add: hushed_ch_def the_slot_def SLOT_def ENV_QUIET_192 MAX_ATT_INDEX_def ENV_BITS_def)
  then show ?thesis
    using n by (simp add: hushed_def chip_inv_OPLResetChip [OF assms] list_all_length)
qed

lemma stale_OPLResetChip:
  "c < length (P_CH X) \<Longrightarrow> stale (P_CH (OPLResetChip X) ! c) = op1_out1 (SLOT1 (P_CH X ! c))"
  using the_slot_OPLResetChip(3,4) [of c X 0] by (simp add: stale_def the_slot_def SLOT_def)

text \<open>The rhythm flag after a reset: register \<^verbatim>\<open>0xbd\<close> is among those written with 0.\<close>

lemma rhythm_other_arms:
  "nat (r AND 0xff) AND 0xe0 \<noteq> 0xa0 \<Longrightarrow> rhythm (OPLWriteReg X r v) = rhythm X"
  by (simp add: OPLWriteReg_def Let_def)

lemma rhythm_write_zero:
  "rhythm (OPLWriteReg X r 0) = 0 \<or> rhythm (OPLWriteReg X r 0) = rhythm X"
proof (cases "nat (r AND 0xff) AND 0xe0 = 0xa0")
  case True
  then show ?thesis by (simp add: OPLWriteReg_a0 write_bd_rhythm)
next
  case False
  then show ?thesis by (simp add: rhythm_other_arms)
qed

lemma rhythm_write_bd_zero: "rhythm (OPLWriteReg X 0xbd 0) = 0"
  by (simp add: OPLWriteReg_bd write_bd_rhythm)

lemma rhythm_write_zeros:
  "0xbd \<in> set rs \<or> rhythm X = 0 \<Longrightarrow> rhythm (write_zeros X rs) = 0"
proof (induction rs arbitrary: X)
  case Nil
  then show ?case by simp
next
  case (Cons r rs)
  show ?case
  proof (cases "r = 0xbd")
    case True
    then show ?thesis using Cons.IH [of "OPLWriteReg X r 0"] by (simp add: rhythm_write_bd_zero)
  next
    case False
    with Cons.prems have "0xbd \<in> set rs \<or> rhythm (OPLWriteReg X r 0) = 0"
      using rhythm_write_zero [of X r] by auto
    then show ?thesis using Cons.IH [of "OPLWriteReg X r 0"] by simp
  qed
qed

lemma rhythm_OPLResetChip: "rhythm (OPLResetChip X) = 0"
proof -
  have "(0xbd::int) \<in> set reset_regs" by (simp add: reset_regs_def)
  then show ?thesis by (simp add: OPLResetChip_def Let_def rhythm_write_zeros)
qed

lemma all_off_OPLResetChip: "all_off (OPLResetChip X)"
proof -
  have "state (SLOT1 (P_CH (OPLResetChip X) ! c)) = EG_OFF \<and>
        volume (SLOT1 (P_CH (OPLResetChip X) ! c)) = MAX_ATT_INDEX \<and>
        state (SLOT2 (P_CH (OPLResetChip X) ! c)) = EG_OFF \<and>
        volume (SLOT2 (P_CH (OPLResetChip X) ! c)) = MAX_ATT_INDEX"
    if "c < length (P_CH X)" for c
    using the_slot_OPLResetChip(1,2) [OF that, of 0] the_slot_OPLResetChip(1,2) [OF that, of 1]
    by (simp add: the_slot_def SLOT_def)
  then show ?thesis by (simp add: all_off_def list_all_length)
qed

text \<open>
  The first sample after a reset is the sum of what the first operators of the nine
  channels computed before it.
\<close>

lemma first_sample_after_reset:
  assumes "chip_inv X" and "eg_timer_overflow X \<noteq> 0"
  shows "\<exists>O2. ym3812_update_one T (OPLResetChip X) 1 =
           Some ([store_sample (sum_list (map (\<lambda>c. op1_out1 (SLOT1 (P_CH X ! c)))
                    [0, 1, 2, 3, 4, 5, 6, 7, 8]))], O2)"
proof -
  have n: "length (P_CH X) = 9" using assms(1) by (simp add: chip_inv_def)
  have o: "eg_timer_overflow (OPLResetChip X) \<noteq> 0" using assms(2) by simp
  have s: "c < 9 \<Longrightarrow> stale (P_CH (OPLResetChip X) ! c) = op1_out1 (SLOT1 (P_CH X ! c))" for c
    using stale_OPLResetChip [of c X] n by simp
  from update_one_hushed [OF hushed_OPLResetChip [OF assms(1)] o, of T]
  show ?thesis by (simp add: rhythm_OPLResetChip s add.assoc)
qed

lemma chip_inv_played_chip: "chip_inv played_chip"
proof -
  have "ch_inv (rest_ch\<lparr>SLOT1 := rest_slot\<lparr>state := EG_SUS, volume := 0, key := 1,
                                         op1_out1 := 100\<rparr>\<rparr>)"
    using ch_inv_rest_ch slot_inv_rest_slot
    by (simp add: ch_inv_def slot_inv_def MAX_ATT_INDEX_def ENV_BITS_def)
  moreover have "list_all ch_inv (replicate 9 rest_ch)"
    by (simp add: list_all_iff ch_inv_rest_ch)
  ultimately show ?thesis
    by (simp add: played_chip_def chip_inv_def list_all_update rest_chip_globals)
qed

lemma played_chip_history:
  "op1_out1 (SLOT1 (P_CH played_chip ! 0)) = 100" "op1_out1 (SLOT1 (P_CH played_chip ! Suc 0)) = 0"
  "op1_out1 (SLOT1 (P_CH played_chip ! 2)) = 0" "op1_out1 (SLOT1 (P_CH played_chip ! 3)) = 0"
  "op1_out1 (SLOT1 (P_CH played_chip ! 4)) = 0" "op1_out1 (SLOT1 (P_CH played_chip ! 5)) = 0"
  "op1_out1 (SLOT1 (P_CH played_chip ! 6)) = 0" "op1_out1 (SLOT1 (P_CH played_chip ! 7)) = 0"
  "op1_out1 (SLOT1 (P_CH played_chip ! 8)) = 0"
  by (simp_all add: played_chip_def rest_chip_def rest_ch_def rest_slot_def zero_slot_def)

section \<open>Writing a register twice\<close>

lemma with_slot_beyond: "\<not> c < length (P_CH OPL) \<Longrightarrow> with_slot c i f OPL = OPL"
  by (simp add: with_slot_def Let_def list_update_beyond not_less)

lemma with_slot_idem:
  assumes "\<And>CH S. f (SLOT_set i (f CH S) CH) (f CH S) = f CH S"
  shows "with_slot c i f (with_slot c i f OPL) = with_slot c i f OPL"
proof (cases "c < length (P_CH OPL)")
  case True
  then show ?thesis by (simp add: with_slot_def Let_def assms)
next
  case False
  then show ?thesis by (simp add: with_slot_beyond)
qed

lemma CALC_FCSLOT_SLOT_set [simp]: "CALC_FCSLOT (SLOT_set i S' CH) S = CALC_FCSLOT CH S"
  by (simp add: CALC_FCSLOT_def)

lemma CALC_FCSLOT_mul_idem:
  "CALC_FCSLOT CH ((CALC_FCSLOT CH (S\<lparr>mul := m, KSR := k, eg_type := e, vib := vb, AMmask := a\<rparr>))
       \<lparr>mul := m, KSR := k, eg_type := e, vib := vb, AMmask := a\<rparr>)
     = CALC_FCSLOT CH (S\<lparr>mul := m, KSR := k, eg_type := e, vib := vb, AMmask := a\<rparr>)"
  by (simp add: CALC_FCSLOT_def Let_def set_eg_ar_def set_eg_dr_def set_eg_rr_def)

lemma set_mul_idem: "set_mul (set_mul OPL s v) s v = set_mul OPL s v"
  unfolding set_mul_def by (rule with_slot_idem) (simp add: CALC_FCSLOT_mul_idem)

lemma set_ksl_tl_idem: "set_ksl_tl (set_ksl_tl OPL s v) s v = set_ksl_tl OPL s v"
  unfolding set_ksl_tl_def by (rule with_slot_idem) (simp add: Let_def)

lemma set_ar_dr_idem: "set_ar_dr (set_ar_dr OPL s v) s v = set_ar_dr OPL s v"
  unfolding set_ar_dr_def
  by (rule with_slot_idem) (simp add: Let_def set_eg_ar_def set_eg_dr_def)

lemma set_sl_rr_idem: "set_sl_rr (set_sl_rr OPL s v) s v = set_sl_rr OPL s v"
  unfolding set_sl_rr_def
  by (rule with_slot_idem) (simp add: Let_def set_eg_rr_def)

lemma write_fb_con_idem: "write_fb_con (write_fb_con OPL r v) r v = write_fb_con OPL r v"
  unfolding write_fb_con_def by (rule with_slot_idem) (simp add: Let_def)

lemma wavetable_idem:
  "with_slot c i (\<lambda>CH S. S\<lparr>wavetable := w\<rparr>) (with_slot c i (\<lambda>CH S. S\<lparr>wavetable := w\<rparr>) OPL)
     = with_slot c i (\<lambda>CH S. S\<lparr>wavetable := w\<rparr>) OPL"
  by (rule with_slot_idem) simp

text \<open>The key switch of an operator, done once, has nothing left to do.\<close>

lemma key_settled_fix:
  "key_settled b k S \<Longrightarrow> (if b then FM_KEYON S k else FM_KEYOFF S (NOT k)) = S"
proof -
  have "key S AND k = 0 \<Longrightarrow> key S AND NOT k = key S"
    by (rule bit_eqI) (auto simp add: bit_and_iff bit_not_iff bit_eq_iff)
  then show "key_settled b k S \<Longrightarrow> (if b then FM_KEYON S k else FM_KEYOFF S (NOT k)) = S"
    by (auto simp add: key_settled_def FM_KEYON_def FM_KEYOFF_def Let_def)
qed

lemma key_settled_after:
  "k \<noteq> 0 \<Longrightarrow> key_settled b k (if b then FM_KEYON S k else FM_KEYOFF S (NOT k))"
proof -
  have a: "(x AND NOT k) AND k = 0" for x :: "32 word"
    by (rule bit_eqI) (auto simp add: bit_and_iff bit_not_iff)
  have b: "x OR k \<noteq> 0" if "k \<noteq> 0" for x :: "32 word"
    using that by (auto simp add: bit_eq_iff bit_or_iff)
  have c: "(x OR k) OR k = x OR k" for x :: "32 word"
    by (rule bit_eqI) (auto simp add: bit_or_iff)
  show "k \<noteq> 0 \<Longrightarrow> key_settled b k (if b then FM_KEYON S k else FM_KEYOFF S (NOT k))"
    by (simp add: key_settled_def FM_KEYON_def FM_KEYOFF_def Let_def a b c)
qed

lemma key_settled_key: "key S' = key S \<Longrightarrow> key_settled b k S' = key_settled b k S"
  by (simp add: key_settled_def)

lemma key_slot_settled:
  assumes "c < length (P_CH X) \<Longrightarrow> key_settled b k (the_slot X c i)"
  shows "key_slot b k c i X = X"
proof (cases "c < length (P_CH X)")
  case True
  from key_settled_fix [OF assms [OF True], unfolded the_slot_def] show ?thesis
    by (cases b) (simp_all add: key_slot_def with_slot_def Let_def)
next
  case False
  then show ?thesis by (simp add: key_slot_def with_slot_beyond)
qed

lemma the_slot_key_slot_same:
  "c < length (P_CH X) \<Longrightarrow>
   the_slot (key_slot b k c i X) c i = (if b then FM_KEYON (the_slot X c i) k else FM_KEYOFF (the_slot X c i) (NOT k))"
  by (simp add: key_slot_def the_slot_with_slot)

lemma the_slot_key_slot_other:
  "c \<noteq> c' \<or> (i = 0) \<noteq> (i' = 0) \<Longrightarrow> the_slot (key_slot b k c' i' X) c i = the_slot X c i"
proof (cases "c' < length (P_CH X)")
  case True
  assume "c \<noteq> c' \<or> (i = 0) \<noteq> (i' = 0)"
  with True show ?thesis
    by (auto simp add: key_slot_def the_slot_def with_slot_P_CH SLOT_def SLOT_set_def nth_list_update)
next
  case False
  then show ?thesis by (simp add: key_slot_def with_slot_beyond)
qed

lemma key_settled_key_slot:
  assumes "k \<noteq> 0" and "c < length (P_CH X)"
  shows "key_settled b k (the_slot (key_slot b k c i X) c i)"
  unfolding the_slot_key_slot_same [OF assms(2)] by (rule key_settled_after [OF assms(1)])

text \<open>Register \<^verbatim>\<open>0xbd\<close>.\<close>

lemma rhythm_keys_idem:
  fixes Z :: FM_OPL and b1 b2 b3 b4 b5 :: bool
  defines "Y \<equiv> key_slot b5 2 8 1 (key_slot b4 2 8 0 (key_slot b3 2 7 1 (key_slot b2 2 7 0
                 (key_slot b1 2 6 1 (key_slot b1 2 6 0 Z)))))"
  shows "key_slot b5 2 8 1 (key_slot b4 2 8 0 (key_slot b3 2 7 1 (key_slot b2 2 7 0
           (key_slot b1 2 6 1 (key_slot b1 2 6 0 Y))))) = Y"
proof -
  have s: "key_slot b1 2 6 0 Y = Y" "key_slot b1 2 6 1 Y = Y" "key_slot b2 2 7 0 Y = Y"
    "key_slot b3 2 7 1 Y = Y" "key_slot b4 2 8 0 Y = Y" "key_slot b5 2 8 1 Y = Y"
    unfolding Y_def
    by (rule key_slot_settled, simp add: the_slot_key_slot_other key_settled_key_slot)+
  show ?thesis by (simp only: s)
qed

lemma bd_globals_same:
  "lfo_am_depth Y = a \<Longrightarrow> lfo_pm_depth_range Y = p \<Longrightarrow> rhythm Y = r \<Longrightarrow>
   Y\<lparr>lfo_am_depth := a, lfo_pm_depth_range := p, rhythm := r\<rparr> = Y"
  by auto

lemma write_bd_unfold:
  "write_bd X v =
     (if (v AND 0x3f) AND 0x20 = 0
      then key_slot False 2 8 1 (key_slot False 2 8 0 (key_slot False 2 7 1
             (key_slot False 2 7 0 (key_slot False 2 6 1 (key_slot False 2 6 0
               (X\<lparr>lfo_am_depth := v AND 0x80,
                   lfo_pm_depth_range := (if v AND 0x40 \<noteq> 0 then 8 else 0),
                   rhythm := v AND 0x3f\<rparr>))))))
      else key_slot (v AND 0x02 \<noteq> 0) 2 8 1 (key_slot (v AND 0x04 \<noteq> 0) 2 8 0
             (key_slot (v AND 0x08 \<noteq> 0) 2 7 1 (key_slot (v AND 0x01 \<noteq> 0) 2 7 0
               (key_slot (v AND 0x10 \<noteq> 0) 2 6 1 (key_slot (v AND 0x10 \<noteq> 0) 2 6 0
                 (X\<lparr>lfo_am_depth := v AND 0x80,
                     lfo_pm_depth_range := (if v AND 0x40 \<noteq> 0 then 8 else 0),
                     rhythm := v AND 0x3f\<rparr>)))))))"
  by (simp add: write_bd_def Let_def)

lemma write_bd_idem: "write_bd (write_bd OPL v) v = write_bd OPL v"
proof -
  let ?Y = "write_bd OPL v"
  have g: "?Y\<lparr>lfo_am_depth := v AND 0x80,
               lfo_pm_depth_range := (if v AND 0x40 \<noteq> 0 then 8 else 0),
               rhythm := v AND 0x3f\<rparr> = ?Y"
    by (rule bd_globals_same) (simp_all add: write_bd_def Let_def)
  show ?thesis
  proof (cases "(v AND 0x3f) AND 0x20 = 0")
    case True
    show ?thesis
      by (subst write_bd_unfold [of ?Y], simp only: if_P [OF True] g,
          subst (1 2) write_bd_unfold [of OPL], simp only: if_P [OF True], rule rhythm_keys_idem)
  next
    case False
    show ?thesis
      by (subst write_bd_unfold [of ?Y], simp only: if_not_P [OF False] g,
          subst (1 2) write_bd_unfold [of OPL], simp only: if_not_P [OF False], rule rhythm_keys_idem)
  qed
qed

text \<open>Registers \<^verbatim>\<open>0xa0-0xa8\<close> and \<^verbatim>\<open>0xb0-0xb8\<close>.\<close>

lemma block_fnum_update_block_fnum [simp]: "block_fnum (update_block_fnum X CH bf) = bf"
  by (simp add: update_block_fnum_def Let_def)

lemma key_update_block_fnum [simp]: "key (SLOT (update_block_fnum X CH bf) i) = key (SLOT CH i)"
  by (simp add: update_block_fnum_def Let_def SLOT_def)

lemma block_fnum_key_slot [simp]:
  "block_fnum (P_CH (key_slot b k c' i X) ! c) = block_fnum (P_CH X ! c)"
proof (cases "c' < length (P_CH X)")
  case True
  then show ?thesis by (simp add: key_slot_def with_slot_P_CH nth_list_update)
next
  case False
  then show ?thesis by (simp add: key_slot_def with_slot_beyond)
qed

lemma same_channels: "(X::FM_OPL)\<lparr>P_CH := P_CH X\<rparr> = X"
  by simp

lemma write_fnum_beyond: "\<not> r AND 0x0f < length (P_CH X) \<Longrightarrow> write_fnum X r v = X"
  by (simp add: write_fnum_def Let_def key_slot_def with_slot_beyond list_update_beyond not_less)

lemma fnum_low_twice: "(((a AND 0x1f00) OR v) AND 0x1f00) OR v = (a AND 0x1f00) OR (v::nat)"
  by (rule bit_eqI) (auto simp add: bit_and_iff bit_or_iff)

lemma fnum_high_twice:
  "push_bit 8 w OR ((push_bit 8 w OR (a AND 0xff)) AND 0xff) = push_bit 8 w OR (a AND (0xff::nat))"
proof -
  have m: "(0xff::nat) = mask 8" by (simp add: mask_eq_exp_minus_1)
  show ?thesis
    unfolding m
    by (rule bit_eqI) (auto simp add: bit_and_iff bit_or_iff bit_push_bit_iff bit_mask_iff)
qed

lemma write_fnum_low:
  "r AND 0x10 = 0 \<Longrightarrow>
   write_fnum Z r v =
     (if block_fnum (P_CH Z ! (r AND 0x0f)) \<noteq> (block_fnum (P_CH Z ! (r AND 0x0f)) AND 0x1f00) OR v
      then Z\<lparr>P_CH := (P_CH Z)[r AND 0x0f := update_block_fnum Z (P_CH Z ! (r AND 0x0f))
                                  ((block_fnum (P_CH Z ! (r AND 0x0f)) AND 0x1f00) OR v)]\<rparr>
      else Z)"
  by (simp add: write_fnum_def Let_def)

lemma write_fnum_high:
  assumes "r AND 0x10 \<noteq> 0"
  shows "write_fnum Z r v =
     (if block_fnum (P_CH Z ! (r AND 0x0f))
           \<noteq> push_bit 8 (v AND 0x1f) OR (block_fnum (P_CH Z ! (r AND 0x0f)) AND 0xff)
      then (key_slot (v AND 0x20 \<noteq> 0) 1 (r AND 0x0f) 1 (key_slot (v AND 0x20 \<noteq> 0) 1 (r AND 0x0f) 0 Z))
             \<lparr>P_CH := (P_CH (key_slot (v AND 0x20 \<noteq> 0) 1 (r AND 0x0f) 1
                               (key_slot (v AND 0x20 \<noteq> 0) 1 (r AND 0x0f) 0 Z)))
                 [r AND 0x0f := update_block_fnum
                    (key_slot (v AND 0x20 \<noteq> 0) 1 (r AND 0x0f) 1 (key_slot (v AND 0x20 \<noteq> 0) 1 (r AND 0x0f) 0 Z))
                    (P_CH (key_slot (v AND 0x20 \<noteq> 0) 1 (r AND 0x0f) 1
                            (key_slot (v AND 0x20 \<noteq> 0) 1 (r AND 0x0f) 0 Z)) ! (r AND 0x0f))
                    (push_bit 8 (v AND 0x1f) OR (block_fnum (P_CH Z ! (r AND 0x0f)) AND 0xff))]\<rparr>
      else key_slot (v AND 0x20 \<noteq> 0) 1 (r AND 0x0f) 1 (key_slot (v AND 0x20 \<noteq> 0) 1 (r AND 0x0f) 0 Z))"
  unfolding write_fnum_def Let_def block_fnum_key_slot if_not_P [OF assms] by (rule refl)

lemma write_fnum_idem: "write_fnum (write_fnum X r v) r v = write_fnum X r v"
proof (cases "r AND 0x0f < length (P_CH X)")
  case False
  then show ?thesis by (simp add: write_fnum_beyond)
next
  case c: True
  let ?c = "r AND 0x0f"
  let ?Y = "write_fnum X r v"
  show ?thesis
  proof (cases "r AND 0x10 = 0")
    case True
    let ?bf = "(block_fnum (P_CH X ! ?c) AND 0x1f00) OR v"
    show ?thesis
    proof (cases "block_fnum (P_CH X ! ?c) = ?bf")
      case same: True
      then have "?Y = X" by (simp add: write_fnum_low [OF True])
      then show ?thesis by simp
    next
      case False
      then have y: "?Y = X\<lparr>P_CH := (P_CH X)[?c := update_block_fnum X (P_CH X ! ?c) ?bf]\<rparr>"
        by (simp add: write_fnum_low [OF True])
      have b: "block_fnum (P_CH ?Y ! ?c) = ?bf" using c by (simp add: y)
      have "block_fnum (P_CH ?Y ! ?c) = (block_fnum (P_CH ?Y ! ?c) AND 0x1f00) OR v"
        unfolding b by (rule fnum_low_twice [symmetric])
      then show ?thesis by (subst write_fnum_low [OF True, of ?Y]) simp
    qed
  next
    case False
    let ?b = "v AND 0x20 \<noteq> 0"
    let ?O1 = "key_slot ?b 1 ?c 1 (key_slot ?b 1 ?c 0 X)"
    let ?bf = "push_bit 8 (v AND 0x1f) OR (block_fnum (P_CH X ! ?c) AND 0xff)"
    have l1: "?c < length (P_CH ?O1)" using c by simp
    have s: "key_settled ?b 1 (the_slot ?O1 ?c 0)" "key_settled ?b 1 (the_slot ?O1 ?c 1)"
      using c by (simp_all add: the_slot_key_slot_other key_settled_key_slot)
    have y: "length (P_CH ?Y) = length (P_CH X) \<and> block_fnum (P_CH ?Y ! ?c) = ?bf \<and>
             key (the_slot ?Y ?c 0) = key (the_slot ?O1 ?c 0) \<and>
             key (the_slot ?Y ?c 1) = key (the_slot ?O1 ?c 1)"
    proof (cases "block_fnum (P_CH X ! ?c) = ?bf")
      case True
      then have "?Y = ?O1" by (simp only: write_fnum_high [OF False] if_P simp_thms if_False)
      then show ?thesis using True by simp
    next
      case ch: False
      then have "?Y = ?O1\<lparr>P_CH := (P_CH ?O1)[?c := update_block_fnum ?O1 (P_CH ?O1 ! ?c) ?bf]\<rparr>"
        by (simp only: write_fnum_high [OF False] if_P simp_thms if_True)
      then show ?thesis using l1 by (simp add: the_slot_def)
    qed
    then have n: "length (P_CH ?Y) = length (P_CH X)" and b: "block_fnum (P_CH ?Y ! ?c) = ?bf"
      and k0: "key (the_slot ?Y ?c 0) = key (the_slot ?O1 ?c 0)"
      and k1: "key (the_slot ?Y ?c 1) = key (the_slot ?O1 ?c 1)" by simp_all
    have f0: "key_slot ?b 1 ?c 0 ?Y = ?Y"
      by (rule key_slot_settled) (simp only: key_settled_key [OF k0] s)
    have f1: "key_slot ?b 1 ?c 1 ?Y = ?Y"
      by (rule key_slot_settled) (simp only: key_settled_key [OF k1] s)
    have "block_fnum (P_CH ?Y ! ?c) = push_bit 8 (v AND 0x1f) OR (block_fnum (P_CH ?Y ! ?c) AND 0xff)"
      unfolding b by (rule fnum_high_twice [symmetric])
    then show ?thesis
      by (subst write_fnum_high [OF False, of ?Y]) (simp only: f0 f1 if_False simp_thms)
  qed
qed

lemma OPLWriteReg_other:
  assumes "nat (r AND 0xff) AND 0xe0 \<notin> {0x00, 0x20, 0x40, 0x60, 0x80, 0xa0, 0xc0, 0xe0}"
  shows "OPLWriteReg OPL r v = OPL"
  using assms by (simp add: OPLWriteReg_def Let_def)

lemma FM_KEYON_idem: "k \<noteq> 0 \<Longrightarrow> FM_KEYON (FM_KEYON S k) k = FM_KEYON S k"
  using key_settled_fix [OF key_settled_after [of k True S]] by simp

lemma FM_KEYOFF_idem: "k \<noteq> 0 \<Longrightarrow> FM_KEYOFF (FM_KEYOFF S (NOT k)) (NOT k) = FM_KEYOFF S (NOT k)"
  using key_settled_fix [OF key_settled_after [of k False S]] by simp

section \<open>The slot table and the gaps of the operator blocks (claim C6)\<close>

text \<open>
  Claim C6 says that exactly 6 of the 32 offsets of an operator block have no operator.
  The table \<^verbatim>\<open>slot_array\<close> of the source has 14 entries \<open>-1\<close>: the two at the end of
  each of the first three rows and the whole last row.  The count 6 is refuted here.
\<close>

theorem operator_gap_count_counterexample:
  "length no_slot_offsets \<noteq> 6"
  by (simp add: no_slot_count)

text \<open>
  Claim C6, amended: exactly 14 of the 32 offsets have no operator (18 have one), and a
  write to such an offset in the blocks \<^verbatim>\<open>0x20-0x9f\<close>, or in \<^verbatim>\<open>0xe0-0xff\<close> whatever
  the wave-select flag, leaves the whole chip state unchanged.
\<close>

theorem operator_gap_write_is_noop:
  "length no_slot_offsets = 14 \<and>
   (\<forall>OPL r v. ((0x20 \<le> r \<and> r \<le> 0x9f) \<or> (0xe0 \<le> r \<and> r \<le> 0xff)) \<and> no_slot (nat (r AND 0x1f))
        \<longrightarrow> OPLWriteReg OPL r v = OPL)"
proof (intro conjI allI impI)
  show "length no_slot_offsets = 14" by (rule no_slot_count)
next
  fix OPL r v
  assume h: "((0x20 \<le> r \<and> r \<le> 0x9f) \<or> (0xe0 \<le> r \<and> r \<le> 0xff)) \<and> no_slot (nat (r AND 0x1f))"
  then have m: "nat (r AND 0xff) AND 0xe0 \<in> {0x20, 0x40, 0x60, 0x80, 0xe0} \<and>
                nat (r AND 0xff) AND 0x1f = nat (r AND 0x1f)"
    using reg_e0_range [of r] reg_op_range [of r] by auto
  with h have "slot_array ! (nat (r AND 0xff) AND 0x1f) < 0"
    by (simp add: no_slot_def)
  with m show "OPLWriteReg OPL r v = OPL"
    by (intro OPLWriteReg_no_slot) simp_all
qed

theorem operator_gap_write_is_noop_witness:
  "length no_slot_offsets = 14 \<and> OPLWriteReg unit_rate_chip 0x26 0x55 = unit_rate_chip \<and>
   OPLWriteReg unit_rate_chip 0xff 0x03 = unit_rate_chip"
  using operator_gap_write_is_noop [THEN conjunct2, rule_format, of "0x26" unit_rate_chip "0x55"]
    operator_gap_write_is_noop [THEN conjunct2, rule_format, of "0xff" unit_rate_chip "0x03"]
    operator_gap_write_is_noop [THEN conjunct1]
  by (simp add: no_slot_def slot_array_def)

section \<open>Waveform select and its enable flag (claim C2)\<close>

text \<open>
  Claim C2: with wave-select disabled, a write to a waveform-select address
  \<^verbatim>\<open>0xe0-0xff\<close> changes nothing at all; with wave-select enabled, a write to an address
  that has an operator sets the waveform index of that operator to the low two bits of
  the value; and on a chip of a type with wave-select, writing a value with bit 5 to
  register \<^verbatim>\<open>0x01\<close> enables it.
\<close>

theorem waveform_select_gate:
  "(wavesel OPL = 0 \<and> 0xe0 \<le> r \<and> r \<le> 0xff \<longrightarrow> OPLWriteReg OPL r v = OPL) \<and>
   (wavesel OPL \<noteq> 0 \<and> 0xe0 \<le> r \<and> r \<le> 0xff \<and> \<not> no_slot (nat (r AND 0x1f)) \<and>
    length (P_CH OPL) = 9 \<longrightarrow>
      wavetable (the_slot (OPLWriteReg OPL r v)
                   (nat (slot_array ! nat (r AND 0x1f)) div 2)
                   (nat (slot_array ! nat (r AND 0x1f)) AND 1)) = nat (v AND 0x03)) \<and>
   (chip_type OPL AND OPL_TYPE_WAVESEL \<noteq> 0 \<and> e AND 0x20 \<noteq> 0 \<longrightarrow>
      wavesel (OPLWriteReg OPL 0x01 e) \<noteq> 0)"
proof (intro conjI impI)
  assume "wavesel OPL = 0 \<and> 0xe0 \<le> r \<and> r \<le> 0xff"
  then show "OPLWriteReg OPL r v = OPL"
    using reg_e0_range [of r] by (simp add: OPLWriteReg_e0)
next
  assume h: "wavesel OPL \<noteq> 0 \<and> 0xe0 \<le> r \<and> r \<le> 0xff \<and> \<not> no_slot (nat (r AND 0x1f)) \<and>
    length (P_CH OPL) = 9"
  let ?k = "nat (r AND 0x1f)"
  have m: "nat (r AND 0xff) AND 0xe0 = 0xe0" "nat (r AND 0xff) AND 0x1f = ?k"
    using h reg_e0_range [of r] by simp_all
  have "?k \<le> 0x1f"
    using AND_upper2 [of 31 r] by (simp add: nat_le_iff)
  then have "?k < length slot_array" by (simp add: slot_array_def)
  moreover have "list_all (\<lambda>x. x \<le> 17) slot_array" by (simp add: slot_array_def)
  ultimately have "slot_array ! ?k \<le> 17" by (simp add: list_all_length)
  moreover have "0 \<le> slot_array ! ?k" using h by (simp add: no_slot_def)
  ultimately have c: "nat (slot_array ! ?k) div 2 < length (P_CH OPL)" using h by simp
  show "wavetable (the_slot (OPLWriteReg OPL r v) (nat (slot_array ! ?k) div 2)
          (nat (slot_array ! ?k) AND 1)) = nat (v AND 0x03)"
    using h m c \<open>0 \<le> slot_array ! ?k\<close>
    by (simp add: OPLWriteReg_e0 the_slot_with_slot low_bits_of_byte)
next
  assume "chip_type OPL AND OPL_TYPE_WAVESEL \<noteq> 0 \<and> e AND 0x20 \<noteq> 0"
  then show "wavesel (OPLWriteReg OPL 0x01 e) \<noteq> 0"
    by (simp add: OPLWriteReg_00 bit5_of_byte)
qed

theorem waveform_select_gate_witness:
  "OPLWriteReg unit_rate_chip 0xe3 2 = unit_rate_chip \<and>
   wavetable (the_slot (OPLWriteReg (unit_rate_chip\<lparr>wavesel := 0x20\<rparr>) 0xe3 2) 0 1) = 2 \<and>
   wavesel (OPLWriteReg unit_rate_chip 0x01 0x20) \<noteq> 0"
  using waveform_select_gate [of unit_rate_chip "0xe3" 2 "0x20"]
    waveform_select_gate [of "unit_rate_chip\<lparr>wavesel := 0x20\<rparr>" "0xe3" 2 "0x20"]
  by (simp add: unit_rate_chip_def OPLCreate_def no_slot_def slot_array_def
        OPL_TYPE_YM3812_def OPL_TYPE_WAVESEL_def)

section \<open>The noise register is never zero (claim C4)\<close>

text \<open>
  Claim C4: from the seed 1 that the reset stores, the noise register is never zero,
  whatever the number of shifts, where one shift XORs \<^verbatim>\<open>0x800302\<close> into the register
  when bit 0 is set and then shifts it right by one.  The second half is the same for the
  chip: after a reset, any number of calls of \<^verbatim>\<open>advance\<close> returns (when
  \<^verbatim>\<open>eg_timer_overflow\<close> is not zero, as \<^verbatim>\<open>OPL_initalize\<close> makes it) and leaves a
  register that is not zero.
\<close>

theorem noise_register_never_zero:
  "noise_shifts n 1 \<noteq> 0 \<and>
   (\<forall>(OPL::FM_OPL) k. eg_timer_overflow OPL \<noteq> 0 \<longrightarrow>
      (\<exists>O'. advances k (OPLResetChip OPL) = Some O' \<and> noise_rng O' \<noteq> 0))"
proof (intro conjI allI impI)
  show "noise_shifts n 1 \<noteq> 0"
    using noise_shifts_inv [of 1 n] by simp
next
  fix OPL :: FM_OPL and k
  assume "eg_timer_overflow OPL \<noteq> 0"
  then obtain O' where a: "advances k (OPLResetChip OPL) = Some O'"
    using advances_total [of "OPLResetChip OPL" k] by auto
  have "noise_ok (OPLResetChip OPL)" by (simp add: noise_ok_def)
  with a have "noise_ok O'"
    by (rule advances_rule) (rule advance_noise_ok)
  with a show "\<exists>O'. advances k (OPLResetChip OPL) = Some O' \<and> noise_rng O' \<noteq> 0"
    by (simp add: noise_ok_def)
qed

theorem noise_register_never_zero_witness:
  "noise_shifts 5 1 \<noteq> 0 \<and>
   (\<exists>O'. advances 1000 (OPLResetChip unit_rate_chip) = Some O' \<and> noise_rng O' \<noteq> 0)"
  using noise_register_never_zero [of 5, THEN conjunct1]
    noise_register_never_zero [of 5, THEN conjunct2, rule_format, of unit_rate_chip 1000]
  by (simp add: unit_rate_chip_def OPLCreate_def EG_SH_def)

section \<open>The rhythm switch follows the live flag (claim C5)\<close>

text \<open>
  Claim C5: at every sample, whether channels 6 to 8 are three melodic channels or the
  rhythm voices is what the rhythm-enable flag says at that sample, so that a register
  write that toggles the flag shows in the very next sample.

  \<^verbatim>\<open>ym3812_update_one\<close> reads the flag once, before its loop; nothing that the loop
  calls writes the flag, so the samples and the final chip are those of
  \<open>update_live\<close>, which reads the flag at every sample.  For a chip whose envelope
  clock can overflow, and any sample index \<open>i\<close> of a call, with \<open>O1\<close> the chip after the
  \<open>i\<close> samples before it: the sample at index \<open>i\<close> is the accumulator after channels
  0 to 5 and then, when bit 5 of \<^verbatim>\<open>O1->rhythm\<close> is clear, \<^verbatim>\<open>OPL_CALC_CH\<close> on the
  channels 6, 7 and 8, and when it is set, \<^verbatim>\<open>OPL_CALC_RH\<close>.  A write of \<open>v\<close> to register
  \<^verbatim>\<open>0xbd\<close> between two calls stores bit 5 of \<open>v\<close> as the flag, and the first sample of the
  next call is computed by that bit.  On a chip whose operators are all quiet that
  sample is the sum of the outputs that the first operators of channels 0 to 5 still
  have to add, plus those of channels 6 to 8 exactly when the written bit is clear.
\<close>

theorem rhythm_switch_is_live:
  assumes "eg_timer_overflow OPL \<noteq> 0" and "ym3812_update_one T OPL i = Some (xs, O1)"
  shows
    "(let six = (\<lambda>X. calc_ch T 5 (calc_ch T 4 (calc_ch T 3 (calc_ch T 2 (calc_ch T 1 (calc_ch T 0
                    (advance_lfo (X\<lparr>output0 := 0\<rparr>))))))));
          by_flag = (\<lambda>X. if rhythm X AND 0x20 = 0
                         then calc_ch T 8 (calc_ch T 7 (calc_ch T 6 (six X)))
                         else OPL_CALC_RH T (noise_rng (six X) AND 1 \<noteq> 0) (six X));
          W = OPLWriteReg O1 0xbd v
      in ym3812_update_one T OPL n = update_live T n OPL \<and>
         (\<exists>ys O2. ym3812_update_one T OPL (i + Suc n) =
             Some (xs @ store_sample (output0 (by_flag O1)) # ys, O2) \<and> length ys = n) \<and>
         rhythm W AND 0x20 = nat (v AND 0x20) \<and>
         (\<exists>ys O2. ym3812_update_one T W (Suc n) =
             Some (store_sample (output0 (by_flag W)) # ys, O2) \<and> length ys = n) \<and>
         (hushed O1 \<longrightarrow>
            (\<exists>O2. ym3812_update_one T W 1 =
               Some ([store_sample
                  (sum_list (map (\<lambda>c. stale (P_CH O1 ! c)) [0, 1, 2, 3, 4, 5]) +
                   (if v AND 0x20 = 0
                    then sum_list (map (\<lambda>c. stale (P_CH O1 ! c)) [6, 7, 8]) else 0))], O2))))"
proof -
  let ?W = "OPLWriteReg O1 0xbd v"
  have o1: "eg_timer_overflow O1 \<noteq> 0"
    using assms sample_loop_overflow [of T "rhythm OPL AND 0x20" i OPL xs O1]
    by (simp add: ym3812_update_one_def)
  then have ow: "eg_timer_overflow ?W \<noteq> 0" by simp
  have a: "ym3812_update_one T OPL n = update_live T n OPL"
    by (simp add: ym3812_update_one_def sample_loop_live)
  note b = update_one_at [OF assms, of n, unfolded calc_channels_output0]
  have c: "rhythm ?W AND 0x20 = nat (v AND 0x20)"
    by (simp add: OPLWriteReg_bd write_bd_rhythm bd_rhythm_bit)
  note d = update_one_first [OF ow, of T n, unfolded calc_channels_output0]
  have e: "\<exists>O2. ym3812_update_one T ?W 1 =
               Some ([store_sample
                  (sum_list (map (\<lambda>c. stale (P_CH O1 ! c)) [0, 1, 2, 3, 4, 5]) +
                   (if v AND 0x20 = 0
                    then sum_list (map (\<lambda>c. stale (P_CH O1 ! c)) [6, 7, 8]) else 0))], O2)"
    if h: "hushed O1"
  proof -
    have hw: "hushed ?W" using h by (simp add: OPLWriteReg_bd hushed_write_bd)
    have "0 \<le> v AND 0x20" by simp
    then have z: "(rhythm ?W AND 0x20 = 0) = (v AND 0x20 = 0)" by (simp only: c) arith
    have s: "stale (P_CH ?W ! k) = stale (P_CH O1 ! k)" for k
      by (simp add: OPLWriteReg_bd write_bd_stale)
    from update_one_hushed [OF hw ow, of T] show ?thesis by (simp only: z s)
  qed
  show ?thesis
    unfolding Let_def using a b c d e by (intro conjI impI) assumption+
qed

theorem rhythm_switch_is_live_witness:
  "(\<exists>O2. ym3812_update_one flat_tables (OPLWriteReg drum_chip 0xbd 0x00) 1 = Some ([100], O2)) \<and>
   (\<exists>O2. ym3812_update_one flat_tables (OPLWriteReg drum_chip 0xbd 0x20) 1 = Some ([0], O2))"
proof -
  have o: "eg_timer_overflow drum_chip \<noteq> 0"
    by (simp add: drum_chip_def rest_chip_globals)
  have u: "ym3812_update_one flat_tables drum_chip 0 = Some ([], drum_chip)"
    by (simp add: ym3812_update_one_def)
  note t = rhythm_switch_is_live [OF o u, unfolded Let_def, THEN conjunct2, THEN conjunct2,
      THEN conjunct2, THEN conjunct2, THEN mp, OF hushed_drum_chip]
  have a: "store_sample 100 = 100" "store_sample 0 = 0"
    by (simp_all add: store_sample_small)
  from t [of "0x00"] t [of "0x20"] show ?thesis
    by (simp add: drum_chip_stale a)
qed

section \<open>Operators at or above the quiet threshold (claim C7)\<close>

text \<open>
  Claim C7 says that an operator whose attenuation is at or above \<^verbatim>\<open>ENV_QUIET\<close>
  contributes exactly zero to the output accumulator for that sample.  The first operator
  of a channel adds, at every sample, the output it computed one sample earlier
  (\<^verbatim>\<open>op1_out[0]\<close>), before its attenuation is looked at.  In \<open>fading_chip\<close> the first
  operator of channel 0 is routed to the output, gave 100 one sample ago and is now at
  the threshold: it adds 100.
\<close>

theorem quiet_operator_counterexample:
  "ENV_QUIET \<le> volume_calc fading_chip (SLOT1 (P_CH fading_chip ! 0)) \<and>
   contribution (ch_op1 flat_tables 0) fading_chip = 100"
proof -
  have q: "ENV_QUIET \<le> volume_calc fading_chip (SLOT1 (P_CH fading_chip ! 0))"
    by (simp add: fading_chip_env1 ENV_QUIET_192)
  have "contribution (ch_op1 flat_tables 0) fading_chip = 100"
    by (simp add: ch_op1_quiet_contribution [OF q] fading_chip_ch0 rest_slot_def zero_slot_def)
  with q show ?thesis by simp
qed

text \<open>
  Claim C7, amended: an operator whose attenuation is at or above \<^verbatim>\<open>ENV_QUIET\<close>
  computes the output zero for that sample.  For the second operator of a channel and
  for every rhythm voice (bass drum operator 2, high hat, snare drum, tom tom, top
  cymbal) the step changes nothing, so nothing is added to the accumulator.  For the
  first operator the new history entry \<^verbatim>\<open>op1_out[1]\<close> is 0; what the step adds to the
  accumulator is the output of the sample before, and only when the operator is routed
  to the output; in rhythm mode the first operator of the bass drum adds nothing to the
  accumulator.
\<close>

theorem quiet_operator_computes_zero:
  "(ENV_QUIET \<le> volume_calc OPL (SLOT2 (P_CH OPL ! c)) \<longrightarrow> ch_op2 T c OPL = OPL) \<and>
   (ENV_QUIET \<le> volume_calc OPL (SLOT2 (P_CH OPL ! 6)) \<longrightarrow> rh_bd2 T OPL = OPL) \<and>
   (ENV_QUIET \<le> volume_calc OPL (SLOT7_1 OPL) \<longrightarrow> rh_hh T noise OPL = OPL) \<and>
   (ENV_QUIET \<le> volume_calc OPL (SLOT7_2 OPL) \<longrightarrow> rh_sd T noise OPL = OPL) \<and>
   (ENV_QUIET \<le> volume_calc OPL (SLOT8_1 OPL) \<longrightarrow> rh_tom T OPL = OPL) \<and>
   (ENV_QUIET \<le> volume_calc OPL (SLOT8_2 OPL) \<longrightarrow> rh_top T OPL = OPL) \<and>
   (ENV_QUIET \<le> volume_calc OPL (SLOT1 (P_CH OPL ! c)) \<and> c < length (P_CH OPL) \<longrightarrow>
      op1_out1 (SLOT1 (P_CH (ch_op1 T c OPL) ! c)) = 0 \<and>
      op1_out0 (SLOT1 (P_CH (ch_op1 T c OPL) ! c)) = op1_out1 (SLOT1 (P_CH OPL ! c)) \<and>
      contribution (ch_op1 T c) OPL =
        (if connect1 (SLOT1 (P_CH OPL ! c)) = To_output
         then op1_out1 (SLOT1 (P_CH OPL ! c)) else 0)) \<and>
   (ENV_QUIET \<le> volume_calc OPL (SLOT1 (P_CH OPL ! 6)) \<and> 6 < length (P_CH OPL) \<longrightarrow>
      op1_out1 (SLOT1 (P_CH (rh_bd1 T OPL) ! 6)) = 0 \<and> contribution (rh_bd1 T) OPL = 0)"
  by (simp add: ch_op2_quiet rh_bd2_quiet rh_hh_quiet rh_sd_quiet rh_tom_quiet rh_top_quiet
        ch_op1_quiet_history ch_op1_quiet_contribution rh_bd1_quiet_history rh_bd1_contribution)

theorem quiet_operator_computes_zero_witness:
  "ch_op2 flat_tables 0 fading_chip = fading_chip \<and>
   op1_out1 (SLOT1 (P_CH (ch_op1 flat_tables 0 fading_chip) ! 0)) = 0 \<and>
   op1_out0 (SLOT1 (P_CH (ch_op1 flat_tables 0 fading_chip) ! 0)) = 100 \<and>
   contribution (ch_op1 flat_tables 0) fading_chip = 100"
proof -
  have l: "0 < length (P_CH fading_chip)"
    by (simp add: fading_chip_def rest_chip_def)
  have q1: "ENV_QUIET \<le> volume_calc fading_chip (SLOT1 (P_CH fading_chip ! 0))"
    by (simp add: fading_chip_env1 ENV_QUIET_192)
  have q2: "ENV_QUIET \<le> volume_calc fading_chip (SLOT2 (P_CH fading_chip ! 0))"
    by (simp add: fading_chip_env2 ENV_QUIET_192)
  have v: "op1_out1 (SLOT1 (P_CH fading_chip ! 0)) = 100"
    "connect1 (SLOT1 (P_CH fading_chip ! 0)) = To_output"
    by (simp_all add: fading_chip_ch0 rest_slot_def zero_slot_def)
  note t = quiet_operator_computes_zero [of fading_chip 0 flat_tables False]
  have a: "ch_op2 flat_tables 0 fading_chip = fading_chip"
    using t q2 by (elim conjE) (erule mp)
  have b: "op1_out1 (SLOT1 (P_CH (ch_op1 flat_tables 0 fading_chip) ! 0)) = 0 \<and>
      op1_out0 (SLOT1 (P_CH (ch_op1 flat_tables 0 fading_chip) ! 0)) =
        op1_out1 (SLOT1 (P_CH fading_chip ! 0)) \<and>
      contribution (ch_op1 flat_tables 0) fading_chip =
        (if connect1 (SLOT1 (P_CH fading_chip ! 0)) = To_output
         then op1_out1 (SLOT1 (P_CH fading_chip ! 0)) else 0)"
    using t q1 l by (elim conjE) (erule mp, rule conjI)
  from a b show ?thesis by (simp only: v if_True simp_thms)
qed

section \<open>The attenuation stays in range (claim C1)\<close>

text \<open>
  Claim C1: for every operator, after any number of calls of \<^verbatim>\<open>advance\<close>, the
  attenuation \<^verbatim>\<open>volume\<close> is within \<open>[0, 511]\<close>, and no envelope step takes it out of
  that range.  The chip \<open>OPL\<close> is any chip that a host can have: the one that
  \<^verbatim>\<open>ym3812_init\<close> returns, after any calls of the register write, the reset, the sample
  generation and the timer entry point, in any order (\<open>host_run\<close>).  From there \<open>n\<close> calls
  of \<^verbatim>\<open>advance\<close> return, every operator of the resulting chip has its attenuation in
  \<open>[0, 511]\<close>, and one more envelope step \<open>eg_slot\<close>, at any value of the envelope
  counter, keeps it there.  The attack step stays at or above \<open>-1\<close> and is set to 0 when
  it is not positive; the decay step starts from at most 495, since the sustain levels
  are at most 496, and adds at most 8; the sustain and release steps clamp at 511.
\<close>

theorem attenuation_stays_in_range:
  assumes "host_run T (ym3812_init fn am pm nf ta) cs = Some OPL"
  shows "\<exists>O'. advances n OPL = Some O' \<and>
           (\<forall>c<9. \<forall>i<2. 0 \<le> volume (the_slot O' c i) \<and> volume (the_slot O' c i) \<le> 511 \<and>
              0 \<le> volume (eg_slot cnt (the_slot O' c i)) \<and>
              volume (eg_slot cnt (the_slot O' c i)) \<le> 511)"
proof -
  have i: "chip_inv OPL"
    by (rule chip_inv_host_run [OF chip_inv_ym3812_init assms])
  have "eg_timer_overflow OPL \<noteq> 0"
    using host_run_overflow [OF assms] ym3812_init_overflow [of fn am pm nf ta] by simp
  from advances_total [OF this] obtain O' where a: "advances n OPL = Some O'" by blast
  have j: "chip_inv O'" by (rule chip_inv_advances [OF i a])
  have "0 \<le> volume (the_slot O' c i) \<and> volume (the_slot O' c i) \<le> 511 \<and>
        0 \<le> volume (eg_slot cnt (the_slot O' c i)) \<and>
        volume (eg_slot cnt (the_slot O' c i)) \<le> 511" if "c < 9" "i < 2" for c i
  proof -
    from j that(1) have "ch_inv (P_CH O' ! c)"
      by (simp add: chip_inv_def list_all_length)
    then have s: "slot_inv (the_slot O' c i)"
      by (simp add: the_slot_def ch_inv_SLOT)
    from s slot_inv_eg_slot [OF s, of cnt] show ?thesis
      by (simp add: slot_inv_def MAX_ATT_INDEX_def ENV_BITS_def)
  qed
  with a show ?thesis by blast
qed

theorem attenuation_stays_in_range_witness:
  "\<exists>O'. advances 1000
           (OPLWriteReg (OPLWriteReg unit_rate_init 0x60 0xf4)
              0xb0 0x20) = Some O' \<and>
         (\<forall>c<9. \<forall>i<2. 0 \<le> volume (the_slot O' c i) \<and> volume (the_slot O' c i) \<le> 511 \<and>
            0 \<le> volume (eg_slot 8 (the_slot O' c i)) \<and>
            volume (eg_slot 8 (the_slot O' c i)) \<le> 511)"
  using attenuation_stays_in_range
    [of flat_tables "map (\<lambda>i. of_nat (i * 4096)) [0 ..< 1024]" "0x40000" "0x4000" "0x10000"
        "0x10000" "[Write_reg 0x60 0xf4, Write_reg 0xb0 0x20]" _ 1000 8]
  by (simp add: unit_rate_init_def)

section \<open>Sustain and the EG-type bit (claim C8)\<close>

text \<open>
  Claim C8: for an operator in the sustain phase, a write to a register of the block
  \<^verbatim>\<open>0x20-0x3f\<close> (the block that holds the EG-type bit; the write may toggle the bit of
  this operator, when the register is its own, or concern another operator) does not
  change its envelope state, and neither does any number of calls of \<^verbatim>\<open>advance\<close>
  afterwards, which all return.  While the operator is non-percussive (\<^verbatim>\<open>eg_type\<close> set)
  its attenuation is the one it had; while it is percussive every envelope step leaves
  the state at sustain and adds the release-rate increment when the envelope counter
  fires, clamped at 511.  Written to the register of the operator itself, bit 5 of the
  value is the new \<^verbatim>\<open>eg_type\<close>.
\<close>

theorem sustain_survives_eg_type_toggle:
  assumes "state (the_slot OPL c i) = EG_SUS" and "c < length (P_CH OPL)"
    and "0x20 \<le> r" and "r \<le> 0x3f" and "eg_timer_overflow OPL \<noteq> 0"
  shows "\<exists>O'. advances n (OPLWriteReg OPL r v) = Some O' \<and>
           state (the_slot O' c i) = EG_SUS \<and>
           eg_type (the_slot O' c i) = eg_type (the_slot (OPLWriteReg OPL r v) c i) \<and>
           (eg_type (the_slot O' c i) \<noteq> 0 \<longrightarrow> volume (the_slot O' c i) = volume (the_slot OPL c i)) \<and>
           (eg_type (the_slot O' c i) = 0 \<longrightarrow>
              (\<forall>cnt. state (eg_slot cnt (the_slot O' c i)) = EG_SUS \<and>
                 volume (eg_slot cnt (the_slot O' c i)) =
                   (if eg_gate cnt (eg_sh_rr (the_slot O' c i))
                    then min MAX_ATT_INDEX (volume (the_slot O' c i) +
                           eg_step cnt (eg_sel_rr (the_slot O' c i)) (eg_sh_rr (the_slot O' c i)))
                    else volume (the_slot O' c i)))) \<and>
           (i < 2 \<and> slot_array ! nat (r AND 0x1f) = int (2 * c + i) \<longrightarrow>
              eg_type (the_slot (OPLWriteReg OPL r v) c i) = nat (v AND 0x20))"
proof -
  let ?W = "OPLWriteReg OPL r v"
  let ?e = "eg_type (the_slot ?W c i)"
  have "eg_timer_overflow ?W \<noteq> 0" using assms(5) by simp
  from advances_total [OF this] obtain O' where a: "advances n ?W = Some O'" by blast
  have "sustained c i ?e (volume (the_slot OPL c i)) ?W"
    using assms(1,2) write_20_keeps [OF assms(3,4)] by (simp add: sustained_def)
  from sustained_advances [OF a this]
  have s: "state (the_slot O' c i) = EG_SUS" "eg_type (the_slot O' c i) = ?e"
    "?e \<noteq> 0 \<longrightarrow> volume (the_slot O' c i) = volume (the_slot OPL c i)"
    by (simp_all add: sustained_def)
  have p: "eg_type (the_slot O' c i) = 0 \<longrightarrow>
              (\<forall>cnt. state (eg_slot cnt (the_slot O' c i)) = EG_SUS \<and>
                 volume (eg_slot cnt (the_slot O' c i)) =
                   (if eg_gate cnt (eg_sh_rr (the_slot O' c i))
                    then min MAX_ATT_INDEX (volume (the_slot O' c i) +
                           eg_step cnt (eg_sel_rr (the_slot O' c i)) (eg_sh_rr (the_slot O' c i)))
                    else volume (the_slot O' c i)))"
    using eg_slot_sustain(1) [OF s(1)] eg_slot_sustain(4) [OF s(1)] by blast
  have t: "i < 2 \<and> slot_array ! nat (r AND 0x1f) = int (2 * c + i) \<longrightarrow> ?e = nat (v AND 0x20)"
    using write_20_eg_type [OF assms(3,4,2)] by blast
  from a s p t show ?thesis by (intro exI [of _ O'] conjI) simp_all
qed

theorem sustain_survives_eg_type_toggle_witness:
  "\<exists>O'. advances 50 (OPLWriteReg sustaining_chip 0x23 0x01) = Some O' \<and>
         state (the_slot O' 0 1) = EG_SUS \<and>
         eg_type (the_slot (OPLWriteReg sustaining_chip 0x23 0x01) 0 1) = 0"
proof -
  have h: "state (the_slot sustaining_chip 0 1) = EG_SUS" "0 < length (P_CH sustaining_chip)"
    "eg_timer_overflow sustaining_chip \<noteq> 0"
    by (simp_all add: sustaining_chip_def rest_chip_def unit_rate_chip_def OPLCreate_def
          the_slot_def SLOT_def EG_SH_def)
  have s: "(1::nat) < 2 \<and> slot_array ! nat (0x23 AND 0x1f) = int (2 * 0 + 1)"
    by (simp add: slot_array_def)
  from sustain_survives_eg_type_toggle [OF h(1,2) _ _ h(3), of "0x23" 50 "0x01"] s
  show ?thesis by auto
qed

section \<open>Samples are stored without the range limit (claim C10)\<close>

text \<open>
  Claim C10: in the loop of \<^verbatim>\<open>ym3812_update_one\<close> every sample is the accumulator
  \<^verbatim>\<open>output[0]\<close> stored into the buffer as it is; the call of \<^verbatim>\<open>limit\<close> is commented out.
  For a chip whose envelope clock can overflow and any sample index \<open>i\<close> of a call,
  with \<open>O1\<close> the chip after the \<open>i\<close> samples before it, the sample at index \<open>i\<close> is
  \<open>store_sample\<close> of the accumulator after the channels: its low 16 bits read as a signed
  number.  That is the accumulator itself when it lies in \<open>[MINOUT, MAXOUT]\<close>; an
  accumulator above \<open>MAXOUT\<close> by less than \<open>65536\<close> is stored as itself minus \<open>65536\<close>,
  one below \<open>MINOUT\<close> by less than \<open>65536\<close> as itself plus \<open>65536\<close>, and neither is the
  value that \<^verbatim>\<open>limit(lt, MAXOUT, MINOUT)\<close> would have stored.
\<close>

theorem sample_is_stored_without_limit:
  assumes "eg_timer_overflow OPL \<noteq> 0" and "ym3812_update_one T OPL i = Some (xs, O1)"
  shows
    "(let acc = output0 (calc_channels T (rhythm O1 AND 0x20) O1)
      in (\<exists>ys O2. ym3812_update_one T OPL (i + Suc n) = Some (xs @ store_sample acc # ys, O2) \<and>
                   length ys = n) \<and>
         store_sample acc = (acc + 32768) mod 65536 - 32768 \<and>
         (MINOUT \<le> acc \<and> acc \<le> MAXOUT \<longrightarrow> store_sample acc = acc) \<and>
         (MAXOUT < acc \<and> acc < MAXOUT + 65536 \<longrightarrow>
            store_sample acc = acc - 65536 \<and> store_sample acc \<noteq> limit acc MAXOUT MINOUT) \<and>
         (acc < MINOUT \<and> MINOUT - 65536 < acc \<longrightarrow>
            store_sample acc = acc + 65536 \<and> store_sample acc \<noteq> limit acc MAXOUT MINOUT))"
  unfolding Let_def
  using update_one_at [OF assms, of n]
  by (intro conjI impI; (elim conjE)?)
     (assumption, rule store_sample_mod, erule (1) store_sample_inside,
      erule (1) store_sample_above(1), erule (1) store_sample_above(2),
      erule (1) store_sample_below(1), erule (1) store_sample_below(2))

theorem sample_is_stored_without_limit_witness:
  "(\<exists>O2. ym3812_update_one flat_tables loud_chip 1 = Some ([- 28780], O2)) \<and>
   limit 36756 MAXOUT MINOUT = 32767"
proof -
  have o: "eg_timer_overflow loud_chip \<noteq> 0"
    by (simp add: loud_chip_def rest_chip_globals)
  have u: "ym3812_update_one flat_tables loud_chip 0 = Some ([], loud_chip)"
    by (simp add: ym3812_update_one_def)
  have r: "MAXOUT < (36756::int) \<and> (36756::int) < MAXOUT + 65536" by (simp add: MAXOUT_def)
  note t = sample_is_stored_without_limit [OF o u, of 0, unfolded Let_def loud_chip_acc]
  from t r have "store_sample 36756 = 36756 - 65536" by blast
  moreover from t have "\<exists>ys O2. ym3812_update_one flat_tables loud_chip (0 + Suc 0) =
      Some ([] @ store_sample 36756 # ys, O2) \<and> length ys = 0" by blast
  ultimately show ?thesis by (auto simp add: limit_def MAXOUT_def)
qed

section \<open>The first sample after a reset (claim C3)\<close>

text \<open>
  Claim C3: after a reset every operator is in the OFF state at the attenuation 511, and
  the samples generated before any key is set are all zero.

  \<^verbatim>\<open>OPLResetChip\<close> sets the state and the attenuation of every operator and points every
  \<^verbatim>\<open>connect1\<close> to \<^verbatim>\<open>output[0]\<close>, but leaves \<^verbatim>\<open>op1_out\<close> as it was; \<^verbatim>\<open>OPL_CALC_CH\<close> adds the
  old \<^verbatim>\<open>op1_out[1]\<close> to \<^verbatim>\<open>*connect1\<close> before it looks at the envelope.  For the chip
  \<open>played_chip\<close>, whose channel 0 was sounding, the reset leaves every operator off at
  511, and the first sample generated after it is 100.
\<close>

theorem reset_keeps_operator_history:
  "all_off (OPLResetChip played_chip) \<and>
   map_option fst (ym3812_update_one flat_tables (OPLResetChip played_chip) 1) = Some [100]"
proof -
  have o: "eg_timer_overflow played_chip \<noteq> 0"
    by (simp add: played_chip_def rest_chip_globals)
  have a: "store_sample 100 = 100" by (simp add: store_sample_small)
  from first_sample_after_reset [OF chip_inv_played_chip o, of flat_tables]
  show ?thesis by (auto simp add: all_off_OPLResetChip played_chip_history a)
qed

section \<open>Writing a register twice (claim C9)\<close>

text \<open>
  Claim C9: the register decode is idempotent.  For every chip, every address and every
  value, the chip after two writes of the value to the address in immediate succession
  is the chip after one: the second \<^verbatim>\<open>OPLWriteReg\<close> changes nothing.  In particular a
  second \<^verbatim>\<open>FM_KEYON\<close> for the same key source does not restart the envelope, and a second
  \<^verbatim>\<open>FM_KEYOFF\<close> does nothing.
\<close>

theorem register_write_is_idempotent:
  "OPLWriteReg (OPLWriteReg OPL r v) r v = OPLWriteReg OPL r v \<and>
   FM_KEYON (FM_KEYON S 1) 1 = FM_KEYON S 1 \<and>
   FM_KEYOFF (FM_KEYOFF S (NOT 1)) (NOT 1) = FM_KEYOFF S (NOT 1)"
proof -
  let ?a = "nat (r AND 0xff) AND 0xe0"
  consider "?a = 0x00" | "?a = 0x20" | "?a = 0x40" | "?a = 0x60" | "?a = 0x80" | "?a = 0xa0"
    | "?a = 0xc0" | "?a = 0xe0"
    | "?a \<notin> {0x00, 0x20, 0x40, 0x60, 0x80, 0xa0, 0xc0, 0xe0}"
    by (cases "?a \<in> {0x00, 0x20, 0x40, 0x60, 0x80, 0xa0, 0xc0, 0xe0}") auto
  then have "OPLWriteReg (OPLWriteReg OPL r v) r v = OPLWriteReg OPL r v"
  proof cases
    case 1
    then show ?thesis by (simp add: OPLWriteReg_00)
  next
    case 2
    then show ?thesis by (simp add: OPLWriteReg_20 set_mul_idem)
  next
    case 3
    then show ?thesis by (simp add: OPLWriteReg_40 set_ksl_tl_idem)
  next
    case 4
    then show ?thesis by (simp add: OPLWriteReg_60 set_ar_dr_idem)
  next
    case 5
    then show ?thesis by (simp add: OPLWriteReg_80 set_sl_rr_idem)
  next
    case 6
    then show ?thesis by (simp add: OPLWriteReg_a0 write_bd_idem write_fnum_idem)
  next
    case 7
    then show ?thesis by (simp add: OPLWriteReg_c0 write_fb_con_idem)
  next
    case 8
    then show ?thesis by (simp add: OPLWriteReg_e0 wavetable_idem)
  next
    case 9
    show ?thesis by (simp only: OPLWriteReg_other [OF 9])
  qed
  with FM_KEYON_idem [of 1 S] FM_KEYOFF_idem [of 1 S] show ?thesis by simp
qed

end
